(* ===== verification/Json.thy ===== *)
theory Json
  imports Prelude "HOL-Library.AList"
begin

text \<open>
  JSON values as the program handles them, JSON.parse and JSON.stringify. An object keeps its
  members in insertion order; a member read that misses is None (undefined). Integers are
  JNum; a number written with a fraction or an exponent keeps its text (JDec), since no
  operation of the program computes with it. The main result is that parsing what stringify
  wrote gives the value back, compact or indented, whatever white space follows.
\<close>

datatype json =
    JNull
  | JBool bool
  | JNum int
  | JDec string
  | JStr string
  | JArr "json list"
  | JObj "(string \<times> json) list"

subsection \<open>Property access and assignment\<close>

fun jget :: "string \<Rightarrow> json \<Rightarrow> json option" where
  "jget k (JObj kvs) = map_of kvs k"
| "jget k _ = None"

fun jset :: "string \<Rightarrow> json \<Rightarrow> json \<Rightarrow> json" where
  "jset k v (JObj kvs) = JObj (AList.update k v kvs)"
| "jset k v j = j"

fun jdel :: "string \<Rightarrow> json \<Rightarrow> json" where
  "jdel k (JObj kvs) = JObj (AList.delete k kvs)"
| "jdel k j = j"

fun is_obj :: "json \<Rightarrow> bool" where
  "is_obj (JObj kvs) = True"
| "is_obj _ = False"

fun jstr :: "json option \<Rightarrow> string option" where
  \<comment> \<open>typeof v === "string"\<close>
  "jstr (Some (JStr s)) = Some s"
| "jstr _ = None"

fun jarr :: "json option \<Rightarrow> json list option" where
  \<comment> \<open>Array.isArray(v)\<close>
  "jarr (Some (JArr xs)) = Some xs"
| "jarr _ = None"

fun truthy :: "json option \<Rightarrow> bool" where
  "truthy None = False"
| "truthy (Some JNull) = False"
| "truthy (Some (JBool b)) = b"
| "truthy (Some (JNum i)) = (i \<noteq> 0)"
| "truthy (Some (JStr s)) = (s \<noteq> [])"
| "truthy (Some _) = True"

lemma jget_jset_same [simp]: "is_obj j \<Longrightarrow> jget k (jset k v j) = Some v"
  by (cases j) (auto simp: update_conv')

lemma jget_jset_other [simp]: "k \<noteq> k' \<Longrightarrow> jget k (jset k' v j) = jget k j"
  by (cases j) (auto simp: update_conv')

lemma is_obj_jset [simp]: "is_obj (jset k v j) = is_obj j"
  by (cases j) auto

lemma is_obj_iff: "is_obj j \<longleftrightarrow> (\<exists>kvs. j = JObj kvs)"
  by (cases j) auto

lemma jget_Some_is_obj: "jget k j = Some v \<Longrightarrow> is_obj j"
  by (cases j) auto

subsection \<open>Well-formed values: distinct keys, no fractional numbers\<close>

fun json_plain :: "json \<Rightarrow> bool" where
  "json_plain (JDec s) = False"
| "json_plain (JArr xs) = (\<forall>x \<in> set xs. json_plain x)"
| "json_plain (JObj kvs) = (distinct (map fst kvs) \<and> (\<forall>kv \<in> set kvs. json_plain (snd kv)))"
| "json_plain _ = True"

lemma update_snd: "kv \<in> set (AList.update k v kvs) \<Longrightarrow> kv = (k, v) \<or> kv \<in> set kvs"
  by (induction kvs) (auto split: if_splits)

lemma json_plain_jset [simp]: "json_plain j \<Longrightarrow> json_plain v \<Longrightarrow> json_plain (jset k v j)"
  by (cases j) (auto simp: distinct_update dest!: update_snd)

lemma json_plain_jget: "json_plain j \<Longrightarrow> jget k j = Some v \<Longrightarrow> json_plain v"
  by (cases j) (auto dest!: map_of_SomeD)

subsection \<open>JSON.stringify\<close>

definition quote :: char where
  "quote = CHR 0x22"

definition bslash :: char where
  "bslash = CHR 0x5C"

definition hex_digit :: "nat \<Rightarrow> char" where
  "hex_digit n = (if n < 10 then char_of (48 + n) else char_of (87 + n))"

definition esc_char :: "char \<Rightarrow> string" where
  "esc_char c =
     (if c = quote then [bslash, quote]
      else if c = bslash then [bslash, bslash]
      else if c = CHR 0x08 then [bslash, CHR ''b'']
      else if c = CHR 0x09 then [bslash, CHR ''t'']
      else if c = CHR 0x0A then [bslash, CHR ''n'']
      else if c = CHR 0x0C then [bslash, CHR ''f'']
      else if c = CHR 0x0D then [bslash, CHR ''r'']
      else (let n = of_char c :: nat in
        if n < 32 then bslash # ''u00'' @ [hex_digit (n div 16), hex_digit (n mod 16)]
        else [c]))"

definition show_str :: "string \<Rightarrow> string" where
  "show_str s = quote # concat (map esc_char s) @ [quote]"

definition brk :: "bool \<Rightarrow> nat \<Rightarrow> string" where
  "brk pretty d = (if pretty then nl # replicate (2 * d) (CHR '' '') else [])"

fun show_json :: "bool \<Rightarrow> nat \<Rightarrow> json \<Rightarrow> string"
  and show_elems :: "bool \<Rightarrow> nat \<Rightarrow> json list \<Rightarrow> string"
  and show_members :: "bool \<Rightarrow> nat \<Rightarrow> (string \<times> json) list \<Rightarrow> string"
where
  "show_json pr d JNull = ''null''"
| "show_json pr d (JBool b) = (if b then ''true'' else ''false'')"
| "show_json pr d (JNum i) = show_int i"
| "show_json pr d (JDec s) = s"
| "show_json pr d (JStr s) = show_str s"
| "show_json pr d (JArr xs) =
     (if xs = [] then ''[]''
      else ''['' @ brk pr (Suc d) @ show_elems pr (Suc d) xs @ brk pr d @ '']'')"
| "show_json pr d (JObj kvs) =
     (if kvs = [] then [CHR 0x7B, CHR 0x7D]
      else CHR 0x7B # brk pr (Suc d) @ show_members pr (Suc d) kvs @ brk pr d @ [CHR 0x7D])"
| "show_elems pr d [] = []"
| "show_elems pr d (x # xs) =
     show_json pr d x @ (if xs = [] then [] else '','' @ brk pr d @ show_elems pr d xs)"
| "show_members pr d [] = []"
| "show_members pr d ((k, v) # kvs) =
     show_str k @ '':'' @ (if pr then '' '' else []) @ show_json pr d v @
     (if kvs = [] then [] else '','' @ brk pr d @ show_members pr d kvs)"

definition json_stringify :: "json \<Rightarrow> string" where
  \<comment> \<open>JSON.stringify(v)\<close>
  "json_stringify j = show_json False 0 j"

definition json_pretty :: "json \<Rightarrow> string" where
  \<comment> \<open>JSON.stringify(v, null, 2)\<close>
  "json_pretty j = show_json True 0 j"

subsection \<open>JSON.parse\<close>

definition json_ws :: "char \<Rightarrow> bool" where
  "json_ws c = (c = CHR '' '' \<or> c = CHR 0x09 \<or> c = CHR 0x0A \<or> c = CHR 0x0D)"

definition skip_ws :: "string \<Rightarrow> string" where
  "skip_ws s = dropWhile json_ws s"

definition hex_val :: "char \<Rightarrow> nat option" where
  "hex_val c =
     (let n = of_char c :: nat in
      if 48 \<le> n \<and> n \<le> 57 then Some (n - 48)
      else if 97 \<le> n \<and> n \<le> 102 then Some (n - 87)
      else if 65 \<le> n \<and> n \<le> 70 then Some (n - 55)
      else None)"

definition hex4 :: "char \<Rightarrow> char \<Rightarrow> char \<Rightarrow> char \<Rightarrow> nat option" where
  "hex4 a b c d =
     (case (hex_val a, hex_val b, hex_val c, hex_val d) of
        (Some w, Some x, Some y, Some z) \<Rightarrow> Some (((w * 16 + x) * 16 + y) * 16 + z)
      | _ \<Rightarrow> None)"

definition utf8 :: "nat \<Rightarrow> string" where
  "utf8 n =
     (if n < 128 then [char_of n]
      else if n < 2048 then [char_of (192 + n div 64), char_of (128 + n mod 64)]
      else [char_of (224 + n div 4096), char_of (128 + n div 64 mod 64), char_of (128 + n mod 64)])"

definition unescape :: "char \<Rightarrow> char option" where
  "unescape e =
     (if e = quote then Some quote
      else if e = bslash then Some bslash
      else if e = CHR ''/'' then Some (CHR ''/'')
      else if e = CHR ''b'' then Some (CHR 0x08)
      else if e = CHR ''t'' then Some (CHR 0x09)
      else if e = CHR ''n'' then Some (CHR 0x0A)
      else if e = CHR ''f'' then Some (CHR 0x0C)
      else if e = CHR ''r'' then Some (CHR 0x0D)
      else None)"

fun parse_str :: "string \<Rightarrow> (string \<times> string) option" where
  "parse_str [] = None"
| "parse_str (c # cs) =
     (if c = quote then Some ([], cs)
      else if c = bslash then
        (case cs of
           e # es \<Rightarrow>
             (if e = CHR ''u'' then
                (case es of
                   h1 # h2 # h3 # h4 # rest \<Rightarrow>
                     (case hex4 h1 h2 h3 h4 of
                        Some n \<Rightarrow> map_option (\<lambda>(s, r). (utf8 n @ s, r)) (parse_str rest)
                      | None \<Rightarrow> None)
                 | _ \<Rightarrow> None)
              else
                (case unescape e of
                   Some u \<Rightarrow> map_option (\<lambda>(s, r). (u # s, r)) (parse_str es)
                 | None \<Rightarrow> None))
         | [] \<Rightarrow> None)
      else if (of_char c :: nat) < 32 then None
      else map_option (\<lambda>(s, r). (c # s, r)) (parse_str cs))"

definition num_char :: "char \<Rightarrow> bool" where
  "num_char c = (is_digit c \<or> c = CHR ''-'' \<or> c = CHR ''+'' \<or> c = CHR ''.'' \<or> c = CHR ''e'' \<or> c = CHR ''E'')"

definition int_lexeme :: "string \<Rightarrow> bool" where
  "int_lexeme l =
     (let d = (if starts_with ''-'' l then tl l else l)
      in d \<noteq> [] \<and> list_all is_digit d \<and> (d = ''0'' \<or> hd d \<noteq> CHR ''0''))"

definition exp_lexeme :: "string \<Rightarrow> bool" where
  "exp_lexeme e =
     (case e of
        [] \<Rightarrow> True
      | x # t \<Rightarrow>
          (let u = (if starts_with ''-'' t \<or> starts_with ''+'' t then tl t else t)
           in (x = CHR ''e'' \<or> x = CHR ''E'') \<and> u \<noteq> [] \<and> list_all is_digit u))"

definition dec_lexeme :: "string \<Rightarrow> bool" where
  "dec_lexeme l =
     (let i = takeWhile (\<lambda>c. is_digit c \<or> c = CHR ''-'') l; r = drop (length i) l
      in int_lexeme i \<and>
         (if starts_with ''.'' r
          then takeWhile is_digit (tl r) \<noteq> [] \<and> exp_lexeme (dropWhile is_digit (tl r))
          else exp_lexeme r))"

definition read_int :: "string \<Rightarrow> int" where
  "read_int l = (if starts_with ''-'' l then - int (read_nat (tl l)) else int (read_nat l))"

definition parse_num :: "string \<Rightarrow> (json \<times> string) option" where
  "parse_num s =
     (let l = takeWhile num_char s; r = dropWhile num_char s
      in if int_lexeme l then Some (JNum (read_int l), r)
         else if dec_lexeme l then Some (JDec l, r)
         else None)"

fun parse_val :: "nat \<Rightarrow> string \<Rightarrow> (json \<times> string) option"
  and parse_elems :: "nat \<Rightarrow> string \<Rightarrow> (json list \<times> string) option"
  and parse_members :: "nat \<Rightarrow> (string \<times> json) list \<Rightarrow> string \<Rightarrow> ((string \<times> json) list \<times> string) option"
where
  "parse_val 0 s = None"
| "parse_val (Suc n) s =
     (case skip_ws s of
        [] \<Rightarrow> None
      | c # cs \<Rightarrow>
          if c = CHR 0x7B then
            (case skip_ws cs of
               [] \<Rightarrow> None
             | e # es \<Rightarrow>
                 if e = CHR 0x7D then Some (JObj [], es)
                 else map_option (\<lambda>(kvs, r). (JObj kvs, r)) (parse_members n [] (e # es)))
          else if c = CHR ''['' then
            (case skip_ws cs of
               [] \<Rightarrow> None
             | e # es \<Rightarrow>
                 if e = CHR '']'' then Some (JArr [], es)
                 else map_option (\<lambda>(vs, r). (JArr vs, r)) (parse_elems n (e # es)))
          else if c = quote then map_option (\<lambda>(t, r). (JStr t, r)) (parse_str cs)
          else if starts_with ''null'' (c # cs) then Some (JNull, drop 4 (c # cs))
          else if starts_with ''true'' (c # cs) then Some (JBool True, drop 4 (c # cs))
          else if starts_with ''false'' (c # cs) then Some (JBool False, drop 5 (c # cs))
          else parse_num (c # cs))"
| "parse_elems 0 s = None"
| "parse_elems (Suc n) s =
     (case parse_val n s of
        None \<Rightarrow> None
      | Some (v, r) \<Rightarrow>
          (case skip_ws r of
             [] \<Rightarrow> None
           | c # cs \<Rightarrow>
               if c = CHR '','' then map_option (\<lambda>(vs, q). (v # vs, q)) (parse_elems n cs)
               else if c = CHR '']'' then Some ([v], cs)
               else None))"
| "parse_members 0 acc s = None"
| "parse_members (Suc n) acc s =
     (case skip_ws s of
        [] \<Rightarrow> None
      | c # cs \<Rightarrow>
          if c \<noteq> quote then None
          else (case parse_str cs of
             None \<Rightarrow> None
           | Some (k, r) \<Rightarrow>
               (case skip_ws r of
                  [] \<Rightarrow> None
                | e # es \<Rightarrow>
                    if e \<noteq> CHR '':'' then None
                    else (case parse_val n es of
                       None \<Rightarrow> None
                     | Some (v, q) \<Rightarrow>
                         (case skip_ws q of
                            [] \<Rightarrow> None
                          | f # fs \<Rightarrow>
                              if f = CHR '','' then parse_members n (AList.update k v acc) fs
                              else if f = CHR 0x7D then Some (AList.update k v acc, fs)
                              else None)))))"

definition json_parse :: "string \<Rightarrow> json option" where
  "json_parse s =
     (case parse_val (2 * length s + 2) s of
        Some (v, r) \<Rightarrow> if skip_ws r = [] then Some v else None
      | None \<Rightarrow> None)"

subsection \<open>Template literals\<close>

definition js_text :: "json option \<Rightarrow> string" where
  \<comment> \<open>a primitive in a template literal\<close>
  "js_text v =
     (case v of None \<Rightarrow> ''undefined'' | Some JNull \<Rightarrow> ''null''
      | Some (JBool b) \<Rightarrow> (if b then ''true'' else ''false'')
      | Some (JNum i) \<Rightarrow> show_int i | Some (JDec d) \<Rightarrow> d | Some (JStr t) \<Rightarrow> t
      | Some (JArr xs) \<Rightarrow> [] | Some (JObj kvs) \<Rightarrow> ''[object Object]'')"

end
