(* ===== verification/Json_Roundtrip.thy ===== *)
theory Json_Roundtrip
  imports Json
begin

text \<open>
  JSON.parse after JSON.stringify is the identity on well-formed values, in both layouts the
  program writes (compact lines in the JSON-lines logs, two-space indentation in manifests),
  and the compact text holds no line break, so that one record is one line.
\<close>

subsection \<open>White space and separators\<close>

lemma skip_ws_Nil [simp]: "skip_ws [] = []"
  by (simp add: skip_ws_def)

lemma skip_ws_Cons: "skip_ws (c # s) = (if json_ws c then skip_ws s else c # s)"
  by (simp add: skip_ws_def)

lemma skip_ws_append: "(\<forall>c \<in> set w. json_ws c) \<Longrightarrow> skip_ws (w @ s) = skip_ws s"
  by (induction w) (auto simp: skip_ws_Cons)

lemma brk_ws: "c \<in> set (brk pr d) \<Longrightarrow> json_ws c"
  by (auto simp: brk_def json_ws_def nl_def split: if_splits)

lemma skip_ws_brk [simp]: "skip_ws (brk pr d @ s) = skip_ws s"
  by (rule skip_ws_append) (use brk_ws in blast)

lemma skip_ws_all: "(\<forall>c \<in> set w. json_ws c) \<Longrightarrow> skip_ws w = []"
  using skip_ws_append [of w "[]"] by simp

definition val_end :: "string \<Rightarrow> bool" where
  "val_end r = (r = [] \<or> \<not> num_char (hd r))"

lemma num_char_ws: "json_ws c \<Longrightarrow> \<not> num_char c"
  by (auto simp: json_ws_def num_char_def is_digit_def)

lemma val_end_Cons [simp]: "val_end (c # s) = (\<not> num_char c)"
  by (simp add: val_end_def)

lemma val_end_brk: "val_end s \<Longrightarrow> val_end (brk pr d @ s)"
  by (auto simp: brk_def nl_def num_char_def is_digit_def)

lemma num_char_punct [simp]:
  "\<not> num_char (CHR '','')" "\<not> num_char (CHR '']'')" "\<not> num_char (CHR 0x7D)"
  by (simp_all add: num_char_def is_digit_def)

subsection \<open>Strings\<close>

lemma hex_val_digit [simp]: "n < 16 \<Longrightarrow> hex_val (hex_digit n) = Some n"
  by (auto simp: hex_val_def hex_digit_def Let_def)

lemma hex_val_0 [simp]: "hex_val (CHR ''0'') = Some 0"
  by (simp add: hex_val_def)

lemma parse_str_esc:
  "parse_str (esc_char c @ s) = map_option (\<lambda>(t, r). (c # t, r)) (parse_str s)"
proof -
  consider "c = quote" | "c = bslash" | "c = CHR 0x08" | "c = CHR 0x09" | "c = CHR 0x0A"
    | "c = CHR 0x0C" | "c = CHR 0x0D"
    | (ctl) "c \<notin> {quote, bslash, CHR 0x08, CHR 0x09, CHR 0x0A, CHR 0x0C, CHR 0x0D}"
        "(of_char c :: nat) < 32"
    | (plain) "c \<notin> {quote, bslash, CHR 0x08, CHR 0x09, CHR 0x0A, CHR 0x0C, CHR 0x0D}"
        "\<not> (of_char c :: nat) < 32"
    by blast
  then show ?thesis
  proof cases
    case ctl
    have "(of_char c :: nat) div 16 < 16" and "(of_char c :: nat) mod 16 < 16"
      using ctl(2) by simp_all
    moreover have "(of_char c :: nat) div 16 * 16 + of_char c mod 16 = of_char c" by simp
    ultimately show ?thesis
      using ctl
      by (simp add: esc_char_def Let_def hex4_def utf8_def quote_def bslash_def)
  next
    case plain
    then show ?thesis by (simp add: esc_char_def Let_def)
  qed (simp_all add: esc_char_def quote_def bslash_def unescape_def)
qed

lemma parse_str_show:
  "parse_str (concat (map esc_char t) @ quote # r) = Some (t, r)"
  by (induction t) (simp_all add: parse_str_esc)

subsection \<open>Numbers\<close>

lemma show_nat_lead: "show_nat n = ''0'' \<or> hd (show_nat n) \<noteq> CHR ''0''"
proof (induction n rule: show_nat.induct)
  case (1 n)
  show ?case
  proof (cases "n < 10")
    case True
    have "digit_char n = CHR ''0'' \<Longrightarrow> n = 0"
      using of_char_digit [OF True] by auto
    with True show ?thesis
      by (subst (1 2) show_nat.simps) (auto simp: digit_char_def)
  next
    case False
    then have "n div 10 \<noteq> 0" by simp
    moreover have "read_nat ''0'' = 0" by (simp add: read_nat_def digit_val_def)
    ultimately have "show_nat (n div 10) \<noteq> ''0''"
      by (metis read_show_nat)
    with "1.IH" [OF False] have "hd (show_nat (n div 10)) \<noteq> CHR ''0''" by simp
    with False show ?thesis by (subst (2) show_nat.simps) simp
  qed
qed

lemma show_int_chars: "c \<in> set (show_int i) \<Longrightarrow> num_char c"
  by (auto simp: show_int_def num_char_def dest: show_nat_digits split: if_splits)

lemma digit_not_minus: "is_digit c \<Longrightarrow> c \<noteq> CHR ''-''"
  by (auto simp: is_digit_def)

lemma show_nat_not_minus: "\<not> starts_with ''-'' (show_nat n)"
proof (cases "show_nat n")
  case (Cons c cs)
  then have "is_digit c" using show_nat_digits [of c n] by simp
  with Cons show ?thesis by (auto dest: digit_not_minus)
qed simp

lemma int_lexeme_show [simp]: "int_lexeme (show_int i)"
  using show_nat_lead show_nat_not_minus
  by (auto simp: int_lexeme_def show_int_def Let_def list_all_iff dest: show_nat_digits)

lemma read_int_show [simp]: "read_int (show_int i) = i"
  using show_nat_not_minus by (auto simp: read_int_def show_int_def)

lemma parse_num_show:
  assumes "val_end r"
  shows "parse_num (show_int i @ r) = Some (JNum i, r)"
proof -
  have "takeWhile num_char (show_int i @ r) = show_int i"
    and "dropWhile num_char (show_int i @ r) = r"
    using assms show_int_chars [of _ i]
    by (cases r; simp add: val_end_def takeWhile_append dropWhile_append)+
  then show ?thesis by (simp add: parse_num_def)
qed

subsection \<open>Values\<close>

fun need :: "json \<Rightarrow> nat" and needs :: "json list \<Rightarrow> nat"
  and needm :: "(string \<times> json) list \<Rightarrow> nat" where
  "need (JArr xs) = Suc (needs xs)"
| "need (JObj kvs) = Suc (needm kvs)"
| "need _ = 1"
| "needs [] = 0"
| "needs (x # xs) = Suc (need x + needs xs)"
| "needm [] = 0"
| "needm ((k, v) # kvs) = Suc (need v + needm kvs)"

lemma need_pos: "0 < need j"
  by (cases j) auto

definition val_start :: "char \<Rightarrow> bool" where
  "val_start c = (\<not> json_ws c \<and> c \<noteq> CHR '']'' \<and> c \<noteq> CHR 0x7D)"

lemma val_start_num: "num_char c \<Longrightarrow> val_start c"
  by (auto simp: val_start_def num_char_def json_ws_def is_digit_def)

lemma show_int_Cons: "\<exists>c cs. show_int i = c # cs \<and> num_char c"
  using show_int_chars [of _ i]
  by (cases "show_int i") (auto simp: show_int_def split: if_splits)

lemma show_json_start: "json_plain j \<Longrightarrow> \<exists>c cs. show_json pr d j = c # cs \<and> val_start c"
proof (cases j)
  case (JNum i)
  then show ?thesis using show_int_Cons [of i] val_start_num by auto
qed (auto simp: val_start_def json_ws_def show_str_def quote_def)

lemma show_elems_start:
  "json_plain x \<Longrightarrow> \<exists>c cs. show_elems pr d (x # xs) = c # cs \<and> val_start c"
  using show_json_start [of x pr d] by auto

lemma parse_val_num:
  assumes "val_end r"
  shows "parse_val (Suc n) (show_int i @ r) = Some (JNum i, r)"
proof -
  obtain c cs where c: "show_int i = c # cs" "num_char c"
    using show_int_Cons by blast
  have "c \<noteq> CHR 0x7B \<and> c \<noteq> CHR ''['' \<and> c \<noteq> quote \<and> c \<noteq> CHR ''n'' \<and> c \<noteq> CHR ''t'' \<and> c \<noteq> CHR ''f''"
    using c(2) by (auto simp: num_char_def quote_def is_digit_def)
  moreover have "\<not> json_ws c" using val_start_num [OF c(2)] by (simp add: val_start_def)
  ultimately show ?thesis
    using parse_num_show [OF assms, of i] c(1) by (auto simp: skip_ws_Cons)
qed

lemma update_new: "k \<notin> fst ` set kvs \<Longrightarrow> AList.update k v kvs = kvs @ [(k, v)]"
  by (induction kvs) auto

lemma parse_val_skip: "(\<forall>c \<in> set w. json_ws c) \<Longrightarrow> parse_val n (w @ s) = parse_val n s"
  by (cases n) (simp_all add: skip_ws_append)

lemma parse_show:
  "json_plain j \<Longrightarrow> val_end r \<Longrightarrow> need j \<le> n \<Longrightarrow>
     parse_val n (show_json pr d j @ r) = Some (j, r)"
  "xs \<noteq> [] \<Longrightarrow> \<forall>x \<in> set xs. json_plain x \<Longrightarrow> needs xs \<le> n \<Longrightarrow>
     parse_elems n (show_elems pr d xs @ brk pr e @ '']'' @ r) = Some (xs, r)"
  "kvs \<noteq> [] \<Longrightarrow> distinct (map fst (acc @ kvs)) \<Longrightarrow> \<forall>kv \<in> set kvs. json_plain (snd kv) \<Longrightarrow>
     needm kvs \<le> n \<Longrightarrow>
     parse_members n acc (show_members pr d kvs @ brk pr e @ CHR 0x7D # r) = Some (acc @ kvs, r)"
proof (induction pr d j and pr d xs and pr d kvs arbitrary: n r and n r e and n r e acc
    rule: show_json_show_elems_show_members.induct)
  case (1 pr d)
  then show ?case by (cases n) (auto simp: skip_ws_Cons json_ws_def quote_def)
next
  case (2 pr d b)
  then show ?case by (cases n; cases b) (auto simp: skip_ws_Cons json_ws_def quote_def)
next
  case (3 pr d i)
  then show ?case by (cases n) (auto simp del: parse_val.simps simp: parse_val_num)
next
  case (4 pr d s)
  then show ?case by simp
next
  case (5 pr d s)
  then show ?case
    by (cases n) (auto simp: skip_ws_Cons json_ws_def quote_def show_str_def parse_str_show [unfolded quote_def])
next
  case (6 pr d xs)
  then obtain m where m: "n = Suc m" by (cases n) auto
  show ?case
  proof (cases xs)
    case Nil
    with m show ?thesis by (simp add: skip_ws_Cons json_ws_def)
  next
    case (Cons x ys)
    with 6 obtain c cs where c: "show_elems pr (Suc d) xs = c # cs" "val_start c"
      using show_elems_start by (metis json_plain.simps(2) list.set_intros(1))
    have "parse_elems m (show_elems pr (Suc d) xs @ brk pr d @ '']'' @ r) = Some (xs, r)"
      using 6 m Cons by simp
    from this [unfolded c(1)] have "parse_elems m (c # cs @ brk pr d @ '']'' @ r) = Some (xs, r)"
      by simp
    moreover have "xs \<noteq> []" using Cons by simp
    ultimately show ?thesis
      using m c by (simp add: skip_ws_Cons val_start_def json_ws_def)
  qed
next
  case (7 pr d kvs)
  then obtain m where m: "n = Suc m" by (cases n) auto
  show ?case
  proof (cases kvs)
    case Nil
    with m show ?thesis by (simp add: skip_ws_Cons json_ws_def)
  next
    case (Cons kv ys)
    obtain c cs where c: "show_members pr (Suc d) kvs = c # cs" "c = quote"
      using Cons by (cases kv) (auto simp: show_str_def)
    have "parse_members m [] (show_members pr (Suc d) kvs @ brk pr d @ CHR 0x7D # r) = Some (kvs, r)"
      using 7 m Cons by simp
    from this [unfolded c(1)]
    have "parse_members m [] (c # cs @ brk pr d @ CHR 0x7D # r) = Some (kvs, r)"
      by simp
    moreover have "kvs \<noteq> []" using Cons by simp
    ultimately show ?thesis
      using m c by (simp add: skip_ws_Cons json_ws_def quote_def)
  qed
next
  case (8 pr d)
  then show ?case by simp
next
  case (9 pr d x xs)
  then obtain m where m: "n = Suc m" by (cases n) auto
  let ?rest = "(if xs = [] then [] else '','' @ brk pr d @ show_elems pr d xs) @ brk pr e @ '']'' @ r"
  have ve: "val_end ?rest" by (auto intro: val_end_brk)
  have v: "parse_val m (show_json pr d x @ ?rest) = Some (x, ?rest)"
    using 9 m ve by simp
  show ?case
  proof (cases "xs = []")
    case True
    with v m show ?thesis by (simp add: skip_ws_Cons json_ws_def)
  next
    case False
    let ?s = "show_elems pr d xs @ brk pr e @ '']'' @ r"
    have ih: "parse_elems m ?s = Some (xs, r)"
      using 9 m False by simp
    obtain y ys where "xs = y # ys" using False by (cases xs) auto
    with 9 obtain c cs where c: "show_elems pr d xs = c # cs" "val_start c"
      using show_elems_start [of y pr d ys] by auto
    have "parse_elems m (brk pr d @ ?s) = parse_elems m ?s"
    proof (cases m)
      case (Suc k)
      have "parse_val k (brk pr d @ ?s) = parse_val k ?s"
        by (rule parse_val_skip) (use brk_ws in blast)
      with Suc show ?thesis by simp
    qed simp
    with v m ih False show ?thesis by (simp add: skip_ws_Cons json_ws_def)
  qed
next
  case (10 pr d)
  then show ?case by simp
next
  case (11 pr d k v kvs)
  then obtain m where m: "n = Suc m" by (cases n) auto
  let ?rest = "(if kvs = [] then [] else '','' @ brk pr d @ show_members pr d kvs)
     @ brk pr e @ CHR 0x7D # r"
  have ve: "val_end ?rest" by (auto intro: val_end_brk)
  have v: "parse_val m (show_json pr d v @ ?rest) = Some (v, ?rest)"
    using 11 m ve by simp
  have vs: "parse_val m ((if pr then '' '' else []) @ show_json pr d v @ ?rest) = Some (v, ?rest)"
    using v parse_val_skip [of "if pr then '' '' else []" m] by (auto simp: json_ws_def)
  have new: "AList.update k v acc = acc @ [(k, v)]"
    using 11 by (intro update_new) auto
  show ?case
  proof (cases "kvs = []")
    case True
    with vs m new show ?thesis
      by (simp add: skip_ws_Cons json_ws_def show_str_def quote_def parse_str_show [unfolded quote_def])
  next
    case False
    let ?s = "show_members pr d kvs @ brk pr e @ CHR 0x7D # r"
    have ih: "parse_members m (acc @ [(k, v)]) ?s = Some ((acc @ [(k, v)]) @ kvs, r)"
      using 11 m False by simp
    have "parse_members m a (brk pr d @ ?s) = parse_members m a ?s" for a
      by (cases m) simp_all
    with vs m ih new False show ?thesis
      by (simp add: skip_ws_Cons json_ws_def show_str_def quote_def parse_str_show [unfolded quote_def])
  qed
qed

subsection \<open>Enough fuel, and the round trips\<close>

lemma need_length:
  "json_plain j \<Longrightarrow> need j \<le> length (show_json pr d j)"
  "\<forall>x \<in> set xs. json_plain x \<Longrightarrow> needs xs \<le> Suc (length (show_elems pr d xs))"
  "\<forall>kv \<in> set kvs. json_plain (snd kv) \<Longrightarrow> needm kvs \<le> length (show_members pr d kvs)"
proof (induction pr d j and pr d xs and pr d kvs rule: show_json_show_elems_show_members.induct)
  case (3 pr d i)
  then show ?case using show_int_Cons [of i] by (auto simp: Suc_le_eq)
next
  case (9 pr d x xs)
  then show ?case by (cases xs) auto
next
  case (11 pr d k v kvs)
  then show ?case by (cases kvs) (auto simp: show_str_def)
qed (auto simp: show_str_def)

lemma json_parse_show:
  assumes "json_plain j" and "\<forall>c \<in> set w. json_ws c"
  shows "json_parse (show_json pr d j @ w) = Some j"
proof -
  have "val_end w" using assms(2) num_char_ws by (cases w) (auto simp: val_end_def)
  moreover have "need j \<le> 2 * length (show_json pr d j @ w) + 2"
    using need_length(1) [OF assms(1), of pr d] by simp
  ultimately have "parse_val (2 * length (show_json pr d j @ w) + 2) (show_json pr d j @ w) = Some (j, w)"
    using assms(1) by (intro parse_show(1))
  then show ?thesis using assms(2) by (simp add: json_parse_def skip_ws_all)
qed

lemma json_parse_stringify [simp]: "json_plain j \<Longrightarrow> json_parse (json_stringify j) = Some j"
  using json_parse_show [of j "[]" False 0] by (simp add: json_stringify_def)

lemma json_parse_pretty [simp]: "json_plain j \<Longrightarrow> json_parse (json_pretty j) = Some j"
  using json_parse_show [of j "[]" True 0] by (simp add: json_pretty_def)

lemma json_parse_pretty_nl [simp]: "json_plain j \<Longrightarrow> json_parse (json_pretty j @ [nl]) = Some j"
  using json_parse_show [of j "[nl]" True 0] by (simp add: json_pretty_def nl_def json_ws_def)

lemma json_stringify_inj:
  "json_plain a \<Longrightarrow> json_plain b \<Longrightarrow> json_stringify a = json_stringify b \<Longrightarrow> a = b"
  using json_parse_stringify by (metis option.inject)

subsection \<open>One record is one line\<close>

lemma hex_digit_not_nl: "n < 16 \<Longrightarrow> hex_digit n \<noteq> nl"
proof
  assume n: "n < 16" and "hex_digit n = nl"
  then have "(of_char (hex_digit n) :: nat) = 10" by (simp add: nl_def)
  with n show False by (auto simp: hex_digit_def split: if_splits)
qed

lemma nl_not_esc: "nl \<notin> set (esc_char c)"
proof -
  let ?n = "of_char c :: nat"
  have "?n < 32 \<Longrightarrow> nl \<noteq> hex_digit (?n div 16) \<and> nl \<noteq> hex_digit (?n mod 16)"
  proof -
    assume lt: "?n < 32"
    then have "?n div 16 < 16" and "?n mod 16 < 16" by simp_all
    then show ?thesis using hex_digit_not_nl by metis
  qed
  then show ?thesis
    by (auto simp: esc_char_def Let_def nl_def quote_def bslash_def)
qed

lemma nl_not_show_str: "nl \<notin> set (show_str t)"
  using nl_not_esc by (auto simp: show_str_def nl_def quote_def)

lemma nl_not_show_int: "nl \<notin> set (show_int i)"
  using show_int_chars [of nl i] by (auto simp: nl_def num_char_def is_digit_def)

lemma nl_not_show:
  "json_plain j \<Longrightarrow> nl \<notin> set (show_json False d j)"
  "\<forall>x \<in> set xs. json_plain x \<Longrightarrow> nl \<notin> set (show_elems False d xs)"
  "\<forall>kv \<in> set kvs. json_plain (snd kv) \<Longrightarrow> nl \<notin> set (show_members False d kvs)"
proof (induction False d j and False d xs and False d kvs
    rule: show_json_show_elems_show_members.induct)
  case (3 d i)
  then show ?case by (simp add: nl_not_show_int)
next
  case (5 d t)
  then show ?case by (simp add: nl_not_show_str)
next
  case (11 d k v kvs)
  then show ?case using nl_not_show_str by (auto simp: brk_def nl_def)
qed (auto simp: brk_def nl_def)

lemma stringify_one_line: "json_plain j \<Longrightarrow> nl \<notin> set (json_stringify j)"
  by (simp add: json_stringify_def nl_not_show(1))

end
