(* ===== verification/Paths.thy ===== *)
theory Paths
  imports Prelude
begin

text \<open>
  The POSIX part of node:path (normalize, join, basename, dirname, isAbsolute) on strings, and
  the abstract view of a clean absolute path as its list of segments. The lemmas say that on
  clean paths the string operations are the list operations; the policy and surface theories
  rest on them.
\<close>

definition sep :: char where
  "sep = CHR ''/''"

definition dot :: string where
  "dot = ''.''"

definition dotdot :: string where
  "dotdot = ''..''"

definition is_absolute :: "string \<Rightarrow> bool" where
  "is_absolute p = starts_with ''/'' p"

fun norm_segs :: "bool \<Rightarrow> string list \<Rightarrow> string list \<Rightarrow> string list" where
  "norm_segs up acc [] = rev acc"
| "norm_segs up acc (s # ss) =
     (if s = [] \<or> s = dot then norm_segs up acc ss
      else if s = dotdot then
        (case acc of
           [] \<Rightarrow> norm_segs up (if up then [dotdot] else []) ss
         | a # as \<Rightarrow> if a = dotdot then norm_segs up (dotdot # acc) ss else norm_segs up as ss)
      else norm_segs up (s # acc) ss)"

definition normalize :: "string \<Rightarrow> string" where
  "normalize p =
     (if p = [] then dot
      else
        (let absp = is_absolute p;
             body = join_with [sep] (norm_segs (\<not> absp) [] (split_on sep p));
             trail = ends_with [sep] p
         in if body = [] then (if absp then [sep] else if trail then dot @ [sep] else dot)
            else (if absp then [sep] else []) @ body @ (if trail then [sep] else [])))"

definition path_join :: "string list \<Rightarrow> string" where
  "path_join ps =
     (let qs = filter (\<lambda>p. p \<noteq> []) ps
      in if qs = [] then dot else normalize (join_with [sep] qs))"

definition strip_seps :: "string \<Rightarrow> string" where
  "strip_seps p = rev (dropWhile (\<lambda>c. c = sep) (rev p))"

definition basename :: "string \<Rightarrow> string" where
  "basename p = last (split_on sep (strip_seps p))"

definition basename_ext :: "string \<Rightarrow> string \<Rightarrow> string" where
  "basename_ext p ext =
     (let b = basename p
      in if p = ext then []
         else if ext \<noteq> [] \<and> b \<noteq> ext \<and> ends_with ext b then take (length b - length ext) b
         else b)"

definition dirname :: "string \<Rightarrow> string" where
  "dirname p =
     (let r = rev (dropWhile (\<lambda>c. c \<noteq> sep) (rev (strip_seps p)))
      in if r = [] then (if is_absolute p then [sep] else dot)
         else if r = [sep] then [sep]
         else if r = [sep, sep] then [sep, sep]
         else butlast r)"

subsection \<open>Clean absolute paths as segment lists\<close>

definition valid_seg :: "string \<Rightarrow> bool" where
  "valid_seg s = (s \<noteq> [] \<and> sep \<notin> set s \<and> s \<noteq> dot \<and> s \<noteq> dotdot)"

fun abs_path :: "string list \<Rightarrow> string" where
  "abs_path [] = []"
| "abs_path (s # ss) = sep # s @ abs_path ss"

lemma abs_path_append [simp]: "abs_path (P @ Q) = abs_path P @ abs_path Q"
  by (induction P) auto

lemma abs_path_join: "abs_path segs = join_with [sep] ([] # segs)"
proof (induction segs)
  case (Cons s ss)
  then show ?case by (cases ss) auto
qed simp

lemma split_abs_path:
  assumes "\<forall>s \<in> set segs. valid_seg s"
  shows "split_on sep (abs_path segs) = [] # segs"
  unfolding abs_path_join
  by (rule split_join_with) (use assms in \<open>auto simp: valid_seg_def\<close>)

lemma abs_path_inj:
  assumes "\<forall>s \<in> set P. valid_seg s" and "\<forall>s \<in> set Q. valid_seg s" and "abs_path P = abs_path Q"
  shows "P = Q"
  using split_abs_path [OF assms(1)] split_abs_path [OF assms(2)] assms(3)
  by (metis list.inject)

lemma norm_segs_valid:
  "\<forall>s \<in> set segs. valid_seg s \<Longrightarrow> norm_segs b acc segs = rev acc @ segs"
  by (induction segs arbitrary: acc) (auto simp: valid_seg_def)

lemma abs_path_no_trail:
  assumes "\<forall>s \<in> set segs. valid_seg s" and "segs \<noteq> []"
  shows "\<not> ends_with [sep] (abs_path segs)"
proof
  assume "ends_with [sep] (abs_path segs)"
  moreover obtain xs x where x: "segs = xs @ [x]" using assms(2) by (cases segs rule: rev_cases) auto
  moreover have "x \<noteq> []" "sep \<notin> set x" using assms(1) x by (auto simp: valid_seg_def)
  ultimately show False
    by (cases x rule: rev_cases) (auto simp: ends_with_iff)
qed

lemma join_with_not_Nil: "ws \<noteq> [] \<Longrightarrow> \<forall>w \<in> set ws. w \<noteq> [] \<Longrightarrow> join_with d ws \<noteq> []"
  by (induction d ws rule: join_with.induct) auto

lemma is_absolute_abs_path [simp]: "segs \<noteq> [] \<Longrightarrow> is_absolute (abs_path segs)"
  by (cases segs) (auto simp: is_absolute_def sep_def)

lemma sep_join: "segs \<noteq> [] \<Longrightarrow> sep # join_with [sep] segs = abs_path segs"
  by (cases segs) (auto simp: abs_path_join)

lemma normalize_abs_path:
  assumes "\<forall>s \<in> set segs. valid_seg s" and "segs \<noteq> []"
  shows "normalize (abs_path segs) = abs_path segs"
proof -
  have "abs_path segs \<noteq> []" using assms(2) by (cases segs) auto
  moreover have "norm_segs False [] (split_on sep (abs_path segs)) = segs"
    using assms(1) by (simp add: split_abs_path norm_segs_valid)
  moreover have "join_with [sep] segs \<noteq> []"
    using assms by (intro join_with_not_Nil) (auto simp: valid_seg_def)
  ultimately show ?thesis
    using assms abs_path_no_trail [OF assms] sep_join [OF assms(2)]
    by (simp add: normalize_def Let_def)
qed

lemma split_on_snoc: "split_on d (w @ [d]) = split_on d w @ [[]]"
  by (induction w) (auto split: list.splits)

lemma append_sep_inj:
  "d \<notin> set p \<Longrightarrow> d \<notin> set q \<Longrightarrow> p @ d # x = q @ d # y \<Longrightarrow> p = q \<and> x = y"
proof (induction p arbitrary: q)
  case Nil
  then show ?case by (cases q) auto
next
  case (Cons c p)
  then show ?case by (cases q) auto
qed

lemma normalize_abs_trail:
  assumes "\<forall>s \<in> set segs. valid_seg s" and "segs \<noteq> []"
  shows "normalize (abs_path segs @ [sep]) = abs_path segs @ [sep]"
proof -
  have sp: "split_on sep (abs_path segs @ [sep]) = ([] # segs) @ [[]]"
    using assms(1) by (simp add: split_on_snoc split_abs_path)
  have ns: "norm_segs False [] (([] # segs) @ [[]]) = segs"
  proof -
    have "norm_segs False acc (segs @ [[]]) = rev acc @ segs" for acc
      using assms(1) by (induction segs arbitrary: acc) (auto simp: valid_seg_def)
    then show ?thesis by simp
  qed
  have "is_absolute (abs_path segs @ [sep])"
    using assms(2) by (cases segs) (auto simp: is_absolute_def sep_def)
  moreover have "join_with [sep] segs \<noteq> []"
    using assms by (intro join_with_not_Nil) (auto simp: valid_seg_def)
  moreover have "abs_path segs @ [sep] \<noteq> []" by simp
  ultimately show ?thesis
    using ns sep_join [OF assms(2)]
    unfolding normalize_def Let_def sp by (simp del: split_on.simps)
qed

lemma abs_path_prefix:
  assumes "\<forall>s \<in> set P. valid_seg s" and "\<forall>s \<in> set Q. valid_seg s"
  shows "abs_path Q = abs_path P \<or> starts_with (abs_path P @ [sep]) (abs_path Q) \<longleftrightarrow> prefix P Q"
proof
  assume "abs_path Q = abs_path P \<or> starts_with (abs_path P @ [sep]) (abs_path Q)"
  then show "prefix P Q"
  proof
    assume "abs_path Q = abs_path P"
    then show ?thesis using abs_path_inj [OF assms(2,1)] by simp
  next
    assume "starts_with (abs_path P @ [sep]) (abs_path Q)"
    then show ?thesis using assms
    proof (induction P arbitrary: Q)
      case Nil
      then show ?case by simp
    next
      case (Cons p P)
      then obtain q Q' where Q: "Q = q # Q'" by (cases Q) auto
      from Cons.prems(1) Q obtain t where t: "p @ abs_path P @ sep # t = q @ abs_path Q'"
        by (auto simp: starts_with_iff)
      have np: "sep \<notin> set p" "sep \<notin> set q" using Cons.prems Q by (auto simp: valid_seg_def)
      obtain x where x: "abs_path P @ sep # t = sep # x"
        by (cases P) auto
      have "abs_path Q' \<noteq> []"
      proof
        assume "abs_path Q' = []"
        with t x have "p @ sep # x = q" by simp
        with np show False by auto
      qed
      then obtain y where y: "abs_path Q' = sep # y" by (cases Q') auto
      have "p = q" using append_sep_inj [OF np] t x y by simp
      with t have "abs_path Q' = (abs_path P @ [sep]) @ t" by simp
      then have "starts_with (abs_path P @ [sep]) (abs_path Q')"
        unfolding starts_with_iff by blast
      with Cons.IH [of Q'] Cons.prems Q \<open>p = q\<close> show ?case by simp
    qed
  qed
next
  assume "prefix P Q"
  then obtain R where "Q = P @ R" by (auto simp: prefix_def)
  then show "abs_path Q = abs_path P \<or> starts_with (abs_path P @ [sep]) (abs_path Q)"
    by (cases R) (auto simp: starts_with_iff)
qed

subsection \<open>Last segment and parent\<close>

lemma strip_seps_abs:
  assumes "valid_seg s"
  shows "strip_seps (abs_path (P @ [s])) = abs_path (P @ [s])"
proof -
  obtain xs x where "s = xs @ [x]" "x \<noteq> sep"
    using assms by (cases s rule: rev_cases) (auto simp: valid_seg_def)
  then show ?thesis by (simp add: strip_seps_def)
qed

lemma basename_abs_path:
  assumes "\<forall>x \<in> set (P @ [s]). valid_seg x"
  shows "basename (abs_path (P @ [s])) = s"
proof -
  have "valid_seg s" using assms by simp
  then show ?thesis
    using split_abs_path [OF assms] strip_seps_abs [of s P]
    by (simp add: basename_def del: abs_path_append)
qed

lemma dirname_abs_path:
  assumes "\<forall>x \<in> set (P @ [s]). valid_seg x" and "P \<noteq> []"
  shows "dirname (abs_path (P @ [s])) = abs_path P"
proof -
  have s: "valid_seg s" "sep \<notin> set s" using assms(1) by (auto simp: valid_seg_def)
  have "dropWhile (\<lambda>c. c \<noteq> sep) (rev (abs_path P @ sep # s)) = sep # rev (abs_path P)"
    using s(2) by (simp add: dropWhile_append)
  then have "rev (dropWhile (\<lambda>c. c \<noteq> sep) (rev (strip_seps (abs_path (P @ [s]))))) = abs_path P @ [sep]"
    using strip_seps_abs [OF s(1), of P] by simp
  moreover obtain p P' where P: "P = p # P'" using assms(2) by (cases P) auto
  moreover have "p \<noteq> []" "sep \<notin> set p" using assms(1) P by (auto simp: valid_seg_def)
  ultimately show ?thesis by (cases p) (auto simp: dirname_def Let_def butlast_append)
qed

lemma path_join_abs:
  assumes "\<forall>x \<in> set (P @ [s]). valid_seg x" and "P \<noteq> []"
  shows "path_join [abs_path P, s] = abs_path (P @ [s])"
proof -
  have "abs_path P \<noteq> []" "s \<noteq> []" using assms by (cases P; auto simp: valid_seg_def)+
  then have "path_join [abs_path P, s] = normalize (abs_path P @ sep # s)"
    by (simp add: path_join_def Let_def)
  also have "abs_path P @ sep # s = abs_path (P @ [s])" by simp
  finally show ?thesis using normalize_abs_path [OF assms(1)] by simp
qed

lemma norm_segs_append:
  "\<forall>s \<in> set xs. valid_seg s \<Longrightarrow> norm_segs b acc (xs @ ys) = norm_segs b (rev xs @ acc) ys"
  by (induction xs arbitrary: acc) (auto simp: valid_seg_def)

lemma path_join_up2:
  assumes "\<forall>x \<in> set (P @ [a, b]). valid_seg x" and "P \<noteq> []"
  shows "path_join [abs_path (P @ [a, b]), ''..'', ''..''] = abs_path P"
proof -
  let ?segs = "P @ [a, b, dotdot, dotdot]"
  have ne: "abs_path P \<noteq> []" using assms(2) by (cases P) auto
  have "path_join [abs_path (P @ [a, b]), ''..'', ''..''] = normalize (abs_path ?segs)"
    using ne by (simp add: path_join_def Let_def dotdot_def)
  moreover have "split_on sep (abs_path ?segs) = [] # ?segs"
    unfolding abs_path_join
    by (rule split_join_with) (use assms in \<open>auto simp: valid_seg_def dotdot_def sep_def\<close>)
  moreover have "norm_segs False [] ([] # ?segs) = P"
  proof -
    have "norm_segs False [] ?segs = norm_segs False (rev P) [a, b, dotdot, dotdot]"
      using assms by (subst norm_segs_append) auto
    also have "\<dots> = P"
      using assms by (auto simp: valid_seg_def dotdot_def dot_def)
    finally show ?thesis by simp
  qed
  moreover have "\<not> ends_with [sep] (abs_path ?segs)"
    by (auto simp: ends_with_iff dotdot_def sep_def dest!: arg_cong [where f = rev])
  moreover have "join_with [sep] P \<noteq> []"
    using assms by (intro join_with_not_Nil) (auto simp: valid_seg_def)
  ultimately show ?thesis
    using ne sep_join [OF assms(2)] by (simp add: normalize_def Let_def is_absolute_abs_path [OF assms(2)] del: norm_segs.simps)
      (use assms(2) in \<open>cases P; simp add: is_absolute_def sep_def\<close>)
qed

definition clean_home :: "string \<Rightarrow> string list \<Rightarrow> bool" where
  \<comment> \<open>h is the clean absolute path with segments H\<close>
  "clean_home h H = (H \<noteq> [] \<and> (\<forall>s \<in> set H. valid_seg s) \<and> h = abs_path H)"

lemma clean_home_join:
  "clean_home h H \<Longrightarrow> valid_seg s \<Longrightarrow> clean_home (path_join [h, s]) (H @ [s])"
  by (auto simp: clean_home_def path_join_abs)

lemma join_with_abs: "join_with [sep] (abs_path P # ss) = abs_path P @ abs_path ss"
  by (cases ss) (simp_all add: abs_path_join)

lemma path_join_abs_list:
  assumes "\<forall>x \<in> set (P @ ss). valid_seg x" and "P \<noteq> []"
  shows "path_join (abs_path P # ss) = abs_path (P @ ss)"
proof -
  have ne: "abs_path P \<noteq> []" using assms(2) by (cases P) auto
  have "filter (\<lambda>p. p \<noteq> []) (abs_path P # ss) = abs_path P # ss"
    using assms ne by (auto simp: valid_seg_def filter_id_conv)
  then have "path_join (abs_path P # ss) = normalize (abs_path (P @ ss))"
    by (simp add: path_join_def Let_def join_with_abs)
  then show ?thesis using assms normalize_abs_path [of "P @ ss"] by (simp del: abs_path_append)
qed

lemma dirname_root [simp]: "dirname [sep] = [sep]"
  by (simp add: dirname_def strip_seps_def is_absolute_def sep_def)

lemma dirname_single:
  assumes "valid_seg s"
  shows "dirname (abs_path [s]) = [sep]"
proof -
  have "dropWhile (\<lambda>c. c \<noteq> sep) (rev (sep # s)) = [sep]"
    using assms by (simp add: valid_seg_def dropWhile_append)
  then show ?thesis using strip_seps_abs [OF assms, of "[]"] by (simp add: dirname_def)
qed

end
