(* ===== verification/Contracts.thy ===== *)
theory Contracts
  imports Prelude
begin

text \<open>
  The contract object factories (scripts/lib/contracts.mjs): the closed vocabularies of the
  report schema as datatypes, each plain object as a record, each factory as a function from an
  options record whose absent members are None (or the empty string, which is falsy).
\<close>

subsection \<open>Vocabularies\<close>

datatype stance = Inform | Watch | Review | Probe | Protect | Prepare | Repair | Block

datatype surface_class =
    SurfUnknown | HousekeeperOwnedSurf | SecretAdjacentSurf | ExecutableSurface
  | ClaudeAppData | AuthoredConfig | ExternalReference

datatype owner_class = OwnerUnknown | HousekeeperOwned | UserOwned | ClaudeManaged

datatype load_class = LoadUnknown | NotLoadBearing | KnownLoadBearing | PossiblyLoadBearing

datatype sens_class = SensUnknown | PrivatePath | SecretContent | SecretAdjacent

datatype exec_class = ExecUnknown | Inert | RunsHook | StartsMcp | ShellExpansionRisk | KnownExecutionContext

datatype rollback_class =
    RollbackUnknown | ManifestBacked | SnapshotPossible | CheckpointOnly | NotApplicable

datatype scope_class =
    ScopeUnknown | InScope | ProtectedScope | OutOfScope | SectorBoundary | ParentContainsBoundary

datatype confidence = Low | Medium | High

datatype finding_class =
    Integrity | Hygiene | Shadow | Divergence | Orientation | Contamination

datatype claim_level = ClaimFinding | ClaimObservation

datatype mode = Diagnose | Safe | Plan

definition STANCE_KEYS :: "stance list" where
  "STANCE_KEYS = [Inform, Watch, Review, Probe, Protect, Prepare, Repair, Block]"

definition SCHEMA_VERSION :: string where
  "SCHEMA_VERSION = ''0.1''"

subsection \<open>SurfaceClassification\<close>

record surface =
  surfaceClass :: surface_class
  ownerClass :: owner_class
  loadBearingClass :: load_class
  sensitivityClass :: sens_class
  executionClass :: exec_class
  rollbackClass :: rollback_class
  scopeClass :: scope_class
  confidenceOf :: confidence
  limits :: "string list"

record surface_opts =
  o_surface :: "surface_class option"
  o_owner :: "owner_class option"
  o_load :: "load_class option"
  o_sens :: "sens_class option"
  o_exec :: "exec_class option"
  o_rollback :: "rollback_class option"
  o_scope :: "scope_class option"
  o_confidence :: "confidence option"
  o_limits :: "string list option"

definition no_surface_opts :: surface_opts where
  "no_surface_opts = \<lparr>o_surface = None, o_owner = None, o_load = None, o_sens = None,
     o_exec = None, o_rollback = None, o_scope = None, o_confidence = None, o_limits = None\<rparr>"

definition makeSurfaceClassification :: "surface_opts \<Rightarrow> surface" where
  "makeSurfaceClassification opts =
     \<lparr>surfaceClass = opt_or (o_surface opts) SurfUnknown,
      ownerClass = opt_or (o_owner opts) OwnerUnknown,
      loadBearingClass = opt_or (o_load opts) LoadUnknown,
      sensitivityClass = opt_or (o_sens opts) SensUnknown,
      executionClass = opt_or (o_exec opts) ExecUnknown,
      rollbackClass = opt_or (o_rollback opts) RollbackUnknown,
      scopeClass = opt_or (o_scope opts) ScopeUnknown,
      confidenceOf = opt_or (o_confidence opts) Medium,
      limits = opt_or (o_limits opts) []\<rparr>"

definition surface_lit ::
  "surface_class \<Rightarrow> owner_class \<Rightarrow> load_class \<Rightarrow> sens_class \<Rightarrow> exec_class \<Rightarrow> rollback_class
   \<Rightarrow> scope_class \<Rightarrow> confidence \<Rightarrow> surface" where
  \<comment> \<open>makeSurfaceClassification of an object literal with all eight classes given\<close>
  "surface_lit sc oc lc se ec rc sp co =
     makeSurfaceClassification
       \<lparr>o_surface = Some sc, o_owner = Some oc, o_load = Some lc, o_sens = Some se,
        o_exec = Some ec, o_rollback = Some rc, o_scope = Some sp, o_confidence = Some co,
        o_limits = None\<rparr>"

lemma surface_lit_simps [simp]:
  "surfaceClass (surface_lit sc oc lc se ec rc sp co) = sc"
  "ownerClass (surface_lit sc oc lc se ec rc sp co) = oc"
  "loadBearingClass (surface_lit sc oc lc se ec rc sp co) = lc"
  "sensitivityClass (surface_lit sc oc lc se ec rc sp co) = se"
  "executionClass (surface_lit sc oc lc se ec rc sp co) = ec"
  "rollbackClass (surface_lit sc oc lc se ec rc sp co) = rc"
  "scopeClass (surface_lit sc oc lc se ec rc sp co) = sp"
  "confidenceOf (surface_lit sc oc lc se ec rc sp co) = co"
  "limits (surface_lit sc oc lc se ec rc sp co) = []"
  by (simp_all add: surface_lit_def makeSurfaceClassification_def)

subsection \<open>EvidenceSet\<close>

record evidence =
  structural :: "string list"
  loader :: "string list"
  behavioral :: "string list"
  ownership :: "string list"
  freshness :: "string list"
  reversibility :: "string list"
  missing :: "string list"

definition no_evidence :: evidence where
  "no_evidence = \<lparr>structural = [], loader = [], behavioral = [], ownership = [],
     freshness = [], reversibility = [], missing = []\<rparr>"

definition makeEvidenceSet ::
  "string list option \<Rightarrow> string list option \<Rightarrow> string list option \<Rightarrow> string list option
   \<Rightarrow> string list option \<Rightarrow> string list option \<Rightarrow> string list option \<Rightarrow> evidence" where
  "makeEvidenceSet st lo be ow fr re mi =
     \<lparr>structural = opt_or st [], loader = opt_or lo [], behavioral = opt_or be [],
      ownership = opt_or ow [], freshness = opt_or fr [], reversibility = opt_or re [],
      missing = opt_or mi []\<rparr>"

subsection \<open>Stance payload and policy match\<close>

record stance_payload =
  p_stance :: stance
  p_why :: string
  p_missingKey :: "string option"
  p_nextAllowedStep :: string
  p_notAllowed :: string
  p_userDecisionNeeded :: bool

definition makeStance ::
  "stance option \<Rightarrow> string \<Rightarrow> string option \<Rightarrow> string \<Rightarrow> string \<Rightarrow> bool \<Rightarrow> stance_payload" where
  "makeStance st why mk step na udn =
     \<lparr>p_stance = opt_or st Inform, p_why = why,
      p_missingKey = (case mk of None \<Rightarrow> None | Some k \<Rightarrow> if k = [] then None else Some k),
      p_nextAllowedStep = str_or step ''none'', p_notAllowed = na, p_userDecisionNeeded = udn\<rparr>"

lemma p_stance_makeStance [simp]: "p_stance (makeStance (Some st) w mk step na u) = st"
  by (simp add: makeStance_def)

datatype policy_type = DoNotTouch | Allowance | StandingConsent

record policy_match =
  pm_type :: policy_type
  pm_pattern :: string
  pm_path :: string
  pm_reason :: string
  pm_scope :: string
  pm_effect :: string

definition makePolicyMatch ::
  "policy_type option \<Rightarrow> string \<Rightarrow> string \<Rightarrow> string \<Rightarrow> string \<Rightarrow> string \<Rightarrow> policy_match" where
  "makePolicyMatch ty pat pth reason scope eff =
     \<lparr>pm_type = opt_or ty DoNotTouch, pm_pattern = pat, pm_path = pth, pm_reason = reason,
      pm_scope = str_or scope ''user'', pm_effect = str_or eff ''stance protect, action none''\<rparr>"

subsection \<open>Finding and Report\<close>

record finding =
  f_id :: string
  f_class :: finding_class
  f_claimLevel :: claim_level
  f_stance :: stance
  f_summary :: string
  f_surface :: surface
  f_evidence :: evidence
  f_nextAllowedStep :: string
  f_blockedActions :: "string list"
  \<comment> \<open>members buildFinding adds after the factory\<close>
  f_why :: string
  f_missingKey :: "string option"
  f_notAllowed :: string
  f_userDecisionNeeded :: bool
  f_targetPath :: string
  f_policyMatches :: "policy_match list"
  f_proposedProbe :: "string option"
  f_hardenable :: bool
  f_cleanable :: bool
  f_historyAvailable :: "bool option"
  f_falsePositiveSeen :: "nat option"

definition makeFinding ::
  "string \<Rightarrow> finding_class option \<Rightarrow> claim_level option \<Rightarrow> stance option \<Rightarrow> string
   \<Rightarrow> surface option \<Rightarrow> evidence option \<Rightarrow> string \<Rightarrow> string list option \<Rightarrow> finding" where
  "makeFinding i cl lv st su sf ev step ba =
     \<lparr>f_id = i, f_class = opt_or cl Integrity, f_claimLevel = opt_or lv ClaimFinding,
      f_stance = opt_or st Inform, f_summary = su,
      f_surface = opt_or sf (makeSurfaceClassification no_surface_opts),
      f_evidence = opt_or ev no_evidence,
      f_nextAllowedStep = str_or step ''none'', f_blockedActions = opt_or ba [],
      f_why = [], f_missingKey = None, f_notAllowed = [], f_userDecisionNeeded = False,
      f_targetPath = [], f_policyMatches = [], f_proposedProbe = None, f_hardenable = False,
      f_cleanable = False, f_historyAvailable = None, f_falsePositiveSeen = None\<rparr>"

definition emptyStanceSummary :: "stance \<Rightarrow> nat" where
  "emptyStanceSummary = (\<lambda>key. 0)"

record boundary =
  b_type :: string
  b_path :: string
  b_reason :: string
  b_findingId :: string

record degraded_entry =
  d_reason :: string
  d_path :: string
  d_budget :: "string option"
  d_effect :: "string option"
  d_nextStep :: "string option"

record report =
  r_schemaVersion :: string
  r_mode :: mode
  r_home :: string
  r_generatedAt :: string
  r_filesChanged :: bool
  r_primary :: "string option"
  r_stanceSummary :: "stance \<Rightarrow> nat"
  r_findings :: "finding list"
  r_boundaries :: "boundary list"
  r_degraded :: "degraded_entry list"

definition makeReport ::
  "string \<Rightarrow> mode option \<Rightarrow> string \<Rightarrow> string \<Rightarrow> string option \<Rightarrow> (stance \<Rightarrow> nat) option
   \<Rightarrow> finding list option \<Rightarrow> boundary list option \<Rightarrow> degraded_entry list option \<Rightarrow> report" where
  "makeReport sv m h at pr ss fs bs ds =
     \<lparr>r_schemaVersion = str_or sv SCHEMA_VERSION, r_mode = opt_or m Diagnose, r_home = h,
      r_generatedAt = str_or at ''1970-01-01T00:00:00.000Z'', r_filesChanged = False,
      r_primary = (case pr of None \<Rightarrow> None | Some p \<Rightarrow> if p = [] then None else Some p),
      r_stanceSummary = opt_or ss emptyStanceSummary,
      r_findings = opt_or fs [], r_boundaries = opt_or bs [], r_degraded = opt_or ds []\<rparr>"

subsection \<open>ScanLimit\<close>

record scan_limit =
  maxFiles :: int
  maxBytes :: int
  maxWallMs :: int

definition makeScanLimit :: "int option \<Rightarrow> int option \<Rightarrow> int option \<Rightarrow> scan_limit" where
  "makeScanLimit mf mb mw =
     \<lparr>maxFiles = opt_or mf 5000, maxBytes = opt_or mb (1024 * 1024), maxWallMs = opt_or mw 5000\<rparr>"

end
