(* ===== verification/Stance.thy ===== *)
theory Stance
  imports Contracts Prelude
begin

text \<open>
  The stance engine (scripts/lib/stance.mjs): a first-match decision list from the surface
  classification, the evidence, the missing keys, the policy matches and the mode to one
  stance payload. The lemmas show which stances can come out at all, what an action-preparing
  stance proves about the surface, that the hard overrides win over everything below them, and
  that the engine refines the short decision order the documentation states.
\<close>

record stance_args =
  a_surface :: "surface option"
  a_freshness :: "string list option"
  a_conflicting :: bool
  a_missingKeys :: "string list"
  a_matches :: "policy_match list"
  a_mode :: "mode option"
  a_findingClass :: "finding_class option"
  a_consentGranted :: bool

definition no_args :: stance_args where
  "no_args = \<lparr>a_surface = None, a_freshness = None, a_conflicting = False, a_missingKeys = [],
     a_matches = [], a_mode = None, a_findingClass = None, a_consentGranted = False\<rparr>"

definition has :: "('a \<Rightarrow> bool) \<Rightarrow> 'a option \<Rightarrow> bool" where
  \<comment> \<open>a member test on an object that may be {}: an absent member equals no class\<close>
  "has q x = (case x of None \<Rightarrow> False | Some y \<Rightarrow> q y)"

lemma has_simps [simp]: "has q None = False" "has q (Some y) = q y"
  by (simp_all add: has_def)

definition decideStanceCore :: "stance_args \<Rightarrow> stance_payload" where
  "decideStanceCore args =
     (let s = a_surface args; mk = a_missingKeys args; m = opt_or (a_mode args) Diagnose in
      case find (\<lambda>m. pm_type m = DoNotTouch) (a_matches args) of
        Some dnt \<Rightarrow>
          makeStance (Some Protect)
            (''do-not-touch policy: '' @ str_or (pm_reason dnt) ''user policy'')
            None ''report-only'' ''Do not plan, mutate, or probe.'' False
      | None \<Rightarrow>
      if has (\<lambda>x. sensitivityClass x = SecretContent) s then
        makeStance (Some Protect) ''secret content; boundary notice only'' None
          ''boundary-notice'' ''Do not display content, mutate, or probe.'' False
      else if has (\<lambda>x. scopeClass x = SectorBoundary \<or> scopeClass x = ParentContainsBoundary) s then
        makeStance (Some Protect) ''sector boundary'' None ''report-only''
          ''Do not act across the boundary without a narrow exception.'' False
      else if has (\<lambda>x. scopeClass x = OutOfScope) s then
        makeStance (Some Block) ''path is outside declared scope''
          (Some ''scope expansion or owner authorization'') ''user-decision-needed''
          ''Do not act on out-of-scope paths.'' True
      else if has (\<lambda>x. ownerClass x = OwnerUnknown) s then
        makeStance (Some Block) ''unknown owner'' (Some ''ownership evidence'')
          ''user-decision-needed'' ''Do not act without ownership.'' True
      else if has (\<lambda>x. rollbackClass x = CheckpointOnly) s then
        makeStance (Some Block) ''rollback would rely on Claude checkpoint only''
          (Some ''manifest-backed rollback proof'') ''report-only''
          ''Do not mutate based on checkpoint-only rollback.'' False
      else if a_conflicting args then
        makeStance (Some Block) ''conflicting evidence'' (Some ''evidence reconciliation'')
          ''user-decision-needed'' ''Do not act while evidence disagrees.'' True
      else if has (\<lambda>x. surfaceClass x = SecretAdjacentSurf \<or> sensitivityClass x = SecretAdjacent) s then
        makeStance (Some Protect) ''secret-adjacent surface'' None ''report-only''
          ''Do not display content or mutate.'' False
      else if List.member mk ''rollback-proof'' then
        makeStance (Some Block) ''missing rollback proof'' (Some ''rollback-proof'')
          ''report-only'' ''Do not mutate without rollback evidence.'' False
      else if m = Safe \<and> (List.member mk ''loader-key'' \<or> List.member mk ''behavioral-key'') then
        makeStance (Some Probe) ''safe mode cannot prove live behavior''
          (find (\<lambda>k. k = ''loader-key'' \<or> k = ''behavioral-key'') mk)
          ''Run a live probe after consent.''
          ''Do not mutate or claim broken without a live key.'' True
      else if has (\<lambda>x. executionClass x = ShellExpansionRisk) s then
        makeStance (Some Probe) ''shell parse is ambiguous'' (Some ''loader or hook debug evidence'')
          ''Run a live hook probe after consent.''
          ''Do not patch or delete based on this string alone.'' True
      else if has (\<lambda>x. loadBearingClass x = PossiblyLoadBearing) s \<and> List.member mk ''behavioral-key'' then
        makeStance (Some Probe) ''possibly load-bearing; behavioral key not yet collected''
          (Some ''behavioral-key'') ''Run a live probe after consent.''
          ''Do not act on this surface alone.'' True
      else if a_findingClass args = Some Shadow \<or> a_findingClass args = Some Divergence then
        makeStance (Some Review) ''user intent may have produced this state'' (Some ''user-intent'')
          ''review-required'' ''Do not mutate without explicit consent.'' True
      else if has (\<lambda>x. rollbackClass x = SnapshotPossible) s \<and> a_findingClass args = Some Integrity
           \<and> \<not> List.member mk ''patch-target'' then
        makeStance (Some Prepare) ''patch target known and rollback is snapshot-possible'' None
          ''patch-preview'' ''Do not mutate before approval.'' True
      else if a_consentGranted args \<and> has (\<lambda>x. rollbackClass x = ManifestBacked) s then
        makeStance (Some Repair) ''consent granted and manifest-backed rollback present'' None
          ''apply-with-snapshot'' ''Do not exceed approved patch.'' False
      else if has (\<lambda>fr. List.member fr ''within-grace-period'') (a_freshness args) then
        makeStance (Some Watch) ''within documented grace period'' None ''no-action-now''
          ''Do not act yet.'' False
      else makeStance (Some Inform) ''informational only'' None ''no-action-recommended'' [] False)"

definition decideStance :: "stance_args \<Rightarrow> stance_payload" where
  "decideStance args =
     (let st = decideStanceCore args in
      if p_stance st = Repair then
        makeStance (Some Prepare) (p_why st) (Some ''v0.4 rollback infrastructure'')
          ''deferred until v0.4 rollback infrastructure'' (p_notAllowed st) True
      else st)"

subsection \<open>The documented decision order as a specification\<close>

text \<open>
  docs/decision-calculus.md lists the order protect, block, probe, review, prepare, repair,
  watch, inform with the hard overrides first. As a table: the first row whose condition holds
  gives the stance. The table is over the conditions only; the payload texts are the engine's.
\<close>

definition stance_table :: "stance_args \<Rightarrow> (bool \<times> stance) list" where
  "stance_table a =
     (let s = a_surface a; mk = set (a_missingKeys a); live = {''loader-key'', ''behavioral-key''} in
      [(\<exists>m \<in> set (a_matches a). pm_type m = DoNotTouch, Protect),
       (has (\<lambda>x. sensitivityClass x = SecretContent) s, Protect),
       (has (\<lambda>x. scopeClass x \<in> {SectorBoundary, ParentContainsBoundary}) s, Protect),
       (has (\<lambda>x. scopeClass x = OutOfScope \<or> ownerClass x = OwnerUnknown
                \<or> rollbackClass x = CheckpointOnly) s, Block),
       (a_conflicting a, Block),
       (has (\<lambda>x. surfaceClass x = SecretAdjacentSurf \<or> sensitivityClass x = SecretAdjacent) s, Protect),
       (''rollback-proof'' \<in> mk, Block),
       (a_mode a = Some Safe \<and> live \<inter> mk \<noteq> {}, Probe),
       (has (\<lambda>x. executionClass x = ShellExpansionRisk) s, Probe),
       (has (\<lambda>x. loadBearingClass x = PossiblyLoadBearing) s \<and> ''behavioral-key'' \<in> mk, Probe),
       (a_findingClass a \<in> {Some Shadow, Some Divergence}, Review),
       (has (\<lambda>x. rollbackClass x = SnapshotPossible) s \<and> a_findingClass a = Some Integrity
          \<and> ''patch-target'' \<notin> mk, Prepare),
       (a_consentGranted a \<and> has (\<lambda>x. rollbackClass x = ManifestBacked) s, Repair),
       (has (\<lambda>fr. ''within-grace-period'' \<in> set fr) (a_freshness a), Watch)])"

fun first_row :: "(bool \<times> stance) list \<Rightarrow> stance" where
  "first_row [] = Inform"
| "first_row ((b, st) # rows) = (if b then st else first_row rows)"

definition spec_stance :: "stance_args \<Rightarrow> stance" where
  "spec_stance a = (let st = first_row (stance_table a) in if st = Repair then Prepare else st)"

lemma member_iff_set: "List.member xs x \<longleftrightarrow> x \<in> set xs"
  by simp

lemma find_dnt_None:
  "find (\<lambda>m. pm_type m = DoNotTouch) ms = None \<longleftrightarrow> \<not> (\<exists>m \<in> set ms. pm_type m = DoNotTouch)"
  by (auto simp: find_None_iff)

lemma opt_or_Safe: "opt_or x Diagnose = Safe \<longleftrightarrow> x = Some Safe"
  by (cases x) auto

lemma core_stance: "p_stance (decideStanceCore a) = first_row (stance_table a)"
proof (cases "find (\<lambda>m. pm_type m = DoNotTouch) (a_matches a)")
  case (Some m)
  then have "\<exists>m \<in> set (a_matches a). pm_type m = DoNotTouch"
    using find_dnt_None by (metis option.distinct(1))
  with Some show ?thesis by (simp add: decideStanceCore_def stance_table_def Let_def)
next
  case None
  then have no: "(\<exists>m \<in> set (a_matches a). pm_type m = DoNotTouch) = False"
    by (simp add: find_dnt_None)
  have blk: "has (\<lambda>x. scopeClass x = OutOfScope \<or> ownerClass x = OwnerUnknown
      \<or> rollbackClass x = CheckpointOnly) s \<longleftrightarrow>
    has (\<lambda>x. scopeClass x = OutOfScope) s \<or> has (\<lambda>x. ownerClass x = OwnerUnknown) s
      \<or> has (\<lambda>x. rollbackClass x = CheckpointOnly) s" for s
    by (cases s) auto
  show ?thesis
    unfolding decideStanceCore_def stance_table_def Let_def None no blk opt_or_Safe
      member_iff_set
    by (simp add: if_distrib [of p_stance] cong: if_cong)
qed

lemma decideStance_spec: "p_stance (decideStance a) = spec_stance a"
  by (simp add: decideStance_def spec_stance_def Let_def core_stance [symmetric])

subsection \<open>Properties\<close>


lemma spec_stance_cases:
  "spec_stance a = Prepare \<longleftrightarrow> first_row (stance_table a) \<in> {Prepare, Repair}"
  by (simp add: spec_stance_def Let_def)

lemma has_Some_iff: "has q x \<longleftrightarrow> (\<exists>y. x = Some y \<and> q y)"
  by (cases x) auto

text \<open>When the engine prepares an action, no do-not-touch rule matched, the surface is given,
  in scope, owned, neither secret nor next to a secret, its rollback is a snapshot or a manifest,
  no evidence conflicts and the rollback proof is not missing.\<close>

lemma prepare_is_safe:
  assumes "p_stance (decideStance a) = Prepare"
  shows "(\<forall>m \<in> set (a_matches a). pm_type m \<noteq> DoNotTouch) \<and> \<not> a_conflicting a
     \<and> ''rollback-proof'' \<notin> set (a_missingKeys a)
     \<and> (\<exists>x. a_surface a = Some x \<and> rollbackClass x \<in> {SnapshotPossible, ManifestBacked}
           \<and> sensitivityClass x \<notin> {SecretContent, SecretAdjacent} \<and> ownerClass x \<noteq> OwnerUnknown
           \<and> scopeClass x \<notin> {SectorBoundary, ParentContainsBoundary, OutOfScope}
           \<and> executionClass x \<noteq> ShellExpansionRisk)"
proof -
  have r: "first_row (stance_table a) \<in> {Prepare, Repair}"
    using assms spec_stance_cases by (simp add: decideStance_spec)
  show ?thesis
  proof (cases "a_surface a")
    case None
    then show ?thesis using r
      by (simp add: stance_table_def Let_def split: if_splits)
  next
    case (Some x)
    then show ?thesis using r
      by (simp add: stance_table_def Let_def split: if_splits)
  qed
qed

definition cache_args :: stance_args where
  \<comment> \<open>an unreferenced plugin-cache directory in plan mode\<close>
  "cache_args = no_args\<lparr>a_surface := Some (surface_lit ClaudeAppData ClaudeManaged PossiblyLoadBearing
     PrivatePath Inert SnapshotPossible InScope Medium), a_findingClass := Some Integrity\<rparr>"

lemma prepare_is_safe_witness: "\<exists>x. a_surface cache_args = Some x \<and> ownerClass x \<noteq> OwnerUnknown"
proof -
  have "p_stance (decideStance cache_args) = Prepare"
    by (simp add: decideStance_spec spec_stance_def stance_table_def cache_args_def no_args_def)
  from prepare_is_safe [OF this] show ?thesis by blast
qed

lemma do_not_touch_wins:
  "p_stance (decideStance a) \<noteq> Repair \<and>
   (\<not> (\<exists>m \<in> set (a_matches a). pm_type m = DoNotTouch) \<or> p_stance (decideStance a) = Protect)"
  by (auto simp: decideStance_spec spec_stance_def stance_table_def Let_def)

end
