(* ===== verification/Fs.thy ===== *)
theory Fs
  imports Paths Json_Roundtrip
begin

text \<open>
  The file system as the program sees it through node:fs: a finite map from path strings to
  files (bytes and permission bits), symbolic links and directories, kept as an association
  list so that listings compute. Every call the program makes is one function on that map, with
  the errors Node raises as values of err. The locale path_store states what a read returns after
  writes and deletions, and is interpreted on the association list.
\<close>

subsection \<open>Errors\<close>

datatype err =
    ENOENT string
  | EISDIR string
  | EEXIST string
  | ENOTDIR string
  | SyntaxError string
  | TypeError string
  | LockHeldError json
  | SnapshotRefusedError "(string \<times> string \<times> string) list"
  | SnapshotBudgetError nat int
  | OperationStateError string string "string option"
  | SnapshotDriftError string "string option" string
  | PlanDriftError string string "string option" "string option"
  | ReportDriftError string string
  | SnapshotIntegrityError string "string option" "string option"
  | RollbackNotImplementedError string
  | AbortNotAllowedError string "string option"
  | NotImplementedError string
  | HardenPlanDriftError string string
  | HardenLockHeldError json

subsection \<open>Nodes and the store\<close>

datatype node = File string nat | Link string | Dir

type_synonym fs = "(string \<times> node) list"

type_synonym 'a io = "fs \<Rightarrow> (err + 'a) \<times> fs"

definition fget :: "string \<Rightarrow> fs \<Rightarrow> node option" where
  "fget p s = map_of s p"

definition fput :: "string \<Rightarrow> node \<Rightarrow> fs \<Rightarrow> fs" where
  "fput p n s = AList.update p n s"

definition fdel :: "string \<Rightarrow> fs \<Rightarrow> fs" where
  "fdel p s = AList.delete p s"

definition subtree_of :: "string \<Rightarrow> string \<Rightarrow> bool" where
  "subtree_of d p = (p = d \<or> starts_with (d @ [sep]) p)"

definition fdel_tree :: "string \<Rightarrow> fs \<Rightarrow> fs" where
  "fdel_tree d s = filter (\<lambda>kv. \<not> subtree_of d (fst kv)) s"

locale path_store =
  fixes get :: "string \<Rightarrow> 's \<Rightarrow> 'n option"
    and put :: "string \<Rightarrow> 'n \<Rightarrow> 's \<Rightarrow> 's"
    and del :: "string \<Rightarrow> 's \<Rightarrow> 's"
  assumes get_put: "get p (put q n s) = (if p = q then Some n else get p s)"
    and get_del: "get p (del q s) = (if p = q then None else get p s)"
begin

lemma get_put_same: "get p (put p n s) = Some n"
  by (simp add: get_put)

lemma get_put_other: "p \<noteq> q \<Longrightarrow> get p (put q n s) = get p s"
  by (simp add: get_put)

lemma get_rename: "dst \<noteq> tmp \<Longrightarrow>
   get p (del tmp (put dst n s)) = (if p = tmp then None else if p = dst then Some n else get p s)"
  by (simp add: get_put get_del)

lemma get_put_all:
  "get p (foldl (\<lambda>s (k, n). put k n s) s kns) = (case map_of (rev kns) p of Some n \<Rightarrow> Some n | None \<Rightarrow> get p s)"
proof (induction kns arbitrary: s)
  case Nil
  then show ?case by simp
next
  case (Cons kn kns)
  then show ?case
    by (cases kn) (simp add: get_put map_add_def split: option.splits)
qed

lemma get_del_all: "get p (foldl (\<lambda>s k. del k s) s ks) = (if p \<in> set ks then None else get p s)"
  by (induction ks arbitrary: s) (auto simp: get_del)

lemma get_foldl_frame:
  "(\<And>x s. x \<in> set xs \<Longrightarrow> get p (step s x) = get p s) \<Longrightarrow> get p (foldl step s xs) = get p s"
  by (induction xs arbitrary: s) auto

end

interpretation afs: path_store fget fput fdel
  by unfold_locales
    (auto simp: fget_def fput_def fdel_def update_conv' delete_conv' fun_upd_def)

lemmas fs_get [simp] = afs.get_put_same afs.get_put_other

lemma fget_fdel [simp]: "fget p (fdel q s) = (if p = q then None else fget p s)"
  by (rule afs.get_del)

lemma map_of_filter_key:
  "map_of (filter (\<lambda>kv. P (fst kv)) s) p = (if P p then map_of s p else None)"
  by (induction s) auto

lemma fget_fdel_tree [simp]:
  "fget p (fdel_tree d s) = (if subtree_of d p then None else fget p s)"
  unfolding fget_def fdel_tree_def
  using map_of_filter_key [of "\<lambda>k. \<not> subtree_of d k" s p] by simp

lemma subtree_of_refl [simp]: "subtree_of d d"
  by (simp add: subtree_of_def)

subsection \<open>Reads\<close>

definition link_target :: "string \<Rightarrow> string \<Rightarrow> string" where
  "link_target p t = (if is_absolute t then t else path_join [dirname p, t])"

fun follow :: "nat \<Rightarrow> fs \<Rightarrow> string \<Rightarrow> node option" where
  \<comment> \<open>stat semantics: at most n links are followed (ELOOP is reported as absence)\<close>
  "follow 0 s p = None"
| "follow (Suc n) s p =
     (case fget p s of
        Some (Link t) \<Rightarrow> follow n s (link_target p t)
      | x \<Rightarrow> x)"

fun follow_path :: "nat \<Rightarrow> fs \<Rightarrow> string \<Rightarrow> string" where
  \<comment> \<open>the path a write through links ends at\<close>
  "follow_path 0 s p = p"
| "follow_path (Suc n) s p =
     (case fget p s of
        Some (Link t) \<Rightarrow> follow_path n s (link_target p t)
      | _ \<Rightarrow> p)"

definition LINK_MAX :: nat where
  "LINK_MAX = 40"

definition stat_node :: "fs \<Rightarrow> string \<Rightarrow> node option" where
  "stat_node s p = follow LINK_MAX s p"

definition existsSync :: "fs \<Rightarrow> string \<Rightarrow> bool" where
  "existsSync s p = (stat_node s p \<noteq> None)"

definition is_directory :: "fs \<Rightarrow> string \<Rightarrow> bool" where
  "is_directory s p = (stat_node s p = Some Dir)"

definition read_file :: "fs \<Rightarrow> string \<Rightarrow> err + string" where
  "read_file s p =
     (case stat_node s p of
        None \<Rightarrow> Inl (ENOENT p)
      | Some Dir \<Rightarrow> Inl (EISDIR p)
      | Some (Link t) \<Rightarrow> Inl (ENOENT p)
      | Some (File c m) \<Rightarrow> Inr c)"

definition node_size :: "node \<Rightarrow> nat" where
  "node_size n = (case n of File c m \<Rightarrow> length c | Link t \<Rightarrow> length t | Dir \<Rightarrow> 0)"

lemma stat_node_direct: "fget p s = x \<Longrightarrow> (\<forall>t. x \<noteq> Some (Link t)) \<Longrightarrow> stat_node s p = x"
  unfolding stat_node_def LINK_MAX_def
  by (simp add: numeral_eq_Suc split: option.splits node.splits)

lemma read_file_direct [simp]: "fget p s = Some (File c m) \<Longrightarrow> read_file s p = Inr c"
  by (simp add: read_file_def stat_node_direct)

lemma existsSync_direct [simp]: "fget p s = Some (File c m) \<Longrightarrow> existsSync s p"
  by (simp add: existsSync_def stat_node_direct)

lemma existsSync_none [simp]: "fget p s = None \<Longrightarrow> \<not> existsSync s p"
  by (simp add: existsSync_def stat_node_direct)

lemma read_file_none [simp]: "fget p s = None \<Longrightarrow> read_file s p = Inl (ENOENT p)"
  by (simp add: read_file_def stat_node_direct)

definition child_name :: "string \<Rightarrow> string \<Rightarrow> string option" where
  "child_name d p =
     (if starts_with (d @ [sep]) p
      then (let r = drop (Suc (length d)) p in if r = [] \<or> sep \<in> set r then None else Some r)
      else None)"

definition read_dir :: "fs \<Rightarrow> string \<Rightarrow> err + string list" where
  "read_dir s d =
     (case stat_node s d of
        None \<Rightarrow> Inl (ENOENT d)
      | Some Dir \<Rightarrow> Inr (List.map_filter (\<lambda>kv. child_name d (fst kv)) s)
      | Some _ \<Rightarrow> Inl (ENOTDIR d))"

definition read_json :: "fs \<Rightarrow> string \<Rightarrow> err + json" where
  \<comment> \<open>JSON.parse(readFile(p, "utf8"))\<close>
  "read_json s p =
     (case read_file s p of
        Inl e \<Rightarrow> Inl e
      | Inr raw \<Rightarrow> (case json_parse raw of None \<Rightarrow> Inl (SyntaxError p) | Some j \<Rightarrow> Inr j))"

subsection \<open>Writes\<close>

definition parent_is_dir :: "fs \<Rightarrow> string \<Rightarrow> bool" where
  "parent_is_dir s p = is_directory s (dirname p)"

fun mkdirs_up :: "nat \<Rightarrow> string \<Rightarrow> string list" where
  \<comment> \<open>the directories mkdir(p, recursive) makes, outermost first\<close>
  "mkdirs_up 0 p = [p]"
| "mkdirs_up (Suc n) p = (if dirname p = p then [p] else mkdirs_up n (dirname p) @ [p])"

definition mkdir_one :: "fs \<Rightarrow> string \<Rightarrow> fs" where
  "mkdir_one s p = (if fget p s = None then fput p Dir s else s)"

definition mkdir_recursive :: "string \<Rightarrow> unit io" where
  "mkdir_recursive p s =
     (if list_ex (\<lambda>q. fget q s \<noteq> None \<and> \<not> is_directory s q) (mkdirs_up (length p) p)
      then (Inl (EEXIST p), s)
      else (Inr (), foldl mkdir_one s (mkdirs_up (length p) p)))"

definition default_mode :: nat where
  "default_mode = 420" \<comment> \<open>0o666 with umask 022 gives 0o644\<close>

definition unlink_path :: "string \<Rightarrow> unit io" where
  "unlink_path p s =
     (case fget p s of
        None \<Rightarrow> (Inl (ENOENT p), s)
      | Some Dir \<Rightarrow> (Inl (EISDIR p), s)
      | Some _ \<Rightarrow> (Inr (), fdel p s))"

definition rm_tree :: "string \<Rightarrow> unit io" where
  \<comment> \<open>rm(p, { recursive: true, force: false })\<close>
  "rm_tree p s = (if fget p s = None then (Inl (ENOENT p), s) else (Inr (), fdel_tree p s))"

definition rm_tree_force :: "string \<Rightarrow> fs \<Rightarrow> fs" where
  \<comment> \<open>rm(p, { recursive: true, force: true }): no error when absent\<close>
  "rm_tree_force p s = fdel_tree p s"

definition real_path :: "fs \<Rightarrow> string \<Rightarrow> string" where
  "real_path s p = follow_path LINK_MAX s p"

lemma real_path_direct: "(\<forall>t. fget p s \<noteq> Some (Link t)) \<Longrightarrow> real_path s p = p"
  unfolding real_path_def LINK_MAX_def
  by (simp add: numeral_eq_Suc split: option.splits node.splits)

definition copy_file :: "string \<Rightarrow> string \<Rightarrow> unit io" where
  \<comment> \<open>copyFile(src, dst): content through links; a new file takes the source's permission
      bits, an existing one keeps its own\<close>
  "copy_file src dst s =
     (case stat_node s src of
        Some (File c m) \<Rightarrow>
          (case stat_node s dst of
             Some (File c' m') \<Rightarrow> (Inr (), fput (real_path s dst) (File c m') s)
           | Some Dir \<Rightarrow> (Inl (EISDIR dst), s)
           | _ \<Rightarrow>
               if parent_is_dir s (real_path s dst)
               then (Inr (), fput (real_path s dst) (File c m) s)
               else (Inl (ENOENT dst), s))
      | Some Dir \<Rightarrow> (Inl (EISDIR src), s)
      | _ \<Rightarrow> (Inl (ENOENT src), s))"

definition append_file :: "string \<Rightarrow> string \<Rightarrow> unit io" where
  "append_file p text s =
     (case stat_node s p of
        Some (File c m) \<Rightarrow> (Inr (), fput (real_path s p) (File (c @ text) m) s)
      | Some Dir \<Rightarrow> (Inl (EISDIR p), s)
      | _ \<Rightarrow> if parent_is_dir s (real_path s p)
             then (Inr (), fput (real_path s p) (File text default_mode) s)
             else (Inl (ENOENT p), s))"

definition write_file :: "string \<Rightarrow> string \<Rightarrow> unit io" where
  "write_file p text s =
     (case stat_node s p of
        Some (File c m) \<Rightarrow> (Inr (), fput (real_path s p) (File text m) s)
      | Some Dir \<Rightarrow> (Inl (EISDIR p), s)
      | _ \<Rightarrow> if parent_is_dir s (real_path s p)
             then (Inr (), fput (real_path s p) (File text default_mode) s)
             else (Inl (ENOENT p), s))"

subsection \<open>Sequencing\<close>

definition bindI :: "'a io \<Rightarrow> ('a \<Rightarrow> 'b io) \<Rightarrow> 'b io" where
  \<comment> \<open>await m, then f; a thrown error skips f and keeps the effects so far\<close>
  "bindI m f s = (case m s of (Inl e, s') \<Rightarrow> (Inl e, s') | (Inr x, s') \<Rightarrow> f x s')"

definition returnI :: "'a \<Rightarrow> 'a io" where
  "returnI x s = (Inr x, s)"

definition failI :: "err \<Rightarrow> 'a io" where
  "failI e s = (Inl e, s)"

definition liftI :: "(fs \<Rightarrow> err + 'a) \<Rightarrow> 'a io" where
  "liftI f s = (f s, s)"

definition swallowI :: "unit io \<Rightarrow> unit io" where
  \<comment> \<open>try { await m } catch {}\<close>
  "swallowI m s = (Inr (), snd (m s))"

definition finallyI :: "'a io \<Rightarrow> (fs \<Rightarrow> fs) \<Rightarrow> 'a io" where
  \<comment> \<open>try { m } finally { c }\<close>
  "finallyI m c s = (case m s of (r, s') \<Rightarrow> (r, c s'))"

fun mapI :: "('a \<Rightarrow> 'b io) \<Rightarrow> 'a list \<Rightarrow> 'b list io" where
  \<comment> \<open>a for loop that collects results and stops at the first throw\<close>
  "mapI f [] = returnI []"
| "mapI f (x # xs) = bindI (f x) (\<lambda>y. bindI (mapI f xs) (\<lambda>ys. returnI (y # ys)))"

lemma bindI_simps [io_simps]:
  "bindI (returnI x) f = f x"
  "bindI (failI e) g = failI e"
  by (auto simp: bindI_def returnI_def failI_def fun_eq_iff)

lemma run_simps [io_simps]:
  "returnI x s = (Inr x, s)"
  "failI e s = (Inl e, s)"
  "liftI h s = (h s, s)"
  by (auto simp: returnI_def failI_def liftI_def)

lemma bindI_Inr [io_simps]: "m s = (Inr x, s') \<Longrightarrow> bindI m f s = f x s'"
  by (simp add: bindI_def)

lemma bindI_Inl [io_simps]: "m s = (Inl e, s') \<Longrightarrow> bindI m f s = (Inl e, s')"
  by (simp add: bindI_def)

lemma bindI_eq_Inr:
  "bindI m f s = (Inr y, t) \<longleftrightarrow> (\<exists>x s'. m s = (Inr x, s') \<and> f x s' = (Inr y, t))"
  by (auto simp: bindI_def split: prod.splits sum.splits)

lemma finallyI_run: "finallyI m c s = (fst (m s), c (snd (m s)))"
  by (simp add: finallyI_def split: prod.splits)

subsection \<open>What the directory-making call leaves\<close>

lemma follow_mono:
  "(\<And>q. fget q s \<noteq> None \<Longrightarrow> fget q s' = fget q s) \<Longrightarrow> follow n s p = Some x \<Longrightarrow> follow n s' p = Some x"
proof (induction n arbitrary: p)
  case (Suc n)
  then have "fget p s \<noteq> None" by (auto split: option.splits)
  with Suc show ?case by (auto split: option.splits node.splits)
qed simp

lemma is_directory_mono:
  "(\<And>q. fget q s \<noteq> None \<Longrightarrow> fget q s' = fget q s) \<Longrightarrow> is_directory s p \<Longrightarrow> is_directory s' p"
  unfolding is_directory_def stat_node_def by (rule follow_mono)

lemma mkdir_one_get: "fget q (mkdir_one s p) = (if q = p \<and> fget p s = None then Some Dir else fget q s)"
  by (simp add: mkdir_one_def)

lemma mkdirs_get:
  "fget q (foldl mkdir_one s ps) = (if q \<in> set ps \<and> fget q s = None then Some Dir else fget q s)"
  by (induction ps arbitrary: s) (auto simp: mkdir_one_get)

lemma mkdirs_up_last: "p \<in> set (mkdirs_up n p)"
  by (cases n) auto

lemma mkdirs_up_root: "mkdirs_up n [sep] = [[sep]]"
  by (cases n) auto

lemma mkdirs_up_abs:
  "q \<in> set (mkdirs_up n (abs_path P)) \<Longrightarrow> P \<noteq> [] \<Longrightarrow> \<forall>s \<in> set P. valid_seg s
   \<Longrightarrow> q = [sep] \<or> (\<exists>Q. Q \<noteq> [] \<and> prefix Q P \<and> q = abs_path Q)"
proof (induction n arbitrary: P)
  case (Suc n)
  show ?case
  proof (cases "q = abs_path P")
    case False
    with Suc.prems(1) have q: "q \<in> set (mkdirs_up n (dirname (abs_path P)))"
      by (auto split: if_splits)
    obtain P' s where P: "P = P' @ [s]" using Suc.prems(2) by (cases P rule: rev_cases) auto
    show ?thesis
    proof (cases "P' = []")
      case True
      with q P Suc.prems(3) show ?thesis
        using dirname_single [of s] by (simp add: mkdirs_up_root del: abs_path.simps)
    next
      case ne: False
      with q P Suc.prems(3) have "q \<in> set (mkdirs_up n (abs_path P'))"
        using dirname_abs_path [of P' s] by (simp del: abs_path_append)
      with Suc.IH [of P'] ne P Suc.prems(3) show ?thesis by (auto intro: prefix_append)
    qed
  qed (use Suc.prems in auto)
qed auto

lemma mkdirs_up_not:
  assumes "\<forall>s \<in> set P. valid_seg s" "P \<noteq> []" "\<forall>s \<in> set Q. valid_seg s" "Q \<noteq> []" "\<not> prefix Q P"
  shows "abs_path Q \<notin> set (mkdirs_up n (abs_path P))"
proof
  assume "abs_path Q \<in> set (mkdirs_up n (abs_path P))"
  from mkdirs_up_abs [OF this assms(2,1)] consider "abs_path Q = [sep]"
    | R where "R \<noteq> []" "prefix R P" "abs_path Q = abs_path R" by auto
  then show False
  proof cases
    case 1
    then show False using assms(3,4) by (cases Q) (auto simp: valid_seg_def)
  next
    case 2
    then have "\<forall>s \<in> set R. valid_seg s" using assms(1) set_mono_prefix by blast
    then have "Q = R" using 2(3) assms(3) abs_path_inj by blast
    with 2 assms(5) show False by simp
  qed
qed

lemma mkdir_recursive_ok:
  assumes "mkdir_recursive p s = (Inr u, s')"
  shows "is_directory s' p"
    and "fget q s \<noteq> None \<Longrightarrow> fget q s' = fget q s"
    and "fget q s' \<noteq> fget q s \<Longrightarrow> fget q s' = Some Dir \<and> q \<in> set (mkdirs_up (length p) p)"
proof -
  have s': "s' = foldl mkdir_one s (mkdirs_up (length p) p)"
    and ok: "\<forall>q \<in> set (mkdirs_up (length p) p). fget q s = None \<or> is_directory s q"
    using assms by (auto simp: mkdir_recursive_def list_ex_iff split: if_splits)
  show fr: "\<And>q. fget q s \<noteq> None \<Longrightarrow> fget q s' = fget q s"
    and "fget q s' \<noteq> fget q s \<Longrightarrow> fget q s' = Some Dir \<and> q \<in> set (mkdirs_up (length p) p)"
    by (auto simp: s' mkdirs_get split: if_splits)
  show "is_directory s' p"
  proof (cases "fget p s")
    case None
    then have "fget p s' = Some Dir" by (simp add: s' mkdirs_get mkdirs_up_last)
    then show ?thesis by (simp add: is_directory_def stat_node_direct)
  next
    case Some
    with ok have "is_directory s p" using mkdirs_up_last by force
    then show ?thesis using fr is_directory_mono by blast
  qed
qed

lemma mkdir_recursive_err: "mkdir_recursive p s = (Inl e, s') \<Longrightarrow> s' = s"
  by (auto simp: mkdir_recursive_def split: if_splits)

definition no_link :: "fs \<Rightarrow> string \<Rightarrow> bool" where
  "no_link s p = (\<forall>t. fget p s \<noteq> Some (Link t))"

lemma append_file_frame:
  "no_link s p \<Longrightarrow> append_file p text s = (r, s') \<Longrightarrow> q \<noteq> p \<Longrightarrow> fget q s' = fget q s"
  by (auto simp: append_file_def no_link_def real_path_direct split: option.splits node.splits if_splits)

lemma append_file_no_link:
  "no_link s p \<Longrightarrow> append_file p text s = (r, s') \<Longrightarrow> no_link s' p"
  by (auto simp: append_file_def no_link_def real_path_direct split: option.splits node.splits if_splits)

end
