(* ===== verification/Policy.thy ===== *)
theory Policy
  imports Fs Contracts
begin

text \<open>
  Protection policy (scripts/lib/policy.mjs): loading the configuration, normalising the rules,
  matching a path against a pattern and ranking the matches. The abstract contract of the
  matcher is on segment lists: a plain pattern protects the subtree below it, a pattern ending
  in two stars too, a pattern ending in one star exactly the direct children.
\<close>

subsection \<open>Rules and configuration\<close>

record rule =
  rule_check :: "string option"
  rule_path :: "string option"
  rule_reason :: string
  rule_scope :: string

record config =
  cfg_file :: "string option"
  cfg_rules :: "rule list"
  cfg_error :: "string option"

definition json_arr :: "json option \<Rightarrow> json list" where
  \<comment> \<open>Array.isArray(v) ? v : []\<close>
  "json_arr v = opt_or (jarr v) []"

definition rule_object :: "json \<Rightarrow> bool" where
  \<comment> \<open>rule && typeof rule === "object"\<close>
  "rule_object j = (case j of JObj kvs \<Rightarrow> True | JArr xs \<Rightarrow> True | _ \<Rightarrow> False)"

definition truthy_str :: "string option \<Rightarrow> bool" where
  "truthy_str x = (case x of None \<Rightarrow> False | Some s \<Rightarrow> s \<noteq> [])"

definition to_rule :: "json \<Rightarrow> rule" where
  "to_rule j =
     \<lparr>rule_check = jstr (jget ''check'' j), rule_path = jstr (jget ''path'' j),
      rule_reason = opt_or (jstr (jget ''reason'' j)) ''do-not-touch rule'',
      rule_scope = opt_or (jstr (jget ''scope'' j)) ''user''\<rparr>"

definition normalizeProtectionRules :: "json \<Rightarrow> rule list" where
  "normalizeProtectionRules value =
     (let rules = json_arr (jget ''doNotTouch'' value) @ json_arr (jget ''protect'' value)
      in filter (\<lambda>r. truthy_str (rule_check r) \<or> truthy_str (rule_path r))
           (map to_rule (filter rule_object rules)))"

datatype read_result = Missing | Malformed string | Parsed json

definition readJson :: "fs \<Rightarrow> string \<Rightarrow> read_result" where
  "readJson s file =
     (if \<not> existsSync s file then Missing
      else (case read_json s file of Inl e \<Rightarrow> Malformed file | Inr j \<Rightarrow> Parsed j))"

fun load_first :: "fs \<Rightarrow> string list \<Rightarrow> config" where
  "load_first s [] = \<lparr>cfg_file = None, cfg_rules = [], cfg_error = None\<rparr>"
| "load_first s (file # files) =
     (case readJson s file of
        Parsed j \<Rightarrow> \<lparr>cfg_file = Some file, cfg_rules = normalizeProtectionRules j, cfg_error = None\<rparr>
      | Malformed e \<Rightarrow> \<lparr>cfg_file = Some file, cfg_rules = [], cfg_error = Some e\<rparr>
      | Missing \<Rightarrow> load_first s files)"

definition loadConfig :: "fs \<Rightarrow> string \<Rightarrow> string option \<Rightarrow> config" where
  "loadConfig s home explicitPath =
     load_first s
       ((if truthy_str explicitPath then [the explicitPath] else []) @
        [path_join [home, ''housekeeper'', ''config.json''], path_join [home, ''housekeeper.json'']])"

subsection \<open>Matching\<close>

definition star2 :: string where
  "star2 = sep # ''**''"

definition star1 :: string where
  "star1 = sep # ''*''"

definition pathMatchesProtection :: "string \<Rightarrow> string \<Rightarrow> string \<Rightarrow> bool" where
  "pathMatchesProtection pattern issuePath home =
     (let absolutePattern = (if is_absolute pattern then pattern else path_join [home, pattern]);
          normalizedPattern = normalize absolutePattern;
          normalizedPath = normalize issuePath
      in if ends_with star2 normalizedPattern then
           (let pre = take (length normalizedPattern - 3) normalizedPattern
            in normalizedPath = pre \<or> starts_with (pre @ [sep]) normalizedPath)
         else if ends_with star1 normalizedPattern then
           (let pre = take (length normalizedPattern - 2) normalizedPattern
            in dirname normalizedPath = pre)
         else normalizedPath = normalizedPattern
              \<or> starts_with (normalizedPattern @ [sep]) normalizedPath)"

record policy =
  pol_home :: string
  pol_doNotTouch :: "rule list"
  pol_allowances :: "rule list"
  pol_standingConsent :: "(rule \<times> string) list" \<comment> \<open>with its maxStance, empty when absent\<close>

fun typeOrder :: "policy_type \<Rightarrow> nat" where
  "typeOrder DoNotTouch = 0"
| "typeOrder Allowance = 1"
| "typeOrder StandingConsent = 2"

definition rule_hits :: "string \<Rightarrow> string \<Rightarrow> rule \<Rightarrow> bool" where
  "rule_hits home target r =
     (case rule_path r of None \<Rightarrow> False
      | Some p \<Rightarrow> p \<noteq> [] \<and> pathMatchesProtection p target home)"

definition match_order :: "policy_match \<Rightarrow> nat \<times> int" where
  "match_order m = (typeOrder (pm_type m), - int (length (pm_pattern m)))"

fun insert_match :: "policy_match \<Rightarrow> policy_match list \<Rightarrow> policy_match list" where
  "insert_match m [] = [m]"
| "insert_match m (x # xs) =
     (let (a, b) = match_order m; (c, d) = match_order x
      in if a < c \<or> (a = c \<and> b \<le> d) then m # x # xs else x # insert_match m xs)"

definition sort_matches :: "policy_match list \<Rightarrow> policy_match list" where
  \<comment> \<open>Array.prototype.sort with the comparator of matchPolicy; the sort is stable\<close>
  "sort_matches ms = foldr insert_match ms []"

definition matchPolicy :: "string \<Rightarrow> policy \<Rightarrow> policy_match list" where
  "matchPolicy targetPath pol =
     (if targetPath = [] then []
      else
        (let home = pol_home pol;
             dnt = map (\<lambda>r. makePolicyMatch (Some DoNotTouch) (opt_or (rule_path r) []) targetPath
                       (str_or (rule_reason r) ''do-not-touch rule'') (str_or (rule_scope r) ''user'')
                       ''stance protect, action none'')
                     (filter (rule_hits home targetPath) (pol_doNotTouch pol));
             alw = map (\<lambda>r. makePolicyMatch (Some Allowance) (opt_or (rule_path r) []) targetPath
                       (str_or (rule_reason r) ''allowed by policy'') (str_or (rule_scope r) ''user'')
                       ''stance review, action none'')
                     (filter (rule_hits home targetPath) (pol_allowances pol));
             con = map (\<lambda>(r, mx). makePolicyMatch (Some StandingConsent) (opt_or (rule_path r) []) targetPath
                       (str_or (rule_reason r) ''standing consent'') (str_or (rule_scope r) ''user'')
                       (''stance up to '' @ str_or mx ''prepare''))
                     (filter (\<lambda>(r, mx). rule_hits home targetPath r) (pol_standingConsent pol))
         in sort_matches (dnt @ alw @ con)))"

subsection \<open>The matcher on clean paths\<close>

lemma ends_with_last_char: "ends_with (sep # w) p \<Longrightarrow> w \<noteq> [] \<Longrightarrow> last p = last w"
  by (auto simp: ends_with_iff)

lemma plain_pattern_no_star:
  assumes "\<forall>s \<in> set (P @ [s']). valid_seg s" and "s' \<noteq> ''*''" and "s' \<noteq> ''**''"
  shows "\<not> ends_with star1 (abs_path (P @ [s']))" and "\<not> ends_with star2 (abs_path (P @ [s']))"
proof -
  have np: "sep \<notin> set s'" using assms(1) by (auto simp: valid_seg_def)
  have "s' = w" if "ends_with (sep # w) (abs_path (P @ [s']))" and "sep \<notin> set w" for w
  proof -
    from that(1) obtain t where "abs_path P @ sep # s' = t @ sep # w"
      by (auto simp: ends_with_iff)
    then have "rev s' @ sep # rev (abs_path P) = rev w @ sep # rev t"
      by (metis append.assoc append_Cons append_Nil rev.simps(2) rev_append)
    then show ?thesis using append_sep_inj [of sep "rev s'" "rev w"] np that(2) by simp
  qed
  from this [of "''*''"] this [of "''**''"] assms(2,3)
  show "\<not> ends_with star1 (abs_path (P @ [s']))" and "\<not> ends_with star2 (abs_path (P @ [s']))"
    by (auto simp: star1_def star2_def sep_def)
qed

lemma match_plain:
  assumes P: "\<forall>s \<in> set P. valid_seg s" "P \<noteq> []" "last P \<noteq> ''*''" "last P \<noteq> ''**''"
    and Q: "\<forall>s \<in> set Q. valid_seg s" "Q \<noteq> []"
  shows "pathMatchesProtection (abs_path P) (abs_path Q) home \<longleftrightarrow> prefix P Q"
proof -
  obtain P' s' where Ps: "P = P' @ [s']" using P(2) by (cases P rule: rev_cases) auto
  have "\<not> ends_with star1 (abs_path P)" "\<not> ends_with star2 (abs_path P)"
    using plain_pattern_no_star [of P' s'] P Ps by auto
  then show ?thesis
    using abs_path_prefix [OF P(1) Q(1)] P Q
    by (simp add: pathMatchesProtection_def Let_def normalize_abs_path)
qed

lemma valid_stars [simp]: "valid_seg ''*''" "valid_seg ''**''"
  by (simp_all add: valid_seg_def sep_def dot_def dotdot_def)

lemma match_double_star:
  assumes P: "\<forall>s \<in> set P. valid_seg s" and Q: "\<forall>s \<in> set Q. valid_seg s" "Q \<noteq> []"
  shows "pathMatchesProtection (abs_path (P @ [''**''])) (abs_path Q) home \<longleftrightarrow> prefix P Q"
proof -
  have "normalize (abs_path (P @ [''**''])) = abs_path P @ star2"
    using P normalize_abs_path [of "P @ [''**'']"] by (simp add: star2_def)
  moreover have "is_absolute (abs_path (P @ [''**'']))"
    by (rule is_absolute_abs_path) simp
  moreover have "take (length (abs_path P @ star2) - 3) (abs_path P @ star2) = abs_path P"
    by (simp add: star2_def)
  ultimately show ?thesis
    using abs_path_prefix [OF P Q(1)] Q
    by (simp add: pathMatchesProtection_def Let_def normalize_abs_path del: abs_path_append)
qed

lemma match_single_star:
  assumes P: "\<forall>s \<in> set P. valid_seg s" "P \<noteq> []" and Q: "\<forall>s \<in> set (Q @ [q]). valid_seg s" "Q \<noteq> []"
  shows "pathMatchesProtection (abs_path (P @ [''*''])) (abs_path (Q @ [q])) home \<longleftrightarrow> Q = P"
proof -
  have nrm: "normalize (abs_path (P @ [''*''])) = abs_path P @ star1"
    using P normalize_abs_path [of "P @ [''*'']"] by (simp add: star1_def)
  have ab: "is_absolute (abs_path (P @ [''*'']))"
    by (rule is_absolute_abs_path) simp
  have n2: "\<not> ends_with star2 (abs_path P @ star1)"
    by (auto simp: ends_with_iff star1_def star2_def sep_def dest!: arg_cong [where f = rev])
  have tk: "take (length (abs_path P @ star1) - 2) (abs_path P @ star1) = abs_path P"
    by (simp add: star1_def)
  have nq: "normalize (abs_path (Q @ [q])) = abs_path (Q @ [q])"
    using Q normalize_abs_path [of "Q @ [q]"] by simp
  have "dirname (abs_path (Q @ [q])) = abs_path Q"
    using Q dirname_abs_path [of Q q] by simp
  moreover have "abs_path Q = abs_path P \<longleftrightarrow> Q = P"
    using abs_path_inj [of Q P] P Q by auto
  ultimately show ?thesis
    using nrm ab n2 tk nq
    by (simp add: pathMatchesProtection_def Let_def del: abs_path_append)
qed

lemma match_trailing_slash:
  assumes P: "\<forall>s \<in> set P. valid_seg s" "P \<noteq> []" and Q: "\<forall>s \<in> set Q. valid_seg s" "Q \<noteq> []"
  shows "\<not> pathMatchesProtection (abs_path P @ [sep]) (abs_path Q) home"
proof -
  have ab: "is_absolute (abs_path P @ [sep])"
    using P(2) by (cases P) (auto simp: is_absolute_def sep_def)
  have "\<not> ends_with star1 (abs_path P @ [sep])" "\<not> ends_with star2 (abs_path P @ [sep])"
    by (auto simp: ends_with_iff star1_def star2_def sep_def dest!: arg_cong [where f = rev])
  moreover have "abs_path Q \<noteq> abs_path P @ [sep]"
    using abs_path_no_trail [OF Q] by (metis ends_with_append)
  moreover have "\<not> starts_with (abs_path P @ [sep, sep]) (abs_path Q)"
  proof
    assume "starts_with (abs_path P @ [sep, sep]) (abs_path Q)"
    then obtain t where t: "abs_path Q = abs_path P @ sep # sep # t" by (auto simp: starts_with_iff)
    then have "split_on sep (abs_path Q) = split_on sep (abs_path P) @ [] # split_on sep t"
      by (simp add: split_on_mid)
    then have "[] \<in> set Q"
      using split_abs_path [OF Q(1)] split_abs_path [OF P(1)] by simp
    then show False using Q(1) by (auto simp: valid_seg_def)
  qed
  ultimately show ?thesis
    using ab normalize_abs_trail [OF P] normalize_abs_path [OF Q]
    by (simp add: pathMatchesProtection_def Let_def)
qed

subsection \<open>Ranking\<close>

lemma bex_match: "(\<exists>m \<in> set (map f xs). P m) \<longleftrightarrow> (\<exists>x \<in> set xs. P (f x))"
  by auto

definition ranks_before :: "policy_match \<Rightarrow> policy_match \<Rightarrow> bool" where
  \<comment> \<open>do-not-touch first, then allowances, then standing consents; longer patterns first\<close>
  "ranks_before a b = (typeOrder (pm_type a) < typeOrder (pm_type b)
     \<or> (typeOrder (pm_type a) = typeOrder (pm_type b) \<and> length (pm_pattern b) \<le> length (pm_pattern a)))"

lemma ranks_trans: "ranks_before a b \<Longrightarrow> ranks_before b c \<Longrightarrow> ranks_before a c"
  by (auto simp: ranks_before_def)

lemma insert_match_alt:
  "insert_match m (x # xs) = (if ranks_before m x then m # x # xs else x # insert_match m xs)"
  by (auto simp: ranks_before_def match_order_def Let_def)

lemma ranks_total: "\<not> ranks_before a b \<Longrightarrow> ranks_before b a"
  by (auto simp: ranks_before_def)

lemma set_insert_match [simp]: "set (insert_match m xs) = insert m (set xs)"
  by (induction xs) (auto simp: insert_match_alt simp del: insert_match.simps(2))

lemma insert_match_sorted:
  "sorted_wrt ranks_before xs \<Longrightarrow> sorted_wrt ranks_before (insert_match m xs)"
proof (induction xs)
  case (Cons x xs)
  show ?case
  proof (cases "ranks_before m x")
    case True
    with Cons.prems show ?thesis
      unfolding insert_match_alt by (auto intro: ranks_trans [OF True])
  next
    case False
    with Cons ranks_total [OF False] show ?thesis
      unfolding insert_match_alt by auto
  qed
qed simp

lemma sort_matches_facts:
  "set (sort_matches ms) = set ms" "sorted_wrt ranks_before (sort_matches ms)"
  by (induction ms) (auto simp: sort_matches_def insert_match_sorted)

lemma pm_type_make [simp]: "pm_type (makePolicyMatch (Some t) a b c d e) = t"
  "pm_pattern (makePolicyMatch (Some t) a b c d e) = a"
  by (simp_all add: makePolicyMatch_def)

lemma match_dnt:
  "(\<exists>m \<in> set (matchPolicy t pol). pm_type m = DoNotTouch) \<longleftrightarrow>
     t \<noteq> [] \<and> (\<exists>r \<in> set (pol_doNotTouch pol). rule_hits (pol_home pol) t r)"
  by (auto simp: matchPolicy_def Let_def sort_matches_facts bex_Un bex_match simp del: set_map)

lemma match_sorted: "sorted_wrt ranks_before (matchPolicy t pol)"
  by (simp add: matchPolicy_def Let_def sort_matches_facts)

subsection \<open>Properties\<close>

text \<open>C11: The meaning of a protection pattern, on clean absolute paths: a plain pattern and a
  pattern ending in two stars protect exactly the subtree at the path before the stars, a
  pattern ending in one star protects exactly the direct children of that path.\<close>

theorem pattern_meaning:
  assumes "\<forall>s \<in> set P. valid_seg s" "P \<noteq> []" and "\<forall>s \<in> set (Q @ [q]). valid_seg s" "Q \<noteq> []"
  shows "(pathMatchesProtection (abs_path (P @ [''**''])) (abs_path (Q @ [q])) home \<longleftrightarrow> prefix P (Q @ [q]))
       \<and> (pathMatchesProtection (abs_path (P @ [''*''])) (abs_path (Q @ [q])) home \<longleftrightarrow> Q = P)
       \<and> (last P \<in> {''*'', ''**''}
          \<or> pathMatchesProtection (abs_path P) (abs_path (Q @ [q])) home = prefix P (Q @ [q]))"
  using match_double_star [of P "Q @ [q]" home] match_single_star [of P Q q home]
    match_plain [of P "Q @ [q]" home] assms
  by (auto simp del: abs_path_append)

lemma pattern_meaning_witness:
  "pathMatchesProtection (abs_path [''h'', ''skills'', ''**'']) (abs_path [''h'', ''skills'', ''a'']) ''/h''
   \<and> \<not> pathMatchesProtection (abs_path [''h'', ''*'']) (abs_path [''h'', ''skills'', ''a'']) ''/h''"
  using pattern_meaning [of "[''h'', ''skills'']" "[''h'', ''skills'']" "''a''" "''/h''"]
    pattern_meaning [of "[''h'']" "[''h'', ''skills'']" "''a''" "''/h''"]
  by (simp add: valid_seg_def sep_def dot_def dotdot_def)

text \<open>The ranked list of policy matches is ordered (do-not-touch before allowances before
  standing consents, longer patterns first within a kind), contains a do-not-touch match exactly
  when a do-not-touch rule hits the target, and then starts with one.\<close>

lemma matchPolicy_ranked:
  "sorted_wrt ranks_before (matchPolicy t pol)
   \<and> ((\<exists>m \<in> set (matchPolicy t pol). pm_type m = DoNotTouch)
        = (t \<noteq> [] \<and> (\<exists>r \<in> set (pol_doNotTouch pol). rule_hits (pol_home pol) t r)))
   \<and> (if \<exists>m \<in> set (matchPolicy t pol). pm_type m = DoNotTouch
      then pm_type (hd (matchPolicy t pol)) = DoNotTouch else True)"
proof -
  have "pm_type (hd (matchPolicy t pol)) = DoNotTouch"
    if m: "m \<in> set (matchPolicy t pol)" "pm_type m = DoNotTouch" for m
  proof (cases "matchPolicy t pol")
    case (Cons x xs)
    then have "m = x \<or> ranks_before x m" using m match_sorted [of t pol] by auto
    then show ?thesis using m(2) Cons by (cases "pm_type x") (auto simp: ranks_before_def)
  qed (use m in simp)
  then show ?thesis using match_sorted [of t pol] match_dnt [of t pol] by meson
qed

text \<open>A do-not-touch path written with a trailing slash protects nothing: no clean path, not even
  the directory itself or anything below it, matches the pattern.\<close>

lemma trailing_slash_unprotected:
  assumes "\<forall>s \<in> set P. valid_seg s" "P \<noteq> []" and "\<forall>s \<in> set Q. valid_seg s" "Q \<noteq> []"
  shows "\<not> pathMatchesProtection (abs_path P @ [sep]) (abs_path Q) home"
  using match_trailing_slash assms by blast

lemma trailing_slash_unprotected_witness:
  "\<not> pathMatchesProtection ''/h/skills/'' ''/h/skills/a'' ''/h''"
  using trailing_slash_unprotected [of "[''h'', ''skills'']" "[''h'', ''skills'', ''a'']" "''/h''"]
  by (simp add: valid_seg_def sep_def dot_def dotdot_def)

end
