(* ===== verification/Lock.thy ===== *)
theory Lock
  imports Fs
begin

text \<open>
  The lock protocol (scripts/lib/lock.mjs): the lockfile opened with O_EXCL, the staleness
  window, the single unlink-and-retry and the append-only history. First the code as a function
  on the file system, with the contract of one acquire and one release; then the same protocol
  as steps that two processes interleave, where it matters that reading the old lock and
  unlinking it are two calls.
\<close>

subsection \<open>Environment: clock, process, hash\<close>

record env =
  e_sha :: "string \<Rightarrow> string"            \<comment> \<open>sha256 hex digest\<close>
  e_iso :: "int \<Rightarrow> string"               \<comment> \<open>new Date(t).toISOString()\<close>
  e_date :: "string \<Rightarrow> int option"       \<comment> \<open>new Date(s).getTime(), None for NaN\<close>
  e_now :: int                          \<comment> \<open>Date.now()\<close>
  e_pid :: int
  e_host :: string
  e_lockId :: string                    \<comment> \<open>the id generateOpId() draws for the lock\<close>

definition dates_ok :: "env \<Rightarrow> bool" where
  "dates_ok e = (\<forall>t. e_date e (e_iso e t) = Some t)"

definition sample_env :: "int \<Rightarrow> env" where
  \<comment> \<open>a concrete environment at clock t, for examples: decimal dates, the identity as digest\<close>
  "sample_env t = \<lparr>e_sha = (\<lambda>x. x), e_iso = show_int, e_date = (\<lambda>x. Some (read_int x)), e_now = t,
     e_pid = 7, e_host = ''host'', e_lockId = ''op_7''\<rparr>"

definition LOCK_STALE_WINDOW_MS :: int where
  "LOCK_STALE_WINDOW_MS = 30 * 60 * 1000"

subsection \<open>The history log\<close>

definition appendHistoryLine :: "string \<Rightarrow> json \<Rightarrow> unit io" where
  "appendHistoryLine home record =
     swallowI (append_file (path_join [home, ''housekeeper'', ''lock.history''])
                 (json_stringify record @ [nl]))"

definition lock_holder :: "json \<Rightarrow> json" where
  "lock_holder m =
     JObj [(''pid'', opt_or (jget ''pid'' m) JNull), (''hostname'', opt_or (jget ''hostname'' m) JNull),
           (''startedAt'', opt_or (jget ''startedAt'' m) JNull)]"

definition acquire_record :: "env \<Rightarrow> json \<Rightarrow> json" where
  "acquire_record e m =
     JObj [(''ts'', JStr (e_iso e (e_now e))), (''pid'', JNum (e_pid e)),
           (''action'', JStr ''acquire''), (''holder'', lock_holder m)]"

definition release_record :: "env \<Rightarrow> json \<Rightarrow> string \<Rightarrow> json" where
  "release_record e m reason =
     JObj [(''ts'', JStr (e_iso e (e_now e))), (''pid'', JNum (e_pid e)),
           (''action'', JStr ''release''), (''holder'', lock_holder m),
           (''releaseReason'', if reason = [] then JNull else JStr reason)]"

subsection \<open>acquireLock and releaseLock\<close>

record lock_handle =
  lockPath :: string
  lockManifest :: json

definition lock_manifest :: "env \<Rightarrow> json" where
  "lock_manifest e =
     JObj [(''pid'', JNum (e_pid e)), (''hostname'', JStr (e_host e)), (''opId'', JStr (e_lockId e)),
           (''startedAt'', JStr (e_iso e (e_now e))),
           (''stalenessAt'', JStr (e_iso e (e_now e + LOCK_STALE_WINDOW_MS)))]"

definition open_excl :: "string \<Rightarrow> json \<Rightarrow> bool io" where
  \<comment> \<open>_openExcl: True when created, False on EEXIST, every other error is rethrown\<close>
  "open_excl lp m s =
     (if fget lp s \<noteq> None then (Inr False, s)
      else if parent_is_dir s lp
      then (Inr True, fput lp (File (json_pretty m @ [nl]) default_mode) s)
      else (Inl (ENOENT lp), s))"

definition staleness_ms :: "env \<Rightarrow> json \<Rightarrow> int option" where
  "staleness_ms e existing =
     (case jstr (jget ''stalenessAt'' existing) of
        Some t \<Rightarrow> e_date e t
      | None \<Rightarrow>
          (case jstr (jget ''startedAt'' existing) of
             Some t \<Rightarrow> map_option (\<lambda>ms. ms + LOCK_STALE_WINDOW_MS) (e_date e t)
           | None \<Rightarrow> None))"

definition read_lock :: "fs \<Rightarrow> string \<Rightarrow> json option" where
  \<comment> \<open>the parsed lockfile; null when unreadable, unparsable or the literal null\<close>
  "read_lock s lp =
     (case read_json s lp of Inl e \<Rightarrow> None | Inr j \<Rightarrow> if j = JNull then None else Some j)"

definition lock_is_live :: "env \<Rightarrow> json option \<Rightarrow> bool" where
  "lock_is_live e existing =
     (case existing of None \<Rightarrow> False
      | Some j \<Rightarrow> (case staleness_ms e j of None \<Rightarrow> False | Some t \<Rightarrow> e_now e < t))"

definition unknown_racer :: json where
  "unknown_racer = JObj [(''pid'', JStr ''unknown''), (''hostname'', JStr ''unknown'')]"

definition acquireLock :: "env \<Rightarrow> string \<Rightarrow> lock_handle io" where
  "acquireLock e home =
     (let lockDir = path_join [home, ''housekeeper''];
          lp = path_join [lockDir, ''lock''];
          m = lock_manifest e;
          finish = bindI (appendHistoryLine home (acquire_record e m))
                     (\<lambda>_. returnI \<lparr>lockPath = lp, lockManifest = m\<rparr>)
      in bindI (mkdir_recursive lockDir) (\<lambda>_.
         bindI (open_excl lp m) (\<lambda>written.
           if written then finish
           else bindI (liftI (\<lambda>s. Inr (read_lock s lp))) (\<lambda>existing.
             if lock_is_live e existing then failI (LockHeldError (the existing))
             else bindI (swallowI (unlink_path lp)) (\<lambda>_.
                  bindI (open_excl lp m) (\<lambda>retried.
                    if retried then finish
                    else bindI (liftI (\<lambda>s. Inr (case read_json s lp of Inl x \<Rightarrow> unknown_racer | Inr j \<Rightarrow> j)))
                           (\<lambda>racer. failI (LockHeldError racer))))))))"

definition releaseLock :: "env \<Rightarrow> lock_handle \<Rightarrow> string \<Rightarrow> fs \<Rightarrow> fs" where
  "releaseLock e h reason s =
     snd (bindI (swallowI (unlink_path (lockPath h)))
            (\<lambda>_. appendHistoryLine (path_join [lockPath h, ''..'', ''..''])
                   (release_record e (lockManifest h) reason)) s)"

definition with_lock :: "env \<Rightarrow> string \<Rightarrow> string \<Rightarrow> 'a io \<Rightarrow> 'a io" where
  \<comment> \<open>const h = await acquireLock(home); try { body } finally { await releaseLock(h, reason) }\<close>
  "with_lock e home reason body =
     bindI (acquireLock e home) (\<lambda>h. finallyI body (releaseLock e h reason))"

subsection \<open>The contract of acquire and release\<close>

definition lock_path :: "string \<Rightarrow> string" where
  "lock_path home = path_join [path_join [home, ''housekeeper''], ''lock'']"

definition history_path :: "string \<Rightarrow> string" where
  "history_path home = path_join [home, ''housekeeper'', ''lock.history'']"

lemma hk_segs [simp]:
  "valid_seg ''housekeeper''" "valid_seg ''lock''" "valid_seg ''lock.history''"
  "valid_seg ''operations''" "valid_seg ''snapshots''" "valid_seg ''files''"
  "valid_seg ''.claude''" "valid_seg ''learning''"
  by (simp_all add: valid_seg_def sep_def dot_def dotdot_def)

lemma lock_path_clean:
  assumes "clean_home h H"
  shows "lock_path h = abs_path (H @ [''housekeeper'', ''lock''])"
    and "history_path h = abs_path (H @ [''housekeeper'', ''lock.history''])"
    and "path_join [lock_path h, ''..'', ''..''] = h"
    and "history_path h \<noteq> lock_path h"
proof -
  have c: "H \<noteq> []" "\<forall>s \<in> set H. valid_seg s" "h = abs_path H"
    using assms by (auto simp: clean_home_def)
  have ab: "path_join [h, ''housekeeper''] = abs_path (H @ [''housekeeper''])"
    unfolding c(3) by (rule path_join_abs) (use c in auto)
  have "path_join [abs_path (H @ [''housekeeper'']), ''lock''] = abs_path ((H @ [''housekeeper'']) @ [''lock''])"
    by (rule path_join_abs) (use c in auto)
  then show l: "lock_path h = abs_path (H @ [''housekeeper'', ''lock''])"
    unfolding lock_path_def ab by simp
  have "path_join (abs_path H # [''housekeeper'', ''lock.history'']) = abs_path (H @ [''housekeeper'', ''lock.history''])"
    by (rule path_join_abs_list) (use c in auto)
  then show hp: "history_path h = abs_path (H @ [''housekeeper'', ''lock.history''])"
    unfolding history_path_def c(3) .
  show "path_join [lock_path h, ''..'', ''..''] = h"
    unfolding l unfolding c(3) by (rule path_join_up2) (use c in auto)
  show "history_path h \<noteq> lock_path h"
    by (simp add: l hp)
qed

definition dir_creatable :: "fs \<Rightarrow> string \<Rightarrow> bool" where
  \<comment> \<open>no ancestor of d, nor d itself, is something other than a directory\<close>
  "dir_creatable s d = list_all (\<lambda>q. fget q s = None \<or> is_directory s q) (mkdirs_up (length d) d)"

definition plain_slot :: "fs \<Rightarrow> string \<Rightarrow> bool" where
  \<comment> \<open>p is absent or a regular file\<close>
  "plain_slot s p = (case fget p s of Some Dir \<Rightarrow> False | Some (Link t) \<Rightarrow> False | _ \<Rightarrow> True)"

definition home_ok :: "string \<Rightarrow> bool" where
  "home_ok h = (\<exists>H. clean_home h H)"

definition lock_env_ok :: "string \<Rightarrow> fs \<Rightarrow> bool" where
  \<comment> \<open>the lock and its history are plain files when present, their directory can be made\<close>
  "lock_env_ok h s =
     (home_ok h \<and> dir_creatable s (path_join [h, ''housekeeper''])
      \<and> plain_slot s (lock_path h) \<and> plain_slot s (history_path h))"

definition lock_held_by :: "string \<Rightarrow> json \<Rightarrow> fs \<Rightarrow> bool" where
  "lock_held_by h m s = (fget (lock_path h) s = Some (File (json_pretty m @ [nl]) default_mode))"

lemma lock_path_not_up:
  assumes "clean_home h H"
  shows "lock_path h \<notin> set (mkdirs_up n (path_join [h, ''housekeeper'']))"
    and "history_path h \<notin> set (mkdirs_up n (path_join [h, ''housekeeper'']))"
proof -
  have c: "H \<noteq> []" "\<forall>s \<in> set H. valid_seg s" "h = abs_path H"
    using assms by (auto simp: clean_home_def)
  have ab: "path_join [h, ''housekeeper''] = abs_path (H @ [''housekeeper''])"
    unfolding c(3) by (rule path_join_abs) (use c in auto)
  show "lock_path h \<notin> set (mkdirs_up n (path_join [h, ''housekeeper'']))"
    unfolding ab lock_path_clean(1) [OF assms] by (rule mkdirs_up_not) (use c in auto)
  show "history_path h \<notin> set (mkdirs_up n (path_join [h, ''housekeeper'']))"
    unfolding ab lock_path_clean(2) [OF assms] by (rule mkdirs_up_not) (use c in auto)
qed

lemma lock_dirname:
  assumes "clean_home h H"
  shows "dirname (lock_path h) = path_join [h, ''housekeeper'']"
proof -
  have c: "H \<noteq> []" "\<forall>s \<in> set H. valid_seg s" "h = abs_path H"
    using assms by (auto simp: clean_home_def)
  have "path_join [h, ''housekeeper''] = abs_path (H @ [''housekeeper''])"
    unfolding c(3) by (rule path_join_abs) (use c in auto)
  moreover have "dirname (abs_path ((H @ [''housekeeper'']) @ [''lock''])) = abs_path (H @ [''housekeeper''])"
    by (rule dirname_abs_path) (use c in auto)
  ultimately show ?thesis using lock_path_clean(1) [OF assms] by simp
qed

lemma read_lock_same:
  assumes "no_link s p" and "fget p s' = fget p s"
  shows "read_lock s' p = read_lock s p"
proof -
  have "stat_node s p = fget p s" "stat_node s' p = fget p s"
    using assms by (auto simp: no_link_def intro!: stat_node_direct)
  then show ?thesis by (simp add: read_lock_def read_json_def read_file_def)
qed

lemma history_frame:
  assumes "no_link s (history_path h)" and "appendHistoryLine h r s = (x, s')"
  shows "x = Inr ()" and "q \<noteq> history_path h \<Longrightarrow> fget q s' = fget q s"
    and "no_link s' (history_path h)"
proof -
  obtain y where y: "append_file (history_path h) (json_stringify r @ [nl]) s = (y, s')"
    and x: "x = Inr ()"
    using assms(2) unfolding appendHistoryLine_def swallowI_def history_path_def
    by (metis prod.collapse prod.inject)
  from x show "x = Inr ()" .
  show "q \<noteq> history_path h \<Longrightarrow> fget q s' = fget q s"
    by (rule append_file_frame [OF assms(1) y])
  show "no_link s' (history_path h)" by (rule append_file_no_link [OF assms(1) y])
qed

definition acquire_body :: "env \<Rightarrow> string \<Rightarrow> lock_handle io" where
  \<comment> \<open>acquireLock after its mkdir, over the two paths by name\<close>
  "acquire_body e home s =
     (if fget (lock_path home) s = None \<or> \<not> lock_is_live e (read_lock s (lock_path home))
      then (Inr \<lparr>lockPath = lock_path home, lockManifest = lock_manifest e\<rparr>,
            snd (appendHistoryLine home (acquire_record e (lock_manifest e))
                   (fput (lock_path home) (File (json_pretty (lock_manifest e) @ [nl]) default_mode)
                      (if fget (lock_path home) s = None then s else fdel (lock_path home) s))))
      else (Inl (LockHeldError (the (read_lock s (lock_path home)))), s))"

lemma append_history_ok: "fst (appendHistoryLine h r s) = Inr ()"
  by (simp add: appendHistoryLine_def swallowI_def)

lemma plain_slotD: "plain_slot s p \<Longrightarrow> no_link s p" "plain_slot s p \<Longrightarrow> fget p s \<noteq> Some Dir"
  by (auto simp: plain_slot_def no_link_def split: option.splits node.splits)

lemma plain_slot_same: "fget p s' = fget p s \<Longrightarrow> plain_slot s' p = plain_slot s p"
  by (simp add: plain_slot_def)

lemma plain_slot_put [simp]: "plain_slot (fput p (File c m) s) p" "plain_slot (fdel p s) p"
  by (simp_all add: plain_slot_def)

lemma follow_frame:
  "plain_slot s p \<Longrightarrow> (\<And>q. q \<noteq> p \<Longrightarrow> fget q s' = fget q s) \<Longrightarrow> follow n s d = Some Dir
   \<Longrightarrow> follow n s' d = Some Dir"
proof (induction n arbitrary: d)
  case (Suc n)
  show ?case
  proof (cases "d = p")
    case True
    with Suc.prems(1,3) show ?thesis
      by (auto simp: plain_slot_def split: option.splits node.splits)
  next
    case False
    with Suc show ?thesis by (auto split: option.splits node.splits)
  qed
qed simp

lemma is_directory_frame:
  "plain_slot s p \<Longrightarrow> (\<And>q. q \<noteq> p \<Longrightarrow> fget q s' = fget q s) \<Longrightarrow> is_directory s d \<Longrightarrow> is_directory s' d"
  unfolding is_directory_def stat_node_def by (rule follow_frame)

lemma parent_is_dir_fdel:
  "plain_slot s p \<Longrightarrow> parent_is_dir s q \<Longrightarrow> parent_is_dir (fdel p s) q"
  unfolding parent_is_dir_def by (rule is_directory_frame) auto

lemma dir_creatable_frame:
  "plain_slot s p \<Longrightarrow> (\<And>q. q \<noteq> p \<Longrightarrow> fget q s' = fget q s) \<Longrightarrow> p \<notin> set (mkdirs_up (length d) d)
   \<Longrightarrow> dir_creatable s d \<Longrightarrow> dir_creatable s' d"
  unfolding dir_creatable_def list_all_iff by (metis is_directory_frame)

lemma dir_creatable_mkdir:
  assumes "dir_creatable s d"
  obtains s1 where "mkdir_recursive d s = (Inr (), s1)"
  using assms by (auto simp: mkdir_recursive_def dir_creatable_def list_ex_iff list_all_iff)

lemma acquireLock_body:
  assumes "parent_is_dir s1 (lock_path h)" and "plain_slot s1 (lock_path h)"
    and "mkdir_recursive (path_join [h, ''housekeeper'']) s = (Inr u, s1)"
  shows "acquireLock e h s = acquire_body e h s1"
proof -
  have fin: "bindI (appendHistoryLine h r) (\<lambda>_. returnI x) t = (Inr x, snd (appendHistoryLine h r t))" for r x t
    using append_history_ok [of h r t]
    by (cases "appendHistoryLine h r t") (simp add: bindI_def returnI_def)
  show ?thesis
  proof (cases "fget (lock_path h) s1")
    case None
    then show ?thesis
      using assms
      by (simp add: acquireLock_def acquire_body_def Let_def fin open_excl_def bindI_def [of "mkdir_recursive _"]
          bindI_def [of "open_excl _ _"] flip: lock_path_def)
  next
    case (Some n)
    have p: "parent_is_dir (fdel (lock_path h) s1) (lock_path h)"
      using assms by (intro parent_is_dir_fdel)
    have u: "swallowI (unlink_path (lock_path h)) s1 = (Inr (), fdel (lock_path h) s1)"
      using Some assms by (cases n) (auto simp: swallowI_def unlink_path_def plain_slot_def)
    show ?thesis
      using Some p u assms
      by (simp add: acquireLock_def acquire_body_def Let_def fin open_excl_def bindI_def [of "mkdir_recursive _"]
          bindI_def [of "open_excl _ _"] bindI_def [of "liftI _"] bindI_def [of "swallowI _"] io_simps
          flip: lock_path_def)
  qed
qed

lemma acquire_mkdir:
  assumes "lock_env_ok h s"
  obtains s1 where "mkdir_recursive (path_join [h, ''housekeeper'']) s = (Inr (), s1)"
    "fget (lock_path h) s1 = fget (lock_path h) s" "fget (history_path h) s1 = fget (history_path h) s"
    "parent_is_dir s1 (lock_path h)" "lock_env_ok h s1"
    "\<And>q. fget q s1 = fget q s \<or> fget q s = None \<and> fget q s1 = Some Dir"
proof -
  let ?d = "path_join [h, ''housekeeper'']"
  obtain H where H: "clean_home h H" using assms(1) by (auto simp: lock_env_ok_def home_ok_def)
  obtain s1 where s1: "mkdir_recursive ?d s = (Inr (), s1)"
    using dir_creatable_mkdir assms unfolding lock_env_ok_def by blast
  note mk = mkdir_recursive_ok [OF s1] and up = lock_path_not_up [OF H]
  have a: "fget (lock_path h) s1 = fget (lock_path h) s" using mk(3) up(1) by metis
  have b: "fget (history_path h) s1 = fget (history_path h) s" using mk(3) up(2) by metis
  have c: "parent_is_dir s1 (lock_path h)"
    using mk(1) lock_dirname [OF H] by (simp add: parent_is_dir_def)
  have "fget q s1 = None \<or> is_directory s1 q" if "q \<in> set (mkdirs_up (length ?d) ?d)" for q
  proof (cases "fget q s")
    case None
    then have "fget q s1 = None \<or> fget q s1 = Some Dir" using mk(3) by metis
    then show ?thesis by (auto simp: is_directory_def stat_node_direct)
  next
    case Some
    then have "is_directory s q"
      using assms that unfolding lock_env_ok_def dir_creatable_def list_all_iff by auto
    then show ?thesis using is_directory_mono [of s s1 q] mk(2) by blast
  qed
  then have "dir_creatable s1 ?d" by (simp add: dir_creatable_def list_all_iff)
  then have d: "lock_env_ok h s1"
    using assms a b by (simp add: lock_env_ok_def plain_slot_def)
  have e: "fget q s1 = fget q s \<or> fget q s = None \<and> fget q s1 = Some Dir" for q
    using mk(2,3) by metis
  show ?thesis by (rule that [OF s1 a b c d e])
qed

lemma acquire_spec:
  assumes "lock_env_ok h s"
  obtains s1 where "acquireLock e h s = acquire_body e h s1" "lock_env_ok h s1"
    "fget (lock_path h) s1 = fget (lock_path h) s" "fget (history_path h) s1 = fget (history_path h) s"
    "\<And>q. fget q s1 = fget q s \<or> fget q s = None \<and> fget q s1 = Some Dir"
    "read_lock s1 (lock_path h) = read_lock s (lock_path h)"
proof -
  obtain s1 where s1: "mkdir_recursive (path_join [h, ''housekeeper'']) s = (Inr (), s1)"
    "fget (lock_path h) s1 = fget (lock_path h) s" "fget (history_path h) s1 = fget (history_path h) s"
    "parent_is_dir s1 (lock_path h)" "lock_env_ok h s1"
    "\<And>q. fget q s1 = fget q s \<or> fget q s = None \<and> fget q s1 = Some Dir"
    using acquire_mkdir [OF assms] by metis
  have "plain_slot s1 (lock_path h)" "plain_slot s (lock_path h)"
    using s1(5) assms by (auto simp: lock_env_ok_def)
  with acquireLock_body [OF s1(4) _ s1(1), of e] read_lock_same [of s "lock_path h" s1]
  show ?thesis using that s1 plain_slotD by blast
qed

definition lock_free :: "env \<Rightarrow> string \<Rightarrow> fs \<Rightarrow> bool" where
  \<comment> \<open>no lockfile, or one that is stale or unreadable\<close>
  "lock_free e h s = (fget (lock_path h) s = None \<or> \<not> lock_is_live e (read_lock s (lock_path h)))"

lemma acquire_refused:
  assumes "lock_env_ok h s" and "\<not> lock_free e h s"
  shows "fst (acquireLock e h s) = Inl (LockHeldError (the (read_lock s (lock_path h))))"
    and "fget (lock_path h) (snd (acquireLock e h s)) = fget (lock_path h) s"
    and "lock_env_ok h (snd (acquireLock e h s))"
proof -
  obtain s1 where 1: "acquireLock e h s = acquire_body e h s1" "lock_env_ok h s1"
    "fget (lock_path h) s1 = fget (lock_path h) s"
    "read_lock s1 (lock_path h) = read_lock s (lock_path h)"
    using acquire_spec [OF assms(1), of e] by metis
  then have "acquireLock e h s = (Inl (LockHeldError (the (read_lock s (lock_path h)))), s1)"
    using assms(2) by (simp add: acquire_body_def lock_free_def)
  then show "fst (acquireLock e h s) = Inl (LockHeldError (the (read_lock s (lock_path h))))"
    and "fget (lock_path h) (snd (acquireLock e h s)) = fget (lock_path h) s"
    and "lock_env_ok h (snd (acquireLock e h s))"
    using 1 by simp_all
qed

lemma lock_env_ok_frame:
  assumes "lock_env_ok h s" and "\<And>q. q \<noteq> p \<Longrightarrow> fget q s' = fget q s"
    and "p = lock_path h \<or> p = history_path h" and "plain_slot s' p"
  shows "lock_env_ok h s'"
proof -
  obtain H where H: "clean_home h H" using assms(1) by (auto simp: lock_env_ok_def home_ok_def)
  have "dir_creatable s' (path_join [h, ''housekeeper''])"
    using assms lock_path_not_up [OF H] by (auto simp: lock_env_ok_def intro!: dir_creatable_frame [of s p])
  moreover have "plain_slot s' q" if "q = lock_path h \<or> q = history_path h" for q
    using assms that plain_slot_same [of q s' s] by (cases "q = p") (auto simp: lock_env_ok_def)
  ultimately show ?thesis using assms(1) by (auto simp: lock_env_ok_def)
qed

lemma append_plain:
  "plain_slot s p \<Longrightarrow> append_file p text s = (r, s') \<Longrightarrow> plain_slot s' p"
  by (auto simp: append_file_def plain_slot_def no_link_def real_path_direct stat_node_direct
      split: option.splits node.splits if_splits)

lemma history_ok:
  assumes "lock_env_ok h s"
  shows "lock_env_ok h (snd (appendHistoryLine h r s))"
    and "q \<noteq> history_path h \<Longrightarrow> fget q (snd (appendHistoryLine h r s)) = fget q s"
proof -
  have p: "plain_slot s (history_path h)" using assms by (simp add: lock_env_ok_def)
  obtain y s' where y: "append_file (history_path h) (json_stringify r @ [nl]) s = (y, s')"
    by force
  then have s': "snd (appendHistoryLine h r s) = s'"
    by (simp add: appendHistoryLine_def swallowI_def history_path_def)
  have fr: "q \<noteq> history_path h \<Longrightarrow> fget q s' = fget q s" for q
    by (rule append_file_frame [OF plain_slotD(1) [OF p] y])
  then show "q \<noteq> history_path h \<Longrightarrow> fget q (snd (appendHistoryLine h r s)) = fget q s"
    by (simp add: s')
  show "lock_env_ok h (snd (appendHistoryLine h r s))"
    unfolding s' by (rule lock_env_ok_frame [OF assms, of "history_path h"]) (use fr append_plain [OF p y] in auto)
qed

definition handle_of :: "env \<Rightarrow> string \<Rightarrow> lock_handle" where
  "handle_of e h = \<lparr>lockPath = lock_path h, lockManifest = lock_manifest e\<rparr>"

lemma acquire_granted:
  assumes "lock_env_ok h s" and "lock_free e h s"
  shows "fst (acquireLock e h s) = Inr (handle_of e h)"
    and "lock_held_by h (lock_manifest e) (snd (acquireLock e h s))"
    and "lock_env_ok h (snd (acquireLock e h s))"
    and "q \<noteq> lock_path h \<Longrightarrow> q \<noteq> history_path h \<Longrightarrow> fget q s \<noteq> None
         \<Longrightarrow> fget q (snd (acquireLock e h s)) = fget q s"
proof -
  obtain s1 where 1: "acquireLock e h s = acquire_body e h s1" "lock_env_ok h s1"
    "fget (lock_path h) s1 = fget (lock_path h) s"
    "\<And>q. fget q s1 = fget q s \<or> fget q s = None \<and> fget q s1 = Some Dir"
    "read_lock s1 (lock_path h) = read_lock s (lock_path h)"
    using acquire_spec [OF assms(1), of e] by metis
  obtain H where H: "clean_home h H" using assms(1) by (auto simp: lock_env_ok_def home_ok_def)
  let ?s2 = "fput (lock_path h) (File (json_pretty (lock_manifest e) @ [nl]) default_mode)
               (if fget (lock_path h) s1 = None then s1 else fdel (lock_path h) s1)"
  have 2: "acquireLock e h s = (Inr (handle_of e h), snd (appendHistoryLine h (acquire_record e (lock_manifest e)) ?s2))"
    using 1 assms(2) by (auto simp: acquire_body_def lock_free_def handle_of_def)
  have ok2: "lock_env_ok h ?s2"
    by (rule lock_env_ok_frame [OF 1(2), of "lock_path h"]) auto
  show "fst (acquireLock e h s) = Inr (handle_of e h)" by (simp add: 2)
  show "lock_held_by h (lock_manifest e) (snd (acquireLock e h s))"
    using history_ok(2) [OF ok2, of "lock_path h"] lock_path_clean(4) [OF H]
    by (simp add: 2 lock_held_by_def)
  show "lock_env_ok h (snd (acquireLock e h s))"
    using history_ok(1) [OF ok2] by (simp add: 2)
  show "fget q (snd (acquireLock e h s)) = fget q s"
    if "q \<noteq> lock_path h" "q \<noteq> history_path h" "fget q s \<noteq> None"
    using history_ok(2) [OF ok2 that(2)] that 1(4) [of q] by (auto simp: 2)
qed

lemma release_ok:
  assumes "lock_env_ok h s" and "lockPath hl = lock_path h"
  shows "fget (lock_path h) (releaseLock e hl reason s) = None"
    and "lock_env_ok h (releaseLock e hl reason s)"
    and "q \<noteq> lock_path h \<Longrightarrow> q \<noteq> history_path h \<Longrightarrow> fget q (releaseLock e hl reason s) = fget q s"
proof -
  obtain H where H: "clean_home h H" using assms(1) by (auto simp: lock_env_ok_def home_ok_def)
  let ?s1 = "snd (swallowI (unlink_path (lock_path h)) s)"
  have g: "fget q ?s1 = (if q = lock_path h then None else fget q s)" for q
    using assms(1)
    by (cases "fget (lock_path h) s") (auto simp: swallowI_def unlink_path_def lock_env_ok_def plain_slot_def split: node.splits)
  have ok1: "lock_env_ok h ?s1"
    by (rule lock_env_ok_frame [OF assms(1), of "lock_path h"]) (auto simp: g plain_slot_def)
  have r: "releaseLock e hl reason s = snd (appendHistoryLine h (release_record e (lockManifest hl) reason) ?s1)"
    using lock_path_clean(3) [OF H] assms(2)
    by (simp add: releaseLock_def bindI_def swallowI_def)
  show "fget (lock_path h) (releaseLock e hl reason s) = None"
    using history_ok(2) [OF ok1, of "lock_path h"] lock_path_clean(4) [OF H] g by (simp add: r)
  show "lock_env_ok h (releaseLock e hl reason s)" using history_ok(1) [OF ok1] by (simp add: r)
  show "q \<noteq> lock_path h \<Longrightarrow> q \<noteq> history_path h \<Longrightarrow> fget q (releaseLock e hl reason s) = fget q s"
    using history_ok(2) [OF ok1, of q] g by (simp add: r)
qed

subsection \<open>The interface: one acquire, one release\<close>

locale lock_iface =
  fixes acquire :: "'s \<Rightarrow> ('x + 'h) \<times> 's"
    and release :: "'h \<Rightarrow> 's \<Rightarrow> 's"
    and ok :: "'s \<Rightarrow> bool"
    and available :: "'s \<Rightarrow> bool"
    and slot :: "'s \<Rightarrow> 'n option"
    and valid :: "'h \<Rightarrow> bool"
  assumes granted: "ok s \<Longrightarrow> available s \<Longrightarrow>
            \<exists>h s'. acquire s = (Inr h, s') \<and> valid h \<and> slot s' \<noteq> None \<and> ok s'"
    and refused: "ok s \<Longrightarrow> \<not> available s \<Longrightarrow>
            \<exists>x s'. acquire s = (Inl x, s') \<and> slot s' = slot s \<and> ok s'"
    and released: "ok s \<Longrightarrow> valid h \<Longrightarrow> slot (release h s) = None \<and> ok (release h s)"
begin

lemma acquire_iff: "ok s \<Longrightarrow> (\<exists>h. fst (acquire s) = Inr h) \<longleftrightarrow> available s"
  using granted refused by (metis Inl_Inr_False fst_conv)

lemma acquire_keeps_ok: "ok s \<Longrightarrow> acquire s = (r, s') \<Longrightarrow> ok s'"
  using granted refused by (metis prod.inject)

lemma bracket:
  \<comment> \<open>acquire, a body that keeps ok, release: the slot is empty afterwards on every outcome of
      the body, and untouched when the acquire was refused\<close>
  assumes "ok s" and "\<And>h t. ok t \<Longrightarrow> valid h \<Longrightarrow> ok (snd (body h t))"
  shows "case acquire s of
           (Inl x, s') \<Rightarrow> \<not> available s \<and> slot s' = slot s \<and> ok s'
         | (Inr h, s') \<Rightarrow> available s \<and> slot (release h (snd (body h s'))) = None
                         \<and> ok (release h (snd (body h s')))"
proof (cases "available s")
  case True
  then obtain h s' where "acquire s = (Inr h, s')" "valid h" "ok s'" using granted assms(1) by blast
  with True assms(2) released show ?thesis by auto
next
  case False
  then obtain x s' where "acquire s = (Inl x, s')" "slot s' = slot s" "ok s'" using refused assms(1) by blast
  with False show ?thesis by auto
qed

end

interpretation lk: lock_iface "acquireLock e h" "\<lambda>hl. releaseLock e hl reason" "lock_env_ok h"
    "lock_free e h" "fget (lock_path h)" "\<lambda>hl. lockPath hl = lock_path h"
  for e h reason
proof unfold_locales
  fix s
  assume a: "lock_env_ok h s" "lock_free e h s"
  note g = acquire_granted [OF a]
  from g(2) have "fget (lock_path h) (snd (acquireLock e h s)) \<noteq> None" by (simp add: lock_held_by_def)
  with g(1,3) show "\<exists>hl s'. acquireLock e h s = (Inr hl, s') \<and> lockPath hl = lock_path h
       \<and> fget (lock_path h) s' \<noteq> None \<and> lock_env_ok h s'"
    by (cases "acquireLock e h s") (simp add: handle_of_def)
next
  fix s
  assume a: "lock_env_ok h s" "\<not> lock_free e h s"
  show "\<exists>x s'. acquireLock e h s = (Inl x, s') \<and> fget (lock_path h) s' = fget (lock_path h) s
       \<and> lock_env_ok h s'"
    using acquire_refused [OF a] by (cases "acquireLock e h s") simp
next
  fix s and hl :: lock_handle
  assume "lock_env_ok h s" "lockPath hl = lock_path h"
  then show "fget (lock_path h) (releaseLock e hl reason s) = None \<and> lock_env_ok h (releaseLock e hl reason s)"
    using release_ok by blast
qed

lemma with_lock_run:
  "with_lock e h reason body s =
     (case acquireLock e h s of
        (Inl x, s') \<Rightarrow> (Inl x, s')
      | (Inr hl, s') \<Rightarrow> (fst (body s'), releaseLock e hl reason (snd (body s'))))"
  by (simp add: with_lock_def bindI_def finallyI_run split: prod.splits sum.splits)

text \<open>When the lock our own manifest wrote is read back: live inside the window, stale after.\<close>

lemma json_plain_manifest: "json_plain (lock_manifest e)"
  by (simp add: lock_manifest_def)

lemma held_read:
  assumes "lock_held_by h (lock_manifest e) s"
  shows "read_lock s (lock_path h) = Some (lock_manifest e)"
proof -
  have "read_file s (lock_path h) = Inr (json_pretty (lock_manifest e) @ [nl])"
    using assms unfolding lock_held_by_def by (rule read_file_direct)
  moreover have "json_parse (json_pretty (lock_manifest e) @ [nl]) = Some (lock_manifest e)"
    by (rule json_parse_pretty_nl [OF json_plain_manifest])
  ultimately show ?thesis by (simp add: read_lock_def read_json_def lock_manifest_def)
qed

lemma held_live:
  assumes "lock_held_by h (lock_manifest e) s" and "\<forall>t. e_date e' (e_iso e t) = Some t"
  shows "lock_free e' h s \<longleftrightarrow> e_now e + LOCK_STALE_WINDOW_MS \<le> e_now e'"
proof -
  have "fget (lock_path h) s \<noteq> None" using assms(1) by (simp add: lock_held_by_def)
  moreover have "staleness_ms e' (lock_manifest e) = Some (e_now e + LOCK_STALE_WINDOW_MS)"
    using assms(2) by (simp add: staleness_ms_def lock_manifest_def)
  ultimately show ?thesis
    by (auto simp: lock_free_def lock_is_live_def held_read [OF assms(1)])
qed

subsection \<open>A concrete home\<close>

definition sample_home :: fs where
  "sample_home = [(''/'', Dir), (''/h'', Dir)]"

lemma home_ok_h: "home_ok ''/h''"
  by (auto simp: home_ok_def clean_home_def valid_seg_def sep_def dot_def dotdot_def intro!: exI [of _ "[''h'']"])

lemma sample_env_ok: "lock_env_ok ''/h'' sample_home"
proof -
  have "dir_creatable sample_home (path_join [''/h'', ''housekeeper''])" by code_simp
  moreover have "plain_slot sample_home (lock_path ''/h'')" "plain_slot sample_home (history_path ''/h'')"
    by code_simp+
  ultimately show ?thesis by (simp add: lock_env_ok_def home_ok_h)
qed

lemma sample_free: "lock_free e ''/h'' sample_home"
proof -
  have "fget (lock_path ''/h'') sample_home = None" by code_simp
  then show ?thesis by (simp add: lock_free_def)
qed

subsection \<open>Properties\<close>

text \<open>C31: One attempt to take the lock, without interference: it is granted exactly when there is no
  lockfile, or one that is stale or unreadable; a granted lock is on disk with the caller's
  manifest, and a refused attempt names the holder and leaves the lockfile as it was.\<close>

theorem acquire_exclusive:
  assumes "lock_env_ok h s"
  shows "if lock_free e h s
    then fst (acquireLock e h s) = Inr (handle_of e h)
       \<and> lock_held_by h (lock_manifest e) (snd (acquireLock e h s))
    else fst (acquireLock e h s) = Inl (LockHeldError (the (read_lock s (lock_path h))))
       \<and> fget (lock_path h) (snd (acquireLock e h s)) = fget (lock_path h) s"
  using acquire_granted(1,2) [OF assms] acquire_refused(1,2) [OF assms] by simp

lemma acquire_exclusive_witness:
  "lock_held_by ''/h'' (lock_manifest (sample_env 5)) (snd (acquireLock (sample_env 5) ''/h'' sample_home))"
  using acquire_exclusive [OF sample_env_ok, of "sample_env 5"] sample_free by simp

text \<open>The thirty-minute window: after one process was granted the lock, an attempt by another
  succeeds exactly when its clock has reached the start time plus the window; before that it is
  refused with the first process's manifest.\<close>

lemma lock_window:
  assumes "lock_env_ok h s" "lock_free e h s" and "\<forall>t. e_date e' (e_iso e t) = Some t"
  shows "fst (acquireLock e' h (snd (acquireLock e h s)))
       = (if e_now e + LOCK_STALE_WINDOW_MS \<le> e_now e' then Inr (handle_of e' h)
          else Inl (LockHeldError (lock_manifest e)))"
proof -
  note g = acquire_granted [OF assms(1,2)]
  show ?thesis
    using held_live [OF g(2) assms(3)] held_read [OF g(2)]
      acquire_granted(1) [OF g(3), of e'] acquire_refused(1) [OF g(3), of e'] by simp
qed

lemma lock_window_witness:
  "fst (acquireLock (sample_env 1799999) ''/h'' (snd (acquireLock (sample_env 0) ''/h'' sample_home)))
   = Inl (LockHeldError (lock_manifest (sample_env 0)))"
  using lock_window [OF sample_env_ok sample_free, of "sample_env 1799999" "sample_env 0"]
  by (simp add: sample_env_def LOCK_STALE_WINDOW_MS_def)

text \<open>C39: The try/finally bracket around every mutating command: when the lock is granted the lockfile
  is gone afterwards on every outcome of the body, thrown errors included, and the body's result
  is the result; when it is refused the body does not run and the lockfile is unchanged.\<close>

theorem lock_bracket:
  assumes "lock_env_ok h s" and "\<And>t. lock_env_ok h t \<Longrightarrow> lock_env_ok h (snd (body t))"
  shows "if lock_free e h s
    then fget (lock_path h) (snd (with_lock e h reason body s)) = None
       \<and> fst (with_lock e h reason body s) = fst (body (snd (acquireLock e h s)))
    else fget (lock_path h) (snd (with_lock e h reason body s)) = fget (lock_path h) s
       \<and> fst (with_lock e h reason body s) = Inl (LockHeldError (the (read_lock s (lock_path h))))"
  using lk.bracket [OF assms(1), of "\<lambda>hl. body" e reason] assms(2)
    acquire_refused(1) [OF assms(1), of e]
  by (auto simp: with_lock_run split: prod.splits sum.splits if_splits)

lemma lock_bracket_witness:
  "fget (lock_path ''/h'') (snd (with_lock (sample_env 5) ''/h'' ''x''
     (failI (TypeError ''boom'') :: unit io) sample_home)) = None"
  using lock_bracket [OF sample_env_ok, of "failI (TypeError ''boom'') :: unit io" "sample_env 5" "''x''"]
    sample_free by (simp add: failI_def)

end
