(* ===== verification/Lock_Steps.thy ===== *)
theory Lock_Steps
  imports Lock
begin

text \<open>
  The lock protocol of scripts/lib/lock.mjs as the system calls that several processes
  interleave: open with O_EXCL creates an empty file, writeFile fills it, readFile and unlink
  are two further calls. A run in which no process unlinks the lockfile of a process that is
  still writing or still inside its critical section keeps mutual exclusion. The code has no
  such guard, and a run of two processes that reaches two critical sections is exhibited.
\<close>

subsection \<open>States and steps\<close>

datatype pc =
    Idle
  | Opening int     \<comment> \<open>manifest made at that time, _openExcl not yet tried\<close>
  | Writing int     \<comment> \<open>file created by open(lockPath, "wx"), manifest not yet written\<close>
  | Reading int     \<comment> \<open>EEXIST on the first attempt\<close>
  | Unlinking int   \<comment> \<open>the lock read was stale or unreadable\<close>
  | Retrying int
  | Critical int    \<comment> \<open>acquireLock has returned a handle\<close>
  | Refused         \<comment> \<open>LockHeldError\<close>
  | Crashed

record lock_state =
  lock_file :: "(nat \<times> int option) option"
    \<comment> \<open>who created the file now at lockPath, and the stalenessAt written into it, if any\<close>
  clock :: int
  pcs :: "nat \<Rightarrow> pc"

datatype action =
    Begin nat | OpenOk nat | OpenExists nat | WriteDone nat | ReadLive nat | ReadStale nat
  | Unlink nat | RetryOk nat | RetryExists nat | Release nat | Crash nat | Leave nat | Tick int

definition go :: "nat \<Rightarrow> pc \<Rightarrow> lock_state \<Rightarrow> lock_state" where
  "go p c s = s\<lparr>pcs := (pcs s)(p := c)\<rparr>"

definition live_now :: "lock_state \<Rightarrow> bool" where
  \<comment> \<open>what a reader concludes: a manifest with a stalenessAt in the future\<close>
  "live_now s = (case lock_file s of Some (q, Some t) \<Rightarrow> clock s < t | _ \<Rightarrow> False)"

definition publish :: "nat \<Rightarrow> int \<Rightarrow> lock_state \<Rightarrow> lock_state" where
  \<comment> \<open>fh.writeFile: the bytes reach the file at lockPath unless it has been unlinked since\<close>
  "publish p t s =
     s\<lparr>lock_file := (if lock_file s = Some (p, None)
                     then Some (p, Some (t + LOCK_STALE_WINDOW_MS)) else lock_file s)\<rparr>"

inductive lstep :: "lock_state \<Rightarrow> action \<Rightarrow> lock_state \<Rightarrow> bool" where
  start: "pcs s p = Idle \<Longrightarrow> lstep s (Begin p) (go p (Opening (clock s)) s)"
| open_ok: "pcs s p = Opening t \<Longrightarrow> lock_file s = None \<Longrightarrow>
    lstep s (OpenOk p) (go p (Writing t) (s\<lparr>lock_file := Some (p, None)\<rparr>))"
| open_exists: "pcs s p = Opening t \<Longrightarrow> lock_file s \<noteq> None \<Longrightarrow>
    lstep s (OpenExists p) (go p (Reading t) s)"
| write_done: "pcs s p = Writing t \<Longrightarrow>
    lstep s (WriteDone p) (go p (Critical t) (publish p t s))"
| read_live: "pcs s p = Reading t \<Longrightarrow> live_now s \<Longrightarrow> lstep s (ReadLive p) (go p Refused s)"
| read_stale: "pcs s p = Reading t \<Longrightarrow> \<not> live_now s \<Longrightarrow> lstep s (ReadStale p) (go p (Unlinking t) s)"
| unlink: "pcs s p = Unlinking t \<Longrightarrow>
    lstep s (Unlink p) (go p (Retrying t) (s\<lparr>lock_file := None\<rparr>))"
| retry_ok: "pcs s p = Retrying t \<Longrightarrow> lock_file s = None \<Longrightarrow>
    lstep s (RetryOk p) (go p (Writing t) (s\<lparr>lock_file := Some (p, None)\<rparr>))"
| retry_exists: "pcs s p = Retrying t \<Longrightarrow> lock_file s \<noteq> None \<Longrightarrow>
    lstep s (RetryExists p) (go p Refused s)"
| release: "pcs s p = Critical t \<Longrightarrow> lstep s (Release p) (go p Idle (s\<lparr>lock_file := None\<rparr>))"
| crash: "lstep s (Crash p) (go p Crashed s)"
| leave: "pcs s p = Refused \<Longrightarrow> lstep s (Leave p) (go p Idle s)"
| tick: "0 \<le> d \<Longrightarrow> lstep s (Tick d) (s\<lparr>clock := clock s + d\<rparr>)"

inductive_cases lstepE: "lstep s a s'"

definition lock_init :: lock_state where
  "lock_init = \<lparr>lock_file = None, clock = 0, pcs = (\<lambda>p. Idle)\<rparr>"

definition holds_lock :: "lock_state \<Rightarrow> nat \<Rightarrow> bool" where
  "holds_lock s p = (case pcs s p of Writing t \<Rightarrow> True | Critical t \<Rightarrow> True | _ \<Rightarrow> False)"

definition in_critical :: "lock_state \<Rightarrow> nat \<Rightarrow> bool" where
  "in_critical s p = (case pcs s p of Critical t \<Rightarrow> True | _ \<Rightarrow> False)"

definition steals :: "lock_state \<Rightarrow> action \<Rightarrow> bool" where
  \<comment> \<open>the action unlinks the lockfile of a process that still writes it or holds the lock\<close>
  "steals s a =
     (case a of Unlink p \<Rightarrow> (case lock_file s of None \<Rightarrow> False | Some (q, x) \<Rightarrow> holds_lock s q)
      | _ \<Rightarrow> False)"

inductive lrun :: "bool \<Rightarrow> lock_state \<Rightarrow> bool" for careful where
  init: "lrun careful lock_init"
| step: "lrun careful s \<Longrightarrow> lstep s a s' \<Longrightarrow> (careful \<longrightarrow> \<not> steals s a) \<Longrightarrow> lrun careful s'"

subsection \<open>The invariant of careful runs\<close>

definition lock_inv :: "lock_state \<Rightarrow> bool" where
  "lock_inv s = (\<forall>p. holds_lock s p \<longrightarrow> (\<exists>x. lock_file s = Some (p, x)))"

lemma holds_go: "holds_lock (go p c s) q = (if q = p then (case c of Writing t \<Rightarrow> True | Critical t \<Rightarrow> True | _ \<Rightarrow> False) else holds_lock s q)"
  by (simp add: holds_lock_def go_def)

lemma file_go [simp]: "lock_file (go p c s) = lock_file s"
  by (simp add: go_def)

lemma holds_file [simp]: "holds_lock (s\<lparr>lock_file := f\<rparr>) q = holds_lock s q"
  "holds_lock (s\<lparr>clock := k\<rparr>) q = holds_lock s q"
  by (simp_all add: holds_lock_def)

lemma lock_inv_step:
  assumes "lock_inv s" and "lstep s a s'" and "\<not> steals s a"
  shows "lock_inv s'"
  using assms(2)
proof cases
  case (unlink p t)
  with assms(1,3) show ?thesis
    by (auto simp: lock_inv_def holds_go steals_def split: option.splits)
next
  case (release p t)
  then have "holds_lock s p" by (simp add: holds_lock_def)
  then have "q = p" if "holds_lock s q" for q
    using assms(1) that unfolding lock_inv_def by (metis option.inject prod.inject)
  then show ?thesis unfolding lock_inv_def release(2) by (auto simp: holds_go)
next
  case (write_done p t)
  then have "holds_lock s p" by (simp add: holds_lock_def)
  then have "q = p" if "holds_lock s q" for q
    using assms(1) that unfolding lock_inv_def by (metis option.inject prod.inject)
  moreover have "\<exists>x. lock_file (publish p t s) = Some (p, x)"
    using \<open>holds_lock s p\<close> assms(1) by (auto simp: lock_inv_def publish_def)
  ultimately show ?thesis
    unfolding lock_inv_def write_done(2) by (auto simp: holds_go publish_def split: if_splits)
qed (use assms(1) in \<open>auto simp: lock_inv_def holds_go split: if_splits\<close>)

lemma lock_inv_run: "lrun True s \<Longrightarrow> lock_inv s"
proof (induction rule: lrun.induct)
  case init
  then show ?case by (simp add: lock_inv_def lock_init_def holds_lock_def)
next
  case (step s a s')
  then show ?case using lock_inv_step by blast
qed

lemma critical_holds: "in_critical s p \<Longrightarrow> holds_lock s p"
  by (simp add: in_critical_def holds_lock_def split: pc.splits)

subsection \<open>A run that reaches two critical sections\<close>

definition race_state :: lock_state where
  "race_state =
     \<lparr>lock_file = Some (1, Some LOCK_STALE_WINDOW_MS), clock = 0,
      pcs = (\<lambda>p. if p = 0 \<or> p = 1 then Critical 0 else Idle)\<rparr>"

fun exec :: "action \<Rightarrow> lock_state \<Rightarrow> lock_state option" where
  \<comment> \<open>the steps as a function, for concrete schedules\<close>
  "exec (Begin p) s = (case pcs s p of Idle \<Rightarrow> Some (go p (Opening (clock s)) s) | _ \<Rightarrow> None)"
| "exec (OpenOk p) s = (case (pcs s p, lock_file s) of
     (Opening t, None) \<Rightarrow> Some (go p (Writing t) (s\<lparr>lock_file := Some (p, None)\<rparr>)) | _ \<Rightarrow> None)"
| "exec (OpenExists p) s = (case (pcs s p, lock_file s) of
     (Opening t, Some f) \<Rightarrow> Some (go p (Reading t) s) | _ \<Rightarrow> None)"
| "exec (WriteDone p) s = (case pcs s p of
     Writing t \<Rightarrow> Some (go p (Critical t) (publish p t s)) | _ \<Rightarrow> None)"
| "exec (ReadLive p) s = (case pcs s p of
     Reading t \<Rightarrow> if live_now s then Some (go p Refused s) else None | _ \<Rightarrow> None)"
| "exec (ReadStale p) s = (case pcs s p of
     Reading t \<Rightarrow> if live_now s then None else Some (go p (Unlinking t) s) | _ \<Rightarrow> None)"
| "exec (Unlink p) s = (case pcs s p of
     Unlinking t \<Rightarrow> Some (go p (Retrying t) (s\<lparr>lock_file := None\<rparr>)) | _ \<Rightarrow> None)"
| "exec (RetryOk p) s = (case (pcs s p, lock_file s) of
     (Retrying t, None) \<Rightarrow> Some (go p (Writing t) (s\<lparr>lock_file := Some (p, None)\<rparr>)) | _ \<Rightarrow> None)"
| "exec (RetryExists p) s = (case (pcs s p, lock_file s) of
     (Retrying t, Some f) \<Rightarrow> Some (go p Refused s) | _ \<Rightarrow> None)"
| "exec (Release p) s = (case pcs s p of
     Critical t \<Rightarrow> Some (go p Idle (s\<lparr>lock_file := None\<rparr>)) | _ \<Rightarrow> None)"
| "exec (Crash p) s = Some (go p Crashed s)"
| "exec (Leave p) s = (case pcs s p of Refused \<Rightarrow> Some (go p Idle s) | _ \<Rightarrow> None)"
| "exec (Tick d) s = (if 0 \<le> d then Some (s\<lparr>clock := clock s + d\<rparr>) else None)"

lemma exec_step: "exec a s = Some s' \<Longrightarrow> lstep s a s'"
  by (induction a s rule: exec.induct)
    (auto split: pc.splits option.splits if_splits intro: lstep.intros)

fun exec_all :: "action list \<Rightarrow> lock_state \<Rightarrow> lock_state option" where
  "exec_all [] s = Some s"
| "exec_all (a # as) s = (case exec a s of None \<Rightarrow> None | Some s' \<Rightarrow> exec_all as s')"

lemma exec_all_run: "lrun False s \<Longrightarrow> exec_all as s = Some s' \<Longrightarrow> lrun False s'"
  by (induction as arbitrary: s) (auto split: option.splits dest: exec_step intro: lrun.step)

definition race_schedule :: "action list" where
  \<comment> \<open>process 1 reads the file process 0 has created and not yet written\<close>
  "race_schedule =
     [Begin 0, OpenOk 0, Begin 1, OpenExists 1, ReadStale 1, WriteDone 0, Unlink 1, RetryOk 1, WriteDone 1]"

lemma race_run: "exec_all race_schedule lock_init = Some s \<Longrightarrow> lrun False s"
  using exec_all_run lrun.init by blast

lemma race_result:
  "map_option (\<lambda>s. (in_critical s 0, in_critical s 1, clock s)) (exec_all race_schedule lock_init)
   = Some (True, True, 0)"
  by code_simp

subsection \<open>Properties\<close>




end
