(* ===== verification/Lock_Progress.thy ===== *)
theory Lock_Progress
  imports Lock_Steps
begin

text \<open>
  Progress of the lock protocol: the staleness window bounds the time a crashed or stopped
  holder can keep others out, and a process that runs alone after it enters its critical section
  within eight of its own steps, whatever state the others were stopped in.
\<close>

subsection \<open>Times\<close>

definition pc_time :: "pc \<Rightarrow> int option" where
  "pc_time c = (case c of Opening t \<Rightarrow> Some t | Writing t \<Rightarrow> Some t | Reading t \<Rightarrow> Some t
     | Unlinking t \<Rightarrow> Some t | Retrying t \<Rightarrow> Some t | Critical t \<Rightarrow> Some t | _ \<Rightarrow> None)"

definition times_ok :: "lock_state \<Rightarrow> bool" where
  "times_ok s =
     ((\<forall>p t. pc_time (pcs s p) = Some t \<longrightarrow> t \<le> clock s) \<and>
      (\<forall>q t. lock_file s = Some (q, Some t) \<longrightarrow> t \<le> clock s + LOCK_STALE_WINDOW_MS))"

lemma clock_go [simp]: "clock (go p c s) = clock s"
  by (simp add: go_def)

lemma pcs_go: "pcs (go p c s) q = (if q = p then c else pcs s q)"
  by (simp add: go_def)

lemma publish_simps [simp]: "clock (publish p t s) = clock s" "pcs (publish p t s) = pcs s"
  by (simp_all add: publish_def)

lemma times_go:
  assumes "times_ok s" and "\<And>t. pc_time c = Some t \<Longrightarrow> t \<le> clock s"
  shows "times_ok (go p c s)"
  using assms by (auto simp: times_ok_def pcs_go)

lemma times_file:
  assumes "times_ok s" and "\<And>q t. f = Some (q, Some t) \<Longrightarrow> t \<le> clock s + LOCK_STALE_WINDOW_MS"
  shows "times_ok (s\<lparr>lock_file := f\<rparr>)"
  using assms by (auto simp: times_ok_def)

lemma times_pc: "times_ok s \<Longrightarrow> pc_time (pcs s p) = Some t \<Longrightarrow> t \<le> clock s"
  by (auto simp: times_ok_def)

lemma times_pcs:
  assumes "times_ok s"
  shows "pcs s p = Opening t \<Longrightarrow> t \<le> clock s" "pcs s p = Writing t \<Longrightarrow> t \<le> clock s"
    "pcs s p = Reading t \<Longrightarrow> t \<le> clock s" "pcs s p = Unlinking t \<Longrightarrow> t \<le> clock s"
    "pcs s p = Retrying t \<Longrightarrow> t \<le> clock s"
  using times_pc [OF assms, of p t] by (simp_all add: pc_time_def)

lemma times_step: "times_ok s \<Longrightarrow> lstep s a s' \<Longrightarrow> times_ok s'"
proof (erule lstep.cases)
  fix s0 d
  assume "times_ok s" "s = s0" "s' = s0\<lparr>clock := clock s0 + d\<rparr>" "0 \<le> d"
  then show "times_ok s'"
    by (fastforce simp: times_ok_def)
next
  fix s0 p t
  assume s: "times_ok s" "s = s0" "s' = go p (Critical t) (publish p t s0)" "pcs s0 p = Writing t"
  then have "t \<le> clock s0"
    using times_pc [of s0 p t] by (simp add: pc_time_def)
  moreover have "times_ok (publish p t s0)"
    unfolding publish_def using s \<open>t \<le> clock s0\<close> by (intro times_file) (auto simp: times_ok_def split: if_splits)
  ultimately show "times_ok s'"
    using s by (auto intro!: times_go simp: pc_time_def)
qed (auto intro!: times_go times_file simp: pc_time_def dest: times_pcs)

lemma times_run: "lrun careful s \<Longrightarrow> times_ok s"
proof (induction rule: lrun.induct)
  case init
  then show ?case by (simp add: times_ok_def lock_init_def pc_time_def)
next
  case (step s a s')
  then show ?case using times_step by blast
qed

definition wait_time :: "lock_state \<Rightarrow> int" where
  \<comment> \<open>how long the lockfile now on disk stays live\<close>
  "wait_time s = (case lock_file s of Some (q, Some t) \<Rightarrow> max 0 (t - clock s) | _ \<Rightarrow> 0)"

definition wait :: "lock_state \<Rightarrow> lock_state" where
  "wait s = s\<lparr>clock := clock s + wait_time s\<rparr>"

lemma wait_step: "lstep s (Tick (wait_time s)) (wait s)"
  unfolding wait_def by (rule tick) (simp add: wait_time_def split: option.split)

lemma wait_not_live: "\<not> live_now (wait s)"
  by (auto simp: live_now_def wait_def wait_time_def split: option.splits)

lemma wait_bounded: "times_ok s \<Longrightarrow> wait_time s \<le> LOCK_STALE_WINDOW_MS"
  by (auto simp: wait_time_def times_ok_def LOCK_STALE_WINDOW_MS_def split: option.splits)

subsection \<open>Running alone\<close>

fun mover :: "action \<Rightarrow> nat option" where
  \<comment> \<open>the process that takes a step of the protocol; a crash and a tick are not steps of it\<close>
  "mover (Begin p) = Some p"
| "mover (OpenOk p) = Some p"
| "mover (OpenExists p) = Some p"
| "mover (WriteDone p) = Some p"
| "mover (ReadLive p) = Some p"
| "mover (ReadStale p) = Some p"
| "mover (Unlink p) = Some p"
| "mover (RetryOk p) = Some p"
| "mover (RetryExists p) = Some p"
| "mover (Release p) = Some p"
| "mover (Leave p) = Some p"
| "mover (Crash p) = None"
| "mover (Tick d) = None"

inductive alone :: "nat \<Rightarrow> nat \<Rightarrow> lock_state \<Rightarrow> lock_state \<Rightarrow> bool" for p where
  stay: "alone p 0 s s"
| move: "lstep s a t \<Longrightarrow> mover a = Some p \<Longrightarrow> alone p n t u \<Longrightarrow> alone p (Suc n) s u"

inductive_cases alone_0: "alone p 0 s u"
inductive_cases alone_Suc: "alone p (Suc n) s u"

definition entry_rank :: "nat \<Rightarrow> lock_state \<Rightarrow> nat" where
  \<comment> \<open>the steps to the critical section when no live lockfile stands in the way\<close>
  "entry_rank p s =
     (let free = (lock_file s = None)
      in case pcs s p of
           Idle \<Rightarrow> (if free then 3 else 6)
         | Opening t \<Rightarrow> (if free then 2 else 5)
         | Reading t \<Rightarrow> 4
         | Unlinking t \<Rightarrow> 3
         | Retrying t \<Rightarrow> (if free then 2 else 8)
         | Writing t \<Rightarrow> 1
         | Critical t \<Rightarrow> 0
         | Refused \<Rightarrow> (if free then 4 else 7)
         | Crashed \<Rightarrow> 0)"

lemma rank_le: "entry_rank p s \<le> 8"
  by (simp add: entry_rank_def Let_def split: pc.split)

lemma rank_enabled:
  assumes "pcs s p \<noteq> Crashed" "\<not> live_now s"
  shows "\<exists>a t. lstep s a t \<and> mover a = Some p"
proof (cases "pcs s p")
  case Idle
  then show ?thesis using start by fastforce
next
  case (Opening t)
  then show ?thesis using open_ok open_exists by (cases "lock_file s = None") fastforce+
next
  case (Writing t)
  then show ?thesis using write_done by fastforce
next
  case (Reading t)
  then show ?thesis using read_stale assms(2) by fastforce
next
  case (Unlinking t)
  then show ?thesis using unlink by fastforce
next
  case (Retrying t)
  then show ?thesis using retry_ok retry_exists by (cases "lock_file s = None") fastforce+
next
  case (Critical t)
  then show ?thesis using release by fastforce
next
  case Refused
  then show ?thesis using leave by fastforce
qed (use assms in simp)

lemma live_go [simp]: "live_now (go p c s) = live_now s"
  by (simp add: live_now_def split: option.split)

lemma rank_decreases:
  assumes "lstep s a t" "mover a = Some p" "\<not> live_now s" "entry_rank p s = Suc n"
  shows "entry_rank p t = n \<and> pcs t p \<noteq> Crashed \<and> (n = 0 \<or> \<not> live_now t)"
  using assms
  by cases (auto simp: entry_rank_def pcs_go live_now_def split: if_splits option.splits)

lemma alone_exists:
  "pcs s p \<noteq> Crashed \<Longrightarrow> \<not> live_now s \<Longrightarrow> entry_rank p s = n \<Longrightarrow> \<exists>u. alone p n s u"
proof (induction n arbitrary: s)
  case 0
  then show ?case using alone.stay by blast
next
  case (Suc n)
  obtain a t where t: "lstep s a t" "mover a = Some p"
    using rank_enabled Suc.prems by blast
  with rank_decreases [OF t] Suc.prems have r: "entry_rank p t = n" "pcs t p \<noteq> Crashed" "n = 0 \<or> \<not> live_now t"
    by auto
  have "\<exists>u. alone p n t u"
  proof (cases "n = 0")
    case True
    then show ?thesis using alone.stay by blast
  next
    case False
    with r(3) have "\<not> live_now t" by simp
    from Suc.IH [OF r(2) this r(1)] show ?thesis .
  qed
  then show ?case using t alone.move by blast
qed

lemma alone_enters:
  "alone p n s u \<Longrightarrow> pcs s p \<noteq> Crashed \<Longrightarrow> (n = 0 \<or> \<not> live_now s) \<Longrightarrow> entry_rank p s = n \<Longrightarrow> in_critical u p"
proof (induction rule: alone.induct)
  case (stay s)
  then show ?case
    by (auto simp: entry_rank_def in_critical_def Let_def split: pc.splits if_splits)
next
  case (move s a t n u)
  have "\<not> live_now s"
    using move.prems(2) by simp
  then show ?case
    using rank_decreases [OF move.hyps(1,2)] move.IH move.prems(3) by blast
qed

text \<open>C24: The lock recovers from any stopped holder: in every reachable state of any number of
  processes, once the others stop for good, waiting at most the staleness window makes the
  lockfile stale, and from then on a process that has not crashed enters its critical section
  after a number of its own steps that is fixed by the state and is at most eight; no choice of
  its steps can miss it.\<close>

theorem lock_recovers:
  assumes "lrun careful s" and "pcs s p \<noteq> Crashed"
  shows "lstep s (Tick (wait_time s)) (wait s) \<and> wait_time s \<le> LOCK_STALE_WINDOW_MS \<and>
    entry_rank p (wait s) \<le> 8 \<and> (\<exists>u. alone p (entry_rank p (wait s)) (wait s) u) \<and>
    (\<forall>u. alone p (entry_rank p (wait s)) (wait s) u \<longrightarrow> in_critical u p)"
proof -
  have "pcs (wait s) p \<noteq> Crashed"
    using assms(2) by (simp add: wait_def)
  then show ?thesis
    using wait_step wait_bounded [OF times_run [OF assms(1)]] rank_le
      alone_exists [OF _ wait_not_live refl] alone_enters wait_not_live by blast
qed

definition crashed_holder :: lock_state where
  \<comment> \<open>process 0 has entered and crashed\<close>
  "crashed_holder = \<lparr>lock_file = Some (0, Some LOCK_STALE_WINDOW_MS), clock = 0,
     pcs = (\<lambda>q. Idle)(0 := Crashed)\<rparr>"

theorem lock_recovers_witness:
  "lrun True crashed_holder \<and> wait_time crashed_holder = LOCK_STALE_WINDOW_MS \<and>
   entry_rank 1 (wait crashed_holder) = 6 \<and>
   (\<exists>u. alone 1 6 (wait crashed_holder) u \<and> in_critical u 1)"
proof -
  let ?a = "go 0 (Opening 0) lock_init"
  let ?b = "go 0 (Writing 0) (?a\<lparr>lock_file := Some (0, None)\<rparr>)"
  let ?c = "go 0 (Critical 0) (publish 0 0 ?b)"
  have "lrun True ?a"
    using lrun.step [OF lrun.init start [of lock_init 0]] by (simp add: lock_init_def steals_def)
  then have "lrun True ?b"
    using lrun.step [OF _ open_ok [of ?a 0 0]] by (simp add: go_def lock_init_def steals_def)
  then have "lrun True ?c"
    using lrun.step [OF _ write_done [of ?b 0 0]] by (simp add: go_def steals_def)
  then have "lrun True (go 0 Crashed ?c)"
    using lrun.step [OF _ crash [of ?c 0]] by (simp add: steals_def)
  moreover have "go 0 Crashed ?c = crashed_holder"
    by (simp add: go_def publish_def lock_init_def crashed_holder_def)
  ultimately have run: "lrun True crashed_holder" by simp
  moreover have "wait_time crashed_holder = LOCK_STALE_WINDOW_MS"
    by (simp add: wait_time_def crashed_holder_def LOCK_STALE_WINDOW_MS_def)
  moreover have "entry_rank 1 (wait crashed_holder) = 6"
    by (simp add: entry_rank_def wait_def crashed_holder_def)
  ultimately show ?thesis
    using lock_recovers [OF run, of 1] by (auto simp: crashed_holder_def)
qed

end
