(* ===== verification/Atomic.thy ===== *)
theory Atomic
  imports Lock
begin

text \<open>
  Durable writes (atomicWrite and hashFile of scripts/lib/snapshot.mjs): the sequence of system
  calls write-temp, rename, with a crash possible after any prefix of it. The store of
  operation manifests the later theories use is an interface here, interpreted on atomicWrite.
\<close>

subsection \<open>hashFile\<close>

definition hashFile :: "env \<Rightarrow> fs \<Rightarrow> string \<Rightarrow> err + string" where
  "hashFile e s p =
     (case fget p s of
        None \<Rightarrow> Inl (ENOENT p)
      | Some (Link t) \<Rightarrow> Inr (e_sha e t)
      | Some Dir \<Rightarrow> Inl (EISDIR p)
      | Some (File c m) \<Rightarrow> Inr (e_sha e c))"

subsection \<open>The calls of atomicWrite\<close>

definition open_trunc :: "string \<Rightarrow> unit io" where
  \<comment> \<open>open(p, "w")\<close>
  "open_trunc p = write_file p []"

definition rename_path :: "string \<Rightarrow> string \<Rightarrow> unit io" where
  \<comment> \<open>rename(2): replaces the directory entry dst, a link at dst included\<close>
  "rename_path src dst s =
     (case fget src s of
        None \<Rightarrow> (Inl (ENOENT src), s)
      | Some n \<Rightarrow>
          if fget dst s = Some Dir then (Inl (EISDIR dst), s)
          else (Inr (), fput dst n (fdel src s)))"

fun seqI :: "unit io list \<Rightarrow> unit io" where
  "seqI [] = returnI ()"
| "seqI (m # ms) = bindI m (\<lambda>_. seqI ms)"

definition tmp_path :: "string \<Rightarrow> string \<Rightarrow> string" where
  "tmp_path hex dest = dest @ ''.tmp.'' @ hex"

definition aw_calls :: "string \<Rightarrow> string \<Rightarrow> string \<Rightarrow> unit io list" where
  \<comment> \<open>open, the writes of the content byte by byte (any split into chunks is a subsequence of
      these states), rename\<close>
  "aw_calls hex dest content =
     open_trunc (tmp_path hex dest)
     # map (\<lambda>c. append_file (tmp_path hex dest) [c]) content
     @ [rename_path (tmp_path hex dest) dest]"

definition atomicWrite :: "string \<Rightarrow> string \<Rightarrow> string \<Rightarrow> unit io" where
  "atomicWrite hex dest content s =
     (case seqI (aw_calls hex dest content) s of
        (Inr u, s') \<Rightarrow> (Inr (), s')
      | (Inl x, s') \<Rightarrow> (Inl x, snd (swallowI (unlink_path (tmp_path hex dest)) s')))"

definition crash_after :: "nat \<Rightarrow> string \<Rightarrow> string \<Rightarrow> string \<Rightarrow> fs \<Rightarrow> fs" where
  \<comment> \<open>what is on disk when the process dies after k calls\<close>
  "crash_after k hex dest content s = snd (seqI (take k (aw_calls hex dest content)) s)"

subsection \<open>Every intermediate state\<close>

definition tmp_ready :: "string \<Rightarrow> string \<Rightarrow> fs \<Rightarrow> bool" where
  \<comment> \<open>the random temporary name is unused and its directory exists\<close>
  "tmp_ready hex dest s =
     (fget (tmp_path hex dest) s = None \<and> parent_is_dir s (tmp_path hex dest))"

lemma tmp_neq [simp]: "tmp_path hex dest \<noteq> dest" "dest \<noteq> tmp_path hex dest"
  by (auto simp: tmp_path_def)

lemma seqI_append: "seqI (xs @ ys) s = (case seqI xs s of (Inl e, t) \<Rightarrow> (Inl e, t) | (Inr u, t) \<Rightarrow> seqI ys t)"
proof (induction xs arbitrary: s)
  case (Cons m xs)
  then show ?case by (auto simp: bindI_def split: prod.splits sum.splits)
qed (simp add: returnI_def)

lemma open_trunc_fresh:
  assumes "tmp_ready hex dest s"
  shows "open_trunc (tmp_path hex dest) s = (Inr (), fput (tmp_path hex dest) (File [] default_mode) s)"
  using assms
  by (simp add: open_trunc_def tmp_ready_def write_file_def stat_node_direct real_path_direct)

lemma append_one:
  "fget p s = Some (File c m) \<Longrightarrow> append_file p t s = (Inr (), fput p (File (c @ t) m) s)"
  by (simp add: append_file_def stat_node_direct real_path_direct)

lemma fput_fput: "fget q (fput p a (fput p b s)) = fget q (fput p a s)"
  by (cases "q = p") auto

lemma appends:
  "fget p s = Some (File c m) \<Longrightarrow>
   \<exists>t. seqI (map (\<lambda>x. append_file p [x]) xs) s = (Inr (), t)
       \<and> (\<forall>q. fget q t = (if q = p then Some (File (c @ xs) m) else fget q s))"
proof (induction xs arbitrary: c s)
  case Nil
  then show ?case by (auto simp: returnI_def)
next
  case (Cons x xs)
  let ?s = "fput p (File (c @ [x]) m) s"
  have "fget p ?s = Some (File (c @ [x]) m)" by simp
  from Cons.IH [OF this] obtain t where
    "seqI (map (\<lambda>x. append_file p [x]) xs) ?s = (Inr (), t)"
    "\<forall>q. fget q t = (if q = p then Some (File ((c @ [x]) @ xs) m) else fget q ?s)"
    by blast
  with append_one [OF Cons.prems, of "[x]"] show ?case by (auto simp: bindI_def)
qed

lemma written_prefix:
  assumes "tmp_ready hex dest s" and "k \<le> length content"
  shows "\<exists>t. seqI (take (Suc k) (aw_calls hex dest content)) s = (Inr (), t)
    \<and> (\<forall>q. fget q t = (if q = tmp_path hex dest then Some (File (take k content) default_mode) else fget q s))"
proof -
  let ?p = "tmp_path hex dest"
  let ?s = "fput ?p (File [] default_mode) s"
  have "fget ?p ?s = Some (File [] default_mode)" by simp
  from appends [OF this, of "take k content"] obtain t where
    t: "seqI (map (\<lambda>x. append_file ?p [x]) (take k content)) ?s = (Inr (), t)"
    "\<forall>q. fget q t = (if q = ?p then Some (File (take k content) default_mode) else fget q ?s)"
    by auto
  have "take (Suc k) (aw_calls hex dest content)
      = open_trunc ?p # map (\<lambda>x. append_file ?p [x]) (take k content)"
    using assms(2) by (simp add: aw_calls_def take_map)
  with t(1) open_trunc_fresh [OF assms(1)]
  have "seqI (take (Suc k) (aw_calls hex dest content)) s = (Inr (), t)"
    by (simp add: bindI_def)
  moreover have "\<forall>q. fget q t = (if q = ?p then Some (File (take k content) default_mode) else fget q s)"
    using t(2) by simp
  ultimately show ?thesis by blast
qed

lemma aw_run:
  assumes "tmp_ready hex dest s" and "fget dest s \<noteq> Some Dir"
  shows "\<exists>t. seqI (aw_calls hex dest content) s = (Inr (), t)
    \<and> (\<forall>q. fget q t = (if q = dest then Some (File content default_mode) else fget q s))"
proof -
  let ?p = "tmp_path hex dest"
  obtain t where t: "seqI (take (Suc (length content)) (aw_calls hex dest content)) s = (Inr (), t)"
    "\<forall>q. fget q t = (if q = ?p then Some (File content default_mode) else fget q s)"
    using written_prefix [OF assms(1), of "length content" content] by auto
  let ?t = "fput dest (File content default_mode) (fdel ?p t)"
  have "aw_calls hex dest content
      = take (Suc (length content)) (aw_calls hex dest content) @ [rename_path ?p dest]"
    by (simp add: aw_calls_def)
  then have "seqI (aw_calls hex dest content) s = seqI [rename_path ?p dest] t"
    using t(1) by (metis (no_types, lifting) prod.case seqI_append sum.simps(6))
  also have "\<dots> = (Inr (), ?t)"
    using t(2) assms(2) by (simp add: rename_path_def bindI_def returnI_def)
  finally have "seqI (aw_calls hex dest content) s = (Inr (), ?t)" .
  moreover have "\<forall>q. fget q ?t = (if q = dest then Some (File content default_mode) else fget q s)"
    using t(2) assms(1) by (auto simp: tmp_ready_def)
  ultimately show ?thesis by blast
qed

lemma atomicWrite_ok:
  assumes "tmp_ready hex dest s" and "fget dest s \<noteq> Some Dir"
  shows "\<exists>t. atomicWrite hex dest content s = (Inr (), t)
    \<and> (\<forall>q. fget q t = (if q = dest then Some (File content default_mode) else fget q s))"
  using aw_run [OF assms, of content] by (auto simp: atomicWrite_def)

lemma crash_states:
  assumes "tmp_ready hex dest s" and "fget dest s \<noteq> Some Dir"
  shows "fget dest (crash_after k hex dest content s) = fget dest s
         \<or> fget dest (crash_after k hex dest content s) = Some (File content default_mode)"
    and "q \<noteq> dest \<Longrightarrow> q \<noteq> tmp_path hex dest \<Longrightarrow> fget q (crash_after k hex dest content s) = fget q s"
proof -
  consider "k = 0" | j where "k = Suc j" "j \<le> length content" | "Suc (length content) < k"
    by (cases k; cases "k \<le> Suc (length content)") auto
  then have "(fget dest (crash_after k hex dest content s) = fget dest s
         \<or> fget dest (crash_after k hex dest content s) = Some (File content default_mode))
      \<and> (q \<noteq> dest \<longrightarrow> q \<noteq> tmp_path hex dest \<longrightarrow> fget q (crash_after k hex dest content s) = fget q s)" for q
  proof cases
    case 1
    then show ?thesis by (simp add: crash_after_def returnI_def)
  next
    case (2 j)
    then show ?thesis
      using written_prefix [OF assms(1) 2(2)] by (fastforce simp: crash_after_def)
  next
    case 3
    then have "take k (aw_calls hex dest content) = aw_calls hex dest content"
      by (simp add: aw_calls_def)
    then show ?thesis
      using aw_run [OF assms, of content] by (fastforce simp: crash_after_def)
  qed
  then show "fget dest (crash_after k hex dest content s) = fget dest s
         \<or> fget dest (crash_after k hex dest content s) = Some (File content default_mode)"
    and "q \<noteq> dest \<Longrightarrow> q \<noteq> tmp_path hex dest \<Longrightarrow> fget q (crash_after k hex dest content s) = fget q s"
    by blast+
qed

subsection \<open>Properties\<close>

text \<open>C26: Crash atomicity of the write-temporary-then-rename protocol: when the process dies after any
  number of its calls, the destination holds either exactly what it held before or exactly the
  new content, never a part of it, and no file other than the temporary one has changed; and
  the uninterrupted run succeeds and leaves the new content.\<close>

theorem atomic_write_crash_safe:
  assumes "tmp_ready hex dest s" and "fget dest s \<noteq> Some Dir"
  shows "(fget dest (crash_after k hex dest content s) = fget dest s
          \<or> fget dest (crash_after k hex dest content s) = Some (File content default_mode))
       \<and> (\<forall>q. q \<noteq> dest \<longrightarrow> q \<noteq> tmp_path hex dest \<longrightarrow> fget q (crash_after k hex dest content s) = fget q s)
       \<and> (\<exists>t. atomicWrite hex dest content s = (Inr (), t) \<and> fget dest t = Some (File content default_mode)
            \<and> (\<forall>q. q \<noteq> dest \<longrightarrow> fget q t = fget q s))"
  using crash_states(1) [OF assms, of k content] crash_states(2) [OF assms, of _ k content] atomicWrite_ok [OF assms, of content] by auto

lemma sample_tmp_ready: "tmp_ready ''ab'' ''/h/f'' sample_home"
proof -
  have "dirname (tmp_path ''ab'' ''/h/f'') = ''/h''" by code_simp
  then show ?thesis
    by (simp add: tmp_ready_def parent_is_dir_def is_directory_def stat_node_direct tmp_path_def
        sample_home_def fget_def)
qed

lemma atomic_write_crash_safe_witness:
  "\<exists>t. atomicWrite ''ab'' ''/h/f'' ''new'' sample_home = (Inr (), t)
     \<and> fget ''/h/f'' t = Some (File ''new'' default_mode)"
  using atomic_write_crash_safe [OF sample_tmp_ready, of 3 "''new''"] by (auto simp: sample_home_def fget_def)

end
