(* ===== verification/Snapshot.thy ===== *)
theory Snapshot
  imports Atomic Policy "HOL-Library.List_Lexorder" "HOL-Library.Char_ord"
begin

text \<open>
  Operations (scripts/lib/snapshot.mjs): the manifest factories, operation ids, takeSnapshot,
  applyOperation, verify and gcSnapshots. A manifest is the JSON value the program keeps and
  writes; its status runs snapshot_taken, applied, verified. The caller's mutation functions
  are a list of file-system computations.
\<close>

subsection \<open>Factories\<close>

definition js_or :: "json option \<Rightarrow> json \<Rightarrow> json" where
  \<comment> \<open>v || d\<close>
  "js_or v d = (if truthy v then the v else d)"

definition js_num_or :: "json option \<Rightarrow> json \<Rightarrow> json" where
  \<comment> \<open>typeof v === "number" ? v : d\<close>
  "js_num_or v d = (case v of Some (JNum i) \<Rightarrow> JNum i | Some (JDec t) \<Rightarrow> JDec t | _ \<Rightarrow> d)"

definition makeFileSnapshot :: "json \<Rightarrow> json" where
  "makeFileSnapshot opts =
     JObj [(''seq'', js_num_or (jget ''seq'' opts) (JNum 0)),
           (''originalPath'', js_or (jget ''originalPath'' opts) (JStr [])),
           (''snapshotPath'', js_or (jget ''snapshotPath'' opts) (JStr [])),
           (''sha256Before'', js_or (jget ''sha256Before'' opts) (JStr [])),
           (''sha256After'', opt_or (jget ''sha256After'' opts) JNull),
           (''mode'', js_or (jget ''mode'' opts) (JStr ''0644'')),
           (''size'', js_num_or (jget ''size'' opts) (JNum 0)),
           (''isSymlink'', JBool (truthy (jget ''isSymlink'' opts))),
           (''symlinkTarget'', opt_or (jget ''symlinkTarget'' opts) JNull),
           (''verifyFailure'', JBool (truthy (jget ''verifyFailure'' opts))),
           (''rollbackSkipped'', JBool (truthy (jget ''rollbackSkipped'' opts)))]"

definition makeRollbackPlan :: "json \<Rightarrow> json" where
  "makeRollbackPlan opts =
     JObj [(''operationId'', js_or (jget ''operationId'' opts) (JStr [])),
           (''filesToRestore'', JArr (opt_or (jarr (jget ''filesToRestore'' opts)) [])),
           (''filesToSkip'', JArr (opt_or (jarr (jget ''filesToSkip'' opts)) [])),
           (''estimatedRisk'', js_or (jget ''estimatedRisk'' opts) (JStr ''low'')),
           (''requiresConfirmation'', JBool (truthy (jget ''requiresConfirmation'' opts)))]"

definition OPERATION_STATUSES :: "string list" where
  "OPERATION_STATUSES =
     [''planned'', ''snapshot_taken'', ''applied'', ''verified'', ''rolled_back'', ''aborted'']"

definition TERMINAL_STATUSES :: "string list" where
  "TERMINAL_STATUSES = [''verified'', ''rolled_back'', ''aborted'']"

definition EPOCH :: string where
  "EPOCH = ''1970-01-01T00:00:00.000Z''"

definition makeOperationManifest :: "json \<Rightarrow> json" where
  "makeOperationManifest opts =
     JObj [(''schemaVersion'', JStr ''0.2''),
           (''id'', js_or (jget ''id'' opts) (JStr [])),
           (''home'', js_or (jget ''home'' opts) (JStr [])),
           (''status'', (case jstr (jget ''status'' opts) of
              Some st \<Rightarrow> JStr (if List.member OPERATION_STATUSES st then st else ''planned'')
            | None \<Rightarrow> JStr ''planned'')),
           (''createdAt'', js_or (jget ''createdAt'' opts) (JStr EPOCH)),
           (''capturedAt'', js_or (jget ''capturedAt'' opts) (JStr EPOCH)),
           (''appliedAt'', opt_or (jget ''appliedAt'' opts) JNull),
           (''verifiedAt'', opt_or (jget ''verifiedAt'' opts) JNull),
           (''rolledBackAt'', opt_or (jget ''rolledBackAt'' opts) JNull),
           (''abortedAt'', opt_or (jget ''abortedAt'' opts) JNull),
           (''housekeeperVersion'', js_or (jget ''housekeeperVersion'' opts) (JStr ''0.2.0'')),
           (''command'', js_or (jget ''command'' opts) (JStr ''clean'')),
           (''mode'', js_or (jget ''mode'' opts) (JStr ''dry-run'')),
           (''consentSummary'', js_or (jget ''consentSummary'' opts) (JStr [])),
           (''files'', JArr (map makeFileSnapshot (opt_or (jarr (jget ''files'' opts)) []))),
           (''partialApply'', JBool (truthy (jget ''partialApply'' opts))),
           (''blockedByProtection'', JArr (opt_or (jarr (jget ''blockedByProtection'' opts)) []))]"

subsection \<open>Operation ids\<close>

record utc =
  yr :: nat
  mon :: nat
  day :: nat
  hr :: nat
  mnt :: nat
  sec :: nat

definition op_stamp :: "utc \<Rightarrow> string" where
  "op_stamp t =
     pad_start 4 (CHR ''0'') (show_nat (yr t)) @ pad_start 2 (CHR ''0'') (show_nat (mon t))
     @ pad_start 2 (CHR ''0'') (show_nat (day t)) @ pad_start 2 (CHR ''0'') (show_nat (hr t))
     @ pad_start 2 (CHR ''0'') (show_nat (mnt t)) @ pad_start 2 (CHR ''0'') (show_nat (sec t))"

definition generateOpId :: "utc \<Rightarrow> string \<Rightarrow> string" where
  \<comment> \<open>hex is the text of the four random bytes\<close>
  "generateOpId t hex = ''op_'' @ op_stamp t @ ''_'' @ hex"

subsection \<open>Paths\<close>

definition operations_dir :: "string \<Rightarrow> string" where
  "operations_dir home = path_join [home, ''.claude'', ''housekeeper'', ''operations'']"

definition manifest_path :: "string \<Rightarrow> string \<Rightarrow> string" where
  "manifest_path home i = path_join [home, ''.claude'', ''housekeeper'', ''operations'', i @ ''.json'']"

definition snapshot_dir :: "string \<Rightarrow> string \<Rightarrow> string" where
  "snapshot_dir home i = path_join [home, ''.claude'', ''housekeeper'', ''snapshots'', i]"

subsection \<open>takeSnapshot\<close>

definition MAX_OPERATION_FILES :: nat where
  "MAX_OPERATION_FILES = 50"

definition MAX_OPERATION_BYTES :: nat where
  "MAX_OPERATION_BYTES = 10 * 1024 * 1024"

fun sum_sizes :: "fs \<Rightarrow> string list \<Rightarrow> err + nat" where
  "sum_sizes s [] = Inr 0"
| "sum_sizes s (t # ts) =
     (case stat_node s t of
        None \<Rightarrow> Inl (ENOENT t)
      | Some n \<Rightarrow> (case sum_sizes s ts of Inl x \<Rightarrow> Inl x | Inr k \<Rightarrow> Inr (node_size n + k)))"

fun first_rule :: "string \<Rightarrow> string \<Rightarrow> rule list \<Rightarrow> (string \<times> string \<times> string) option" where
  "first_rule home target [] = None"
| "first_rule home target (r # rs) =
     (if rule_hits home target r then Some (target, the (rule_path r), rule_reason r)
      else first_rule home target rs)"

definition blocked_targets :: "string \<Rightarrow> rule list \<Rightarrow> string list \<Rightarrow> (string \<times> string \<times> string) list" where
  "blocked_targets home rules targets = List.map_filter (\<lambda>t. first_rule home t rules) targets"

fun show_oct :: "nat \<Rightarrow> string" where
  "show_oct n = (if n < 8 then [digit_char n] else show_oct (n div 8) @ [digit_char (n mod 8)])"

declare show_oct.simps [simp del]

definition node_mode :: "node \<Rightarrow> nat" where
  "node_mode n = (case n of File c m \<Rightarrow> m | Link t \<Rightarrow> 511 | Dir \<Rightarrow> 493)"

definition mode_string :: "node \<Rightarrow> string" where
  "mode_string n = pad_start 4 (CHR ''0'') (show_oct (node_mode n mod 4096))"

definition snapshot_name :: "nat \<Rightarrow> string \<Rightarrow> string" where
  "snapshot_name i p = pad_start 4 (CHR ''0'') (show_nat i) @ ''_'' @ basename p"

definition copied :: "node \<Rightarrow> string" where
  \<comment> \<open>the bytes a snapshot keeps: the content, for a link its target text\<close>
  "copied n = (case n of File c m \<Rightarrow> c | Link t \<Rightarrow> t | Dir \<Rightarrow> [])"

definition snapshot_entry :: "env \<Rightarrow> nat \<Rightarrow> string \<Rightarrow> string \<Rightarrow> node \<Rightarrow> json" where
  "snapshot_entry e i p dest n =
     makeFileSnapshot (JObj
       [(''seq'', JNum (int i)), (''originalPath'', JStr p), (''snapshotPath'', JStr dest),
        (''sha256Before'', JStr (e_sha e (copied n))), (''sha256After'', JNull),
        (''mode'', JStr (mode_string n)), (''size'', JNum (int (node_size n))),
        (''isSymlink'', JBool (case n of Link t \<Rightarrow> True | _ \<Rightarrow> False)),
        (''symlinkTarget'', (case n of Link t \<Rightarrow> JStr t | _ \<Rightarrow> JNull))])"

definition snapshot_one :: "env \<Rightarrow> string \<Rightarrow> string \<Rightarrow> nat \<Rightarrow> string \<Rightarrow> json io" where
  "snapshot_one e hex filesDir i p s =
     (case fget p s of
        None \<Rightarrow> (Inl (ENOENT p), s)
      | Some Dir \<Rightarrow> (Inl (EISDIR p), s)
      | Some n \<Rightarrow>
          (let dest = path_join [filesDir, snapshot_name i p]
           in bindI (atomicWrite hex dest (copied n)) (\<lambda>_.
                returnI (snapshot_entry e i p dest n)) s))"

fun snapshot_files :: "env \<Rightarrow> (nat \<Rightarrow> string) \<Rightarrow> string \<Rightarrow> nat \<Rightarrow> string list \<Rightarrow> json list io" where
  "snapshot_files e hex filesDir i [] = returnI []"
| "snapshot_files e hex filesDir i (p # ps) =
     bindI (snapshot_one e (hex i) filesDir i p) (\<lambda>x.
       bindI (snapshot_files e hex filesDir (Suc i) ps) (\<lambda>xs. returnI (x # xs)))"

record snap_opts =
  so_targets :: "string list"
  so_command :: string
  so_mode :: string
  so_consent :: string
  so_version :: string

definition snapshot_write ::
  "env \<Rightarrow> string \<Rightarrow> (nat \<Rightarrow> string) \<Rightarrow> string \<Rightarrow> snap_opts \<Rightarrow> (string \<times> json) io" where
  \<comment> \<open>takeSnapshot after its refusals: copies first, meta.json next, the manifest last\<close>
  "snapshot_write e opId hex home opts =
     (let targets = so_targets opts;
          n = length targets;
          snapshotDir = snapshot_dir home opId;
          filesDir = path_join [snapshotDir, ''files''];
          now = JStr (e_iso e (e_now e));
          version = JStr (str_or (so_version opts) ''0.2.0'')
      in bindI (mkdir_recursive filesDir) (\<lambda>_.
         bindI (mkdir_recursive (operations_dir home)) (\<lambda>_.
         bindI (snapshot_files e hex filesDir 0 targets) (\<lambda>entries.
         bindI (atomicWrite (hex n) (path_join [snapshotDir, ''meta.json''])
                  (json_pretty (JObj [(''operationId'', JStr opId), (''housekeeperVersion'', version),
                                      (''capturedAt'', now)]) @ [nl])) (\<lambda>_.
           (let m = makeOperationManifest (JObj
                  [(''id'', JStr opId), (''home'', JStr home), (''status'', JStr ''snapshot_taken''),
                   (''createdAt'', now), (''capturedAt'', now), (''housekeeperVersion'', version),
                   (''command'', JStr (str_or (so_command opts) ''clean'')),
                   (''mode'', JStr (str_or (so_mode opts) ''confirm'')),
                   (''consentSummary'', JStr (so_consent opts)), (''files'', JArr entries)])
            in bindI (atomicWrite (hex (Suc n)) (manifest_path home opId) (json_pretty m @ [nl]))
                 (\<lambda>_. returnI (opId, m))))))))"

definition takeSnapshot ::
  "env \<Rightarrow> string \<Rightarrow> (nat \<Rightarrow> string) \<Rightarrow> string \<Rightarrow> snap_opts \<Rightarrow> (string \<times> json) io" where
  "takeSnapshot e opId hex home opts s =
     (let targets = so_targets opts
      in if MAX_OPERATION_FILES < length targets
         then (Inl (SnapshotBudgetError (length targets) 0), s)
         else (case sum_sizes s targets of
             Inl x \<Rightarrow> (Inl x, s)
           | Inr bytes \<Rightarrow>
               if MAX_OPERATION_BYTES < bytes
               then (Inl (SnapshotBudgetError (length targets) (int bytes)), s)
               else (let blocked = blocked_targets home (cfg_rules (loadConfig s home None)) targets
                     in if blocked \<noteq> [] then (Inl (SnapshotRefusedError blocked), s)
                        else snapshot_write e opId hex home opts s)))"

subsection \<open>readManifest, applyOperation, verify\<close>

definition readManifest :: "string \<Rightarrow> string \<Rightarrow> fs \<Rightarrow> err + json" where
  "readManifest home i s = read_json s (manifest_path home i)"

definition write_manifest :: "string \<Rightarrow> string \<Rightarrow> string \<Rightarrow> json \<Rightarrow> unit io" where
  "write_manifest hex home i m = atomicWrite hex (manifest_path home i) (json_pretty m @ [nl])"

definition manifest_status :: "json \<Rightarrow> string option" where
  "manifest_status m = jstr (jget ''status'' m)"

definition manifest_files :: "json \<Rightarrow> json list" where
  "manifest_files m = opt_or (jarr (jget ''files'' m)) []"

definition guard_manifest :: "string \<Rightarrow> string \<Rightarrow> json \<Rightarrow> err option" where
  \<comment> \<open>the status guard, then the first use of manifest.files\<close>
  "guard_manifest i expected m =
     (if m = JNull then Some (TypeError ''manifest is null'')
      else if manifest_status m \<noteq> Some expected
      then Some (OperationStateError i expected (manifest_status m))
      else if jarr (jget ''files'' m) = None then Some (TypeError ''manifest.files'')
      else None)"

definition entry_path :: "json \<Rightarrow> string option" where
  "entry_path en = jstr (jget ''originalPath'' en)"

definition entry_hash :: "env \<Rightarrow> fs \<Rightarrow> json \<Rightarrow> err + string" where
  \<comment> \<open>hashFile(entry.originalPath)\<close>
  "entry_hash e s en =
     (case entry_path en of None \<Rightarrow> Inl (TypeError ''path'') | Some p \<Rightarrow> hashFile e s p)"

fun drift_check :: "env \<Rightarrow> fs \<Rightarrow> json list \<Rightarrow> err option" where
  "drift_check e s [] = None"
| "drift_check e s (en # ens) =
     (case entry_hash e s en of
        Inl x \<Rightarrow> Some x
      | Inr h \<Rightarrow>
          if jget ''sha256Before'' en \<noteq> Some (JStr h)
          then Some (SnapshotDriftError (opt_or (entry_path en) []) (jstr (jget ''sha256Before'' en)) h)
          else drift_check e s ens)"

definition apply_entry :: "env \<Rightarrow> (string \<Rightarrow> unit io) option \<Rightarrow> json \<Rightarrow> fs \<Rightarrow> json \<times> bool \<times> fs" where
  \<comment> \<open>one turn of the loop of applyOperation: the entry, whether it failed, the disk\<close>
  "apply_entry e f en s =
     (let p = opt_or (entry_path en) [];
          failed = jset ''applied'' (JBool False) en
      in (case f of
            None \<Rightarrow> (failed, True, s)
          | Some g \<Rightarrow>
              (case g p s of
                 (Inl x, s') \<Rightarrow> (failed, True, s')
               | (Inr u, s') \<Rightarrow>
                   if existsSync s' p
                   then (case hashFile e s' p of
                           Inl x \<Rightarrow> (failed, True, s')
                         | Inr h \<Rightarrow> (jset ''applied'' (JBool True) (jset ''sha256After'' (JStr h) en), False, s'))
                   else (jset ''applied'' (JBool True) (jset ''sha256After'' JNull en), False, s'))))"

fun apply_entries ::
  "env \<Rightarrow> (string \<Rightarrow> unit io) list \<Rightarrow> json list \<Rightarrow> fs \<Rightarrow> json list \<times> bool \<times> fs" where
  "apply_entries e fs' [] s = ([], False, s)"
| "apply_entries e fs' (en # ens) s =
     (let (en', bad, s1) = apply_entry e (case fs' of [] \<Rightarrow> None | f # r \<Rightarrow> Some f) en s;
          (ens', bads, s2) = apply_entries e (drop 1 fs') ens s1
      in (en' # ens', bad \<or> bads, s2))"

definition applied_manifest :: "env \<Rightarrow> json \<Rightarrow> json list \<Rightarrow> bool \<Rightarrow> json" where
  "applied_manifest e m ens bad =
     jset ''appliedAt'' (JStr (e_iso e (e_now e))) (jset ''status'' (JStr ''applied'')
       (jset ''files'' (JArr ens) (if bad then jset ''partialApply'' (JBool True) m else m)))"

definition applyOperation ::
  "env \<Rightarrow> string \<Rightarrow> string \<Rightarrow> string \<Rightarrow> (string \<Rightarrow> unit io) list \<Rightarrow> json io" where
  "applyOperation e hex i home ops s =
     (case readManifest home i s of
        Inl x \<Rightarrow> (Inl x, s)
      | Inr m \<Rightarrow>
          (case guard_manifest i ''snapshot_taken'' m of
             Some x \<Rightarrow> (Inl x, s)
           | None \<Rightarrow>
               (case drift_check e s (manifest_files m) of
                  Some x \<Rightarrow> (Inl x, s)
                | None \<Rightarrow>
                    (let (ens, bad, s1) = apply_entries e ops (manifest_files m) s;
                         m' = applied_manifest e m ens bad
                     in bindI (write_manifest hex home i m') (\<lambda>_. returnI m') s1))))"

fun verify_entries :: "env \<Rightarrow> fs \<Rightarrow> json list \<Rightarrow> err + (json list \<times> bool)" where
  "verify_entries e s [] = Inr ([], True)"
| "verify_entries e s (en # ens) =
     (let bad = jset ''verifyFailure'' (JBool True) en;
          this = (if jget ''sha256After'' en = None \<or> jget ''sha256After'' en = Some JNull
                  then Inr (if existsSync s (opt_or (entry_path en) []) then (bad, False) else (en, True))
                  else (case entry_hash e s en of
                          Inl x \<Rightarrow> Inl x
                        | Inr h \<Rightarrow> Inr (if jget ''sha256After'' en = Some (JStr h) then (en, True)
                                       else (bad, False))))
      in (case this of
            Inl x \<Rightarrow> Inl x
          | Inr (en', ok) \<Rightarrow>
              (case verify_entries e s ens of
                 Inl x \<Rightarrow> Inl x
               | Inr (ens', oks) \<Rightarrow> Inr (en' # ens', ok \<and> oks))))"

definition verified_manifest :: "env \<Rightarrow> json \<Rightarrow> json list \<Rightarrow> bool \<Rightarrow> json" where
  "verified_manifest e m ens allMatch =
     (let m1 = jset ''files'' (JArr ens) m
      in if allMatch
         then jset ''verifiedAt'' (JStr (e_iso e (e_now e))) (jset ''status'' (JStr ''verified'') m1)
         else m1)"

definition verify_op :: "env \<Rightarrow> string \<Rightarrow> string \<Rightarrow> string \<Rightarrow> json io" where
  "verify_op e hex i home s =
     (case readManifest home i s of
        Inl x \<Rightarrow> (Inl x, s)
      | Inr m \<Rightarrow>
          (case guard_manifest i ''applied'' m of
             Some x \<Rightarrow> (Inl x, s)
           | None \<Rightarrow>
               (case verify_entries e s (manifest_files m) of
                  Inl x \<Rightarrow> (Inl x, s)
                | Inr (ens, allMatch) \<Rightarrow>
                    (let m' = verified_manifest e m ens allMatch
                     in bindI (write_manifest hex home i m') (\<lambda>_. returnI m') s))))"

subsection \<open>gcSnapshots\<close>

definition KEEP_COUNT :: nat where
  "KEEP_COUNT = 10"

definition gc_manifests :: "fs \<Rightarrow> string \<Rightarrow> string list \<Rightarrow> (string \<times> json) list" where
  \<comment> \<open>the manifests that read and parse, by id\<close>
  "gc_manifests s dir names =
     List.map_filter (\<lambda>f. case read_json s (path_join [dir, f]) of
        Inl x \<Rightarrow> None | Inr m \<Rightarrow> Some (take (length f - 5) f, m))
       (filter (ends_with ''.json'') names)"

definition gc_terminal :: "json \<Rightarrow> bool" where
  "gc_terminal m = (manifest_status m = Some ''verified'' \<or> manifest_status m = Some ''rolled_back'')"

definition gc_keep :: "'a list \<Rightarrow> 'a list" where
  "gc_keep terminal = js_slice (- int KEEP_COUNT) (int (length terminal)) terminal"

definition gc_remove :: "'a list \<Rightarrow> 'a list" where
  "gc_remove terminal = js_slice 0 (int (length terminal) - int KEEP_COUNT) terminal"

definition gc_delete :: "string \<Rightarrow> fs \<Rightarrow> string \<Rightarrow> fs" where
  "gc_delete home s i =
     snd (swallowI (unlink_path (path_join [operations_dir home, i @ ''.json'']))
            (rm_tree_force (snapshot_dir home i) s))"

definition gcSnapshots :: "string \<Rightarrow> (string list \<times> string list) io" where
  "gcSnapshots home s =
     (case read_dir s (operations_dir home) of
        Inl x \<Rightarrow> (Inr ([], []), s)
      | Inr names \<Rightarrow>
          (let ms = gc_manifests s (operations_dir home) names
           in if list_ex (\<lambda>im. snd im = JNull) ms then (Inl (TypeError ''manifest is null''), s)
              else (let terminal = sort_key id (map fst (filter (\<lambda>im. gc_terminal (snd im)) ms));
                        nonTerminal = map fst (filter (\<lambda>im. \<not> gc_terminal (snd im)) ms);
                        removed = gc_remove terminal
                    in (Inr (removed, nonTerminal @ gc_keep terminal),
                        foldl (gc_delete home) s removed))))"

end
