(* ===== verification/Snapshot_Facts.thy ===== *)
theory Snapshot_Facts
  imports Snapshot
begin

text \<open>
  Facts about operations: the manifest store as an interface (what a read returns after a
  write), the guards of applyOperation and verify, what verify concludes, the collector's
  slices, and that the copies takeSnapshot leaves hold the bytes of the targets.
\<close>

subsection \<open>The manifest store\<close>

locale manifest_store =
  fixes rd :: "'s \<Rightarrow> 'e + 'm"
    and wr :: "'m \<Rightarrow> 's \<Rightarrow> ('e + unit) \<times> 's"
    and get :: "'k \<Rightarrow> 's \<Rightarrow> 'v"
    and own :: 'k
    and ready :: "'s \<Rightarrow> bool"
    and wf :: "'m \<Rightarrow> bool"
  assumes wr_rd: "ready s \<Longrightarrow> wf m \<Longrightarrow>
     \<exists>s'. wr m s = (Inr (), s') \<and> rd s' = Inr m \<and> (\<forall>q. q \<noteq> own \<longrightarrow> get q s' = get q s)"
begin

lemma wr_success: "ready s \<Longrightarrow> wf m \<Longrightarrow> wr m s = (r, s') \<Longrightarrow> r = Inr () \<and> rd s' = Inr m"
  using wr_rd [of s m] by auto

lemma last_write_wins:
  assumes "ready s" "wf m" "wr m s = (r, s')" "ready s'" "wf n"
  shows "rd (snd (wr n s')) = Inr n"
  using wr_rd [OF assms(4,5)] by auto

end

definition slot_ready :: "string \<Rightarrow> string \<Rightarrow> fs \<Rightarrow> bool" where
  \<comment> \<open>atomicWrite to p can go through\<close>
  "slot_ready hex p s = (tmp_ready hex p s \<and> fget p s \<noteq> Some Dir)"

lemma write_manifest_ok:
  assumes "slot_ready hex (manifest_path home i) s" and "json_plain m"
  shows "\<exists>s'. write_manifest hex home i m s = (Inr (), s') \<and> readManifest home i s' = Inr m
            \<and> (\<forall>q. q \<noteq> manifest_path home i \<longrightarrow> fget q s' = fget q s)"
proof -
  obtain t where t: "write_manifest hex home i m s = (Inr (), t)"
    "\<forall>q. fget q t = (if q = manifest_path home i then Some (File (json_pretty m @ [nl]) default_mode) else fget q s)"
    using atomicWrite_ok [of hex "manifest_path home i" s "json_pretty m @ [nl]"] assms(1)
    unfolding slot_ready_def write_manifest_def by blast
  have "read_file t (manifest_path home i) = Inr (json_pretty m @ [nl])"
    by (rule read_file_direct) (use t(2) in simp)
  then have "readManifest home i t = Inr m"
    using json_parse_pretty_nl [OF assms(2)] by (simp add: readManifest_def read_json_def)
  with t show ?thesis by auto
qed

interpretation ms: manifest_store "readManifest home i" "write_manifest hex home i"
    fget "manifest_path home i" "slot_ready hex (manifest_path home i)" json_plain
  for home i hex
  by unfold_locales (use write_manifest_ok in blast)

subsection \<open>Guards: nothing is mutated before every check has passed\<close>

definition entry_clean :: "env \<Rightarrow> fs \<Rightarrow> json \<Rightarrow> bool" where
  "entry_clean e s en = (\<exists>h. entry_hash e s en = Inr h \<and> jget ''sha256Before'' en = Some (JStr h))"

lemma drift_check_None: "drift_check e s ens = None \<longleftrightarrow> (\<forall>en \<in> set ens. entry_clean e s en)"
  by (induction ens) (auto simp: entry_clean_def split: sum.splits)

lemma guard_manifest_None:
  "guard_manifest i st m = None \<longleftrightarrow> manifest_status m = Some st \<and> (\<exists>xs. jget ''files'' m = Some (JArr xs))"
proof -
  have "jarr x \<noteq> None \<longleftrightarrow> (\<exists>xs. x = Some (JArr xs))" for x
    by (cases x rule: jarr.cases) auto
  then show ?thesis
    by (auto simp: guard_manifest_def manifest_status_def split: if_splits)
qed

lemma apply_stopped:
  assumes "\<not> (\<exists>m. readManifest home i s = Inr m \<and> guard_manifest i ''snapshot_taken'' m = None
               \<and> (\<forall>en \<in> set (manifest_files m). entry_clean e s en))"
  shows "\<exists>x. applyOperation e hex i home ops s = (Inl x, s)"
proof (cases "readManifest home i s")
  case Inl
  then show ?thesis by (simp add: applyOperation_def)
next
  case (Inr m)
  show ?thesis
  proof (cases "guard_manifest i ''snapshot_taken'' m")
    case None
    with Inr assms have "drift_check e s (manifest_files m) \<noteq> None" by (simp add: drift_check_None)
    with Inr None show ?thesis by (auto simp: applyOperation_def)
  qed (use Inr in \<open>simp add: applyOperation_def\<close>)
qed

subsection \<open>A completed apply\<close>

lemma apply_entry_plain:
  "json_plain en \<Longrightarrow> json_plain (fst (apply_entry e f en s))"
  by (auto simp: apply_entry_def Let_def split: option.splits prod.splits sum.splits)

lemma apply_entries_plain:
  "\<forall>en \<in> set ens. json_plain en \<Longrightarrow> \<forall>en \<in> set (fst (apply_entries e fs' ens s)). json_plain en"
proof (induction ens arbitrary: fs' s)
  case (Cons en ens)
  obtain en' b s1 where a: "apply_entry e (case fs' of [] \<Rightarrow> None | f # r \<Rightarrow> Some f) en s = (en', b, s1)"
    by (metis prod_cases3)
  obtain ens' b' s2 where b: "apply_entries e (drop 1 fs') ens s1 = (ens', b', s2)"
    by (metis prod_cases3)
  have "json_plain en'"
    using apply_entry_plain [of en e _ s] Cons.prems a by (metis fst_conv list.set_intros(1))
  moreover have "\<forall>en \<in> set ens'. json_plain en"
    using Cons.IH [of "drop 1 fs'" s1] Cons.prems b by simp
  ultimately show ?case using a b by simp
qed simp

lemma jset_status [simp]:
  "is_obj m \<Longrightarrow> manifest_status (jset ''status'' (JStr st) m) = Some st"
  by (simp add: manifest_status_def)

lemma manifest_status_jset_other [simp]:
  "k \<noteq> ''status'' \<Longrightarrow> manifest_status (jset k v m) = manifest_status m"
  by (simp add: manifest_status_def)

lemma manifest_files_jset [simp]:
  "is_obj m \<Longrightarrow> manifest_files (jset ''files'' (JArr xs) m) = xs"
  "k \<noteq> ''files'' \<Longrightarrow> manifest_files (jset k v m) = manifest_files m"
  by (simp_all add: manifest_files_def)

lemma applied_manifest_facts:
  assumes "is_obj m"
  shows "manifest_status (applied_manifest e m ens bad) = Some ''applied''"
    and "manifest_files (applied_manifest e m ens bad) = ens"
    and "is_obj (applied_manifest e m ens bad)"
    and "json_plain m \<Longrightarrow> \<forall>en \<in> set ens. json_plain en \<Longrightarrow> json_plain (applied_manifest e m ens bad)"
  using assms by (auto simp: applied_manifest_def)

lemma manifest_files_plain: "json_plain m \<Longrightarrow> \<forall>en \<in> set (manifest_files m). json_plain en"
proof (cases "jget ''files'' m" rule: jarr.cases)
  case (1 xs)
  assume "json_plain m"
  from json_plain_jget [OF this 1] 1 show ?thesis by (simp add: manifest_files_def)
qed (auto simp: manifest_files_def)

lemma manifest_status_obj: "manifest_status m = Some st \<Longrightarrow> is_obj m"
  by (cases m) (auto simp: manifest_status_def)

lemma apply_done:
  assumes "readManifest home i s = Inr m" and "json_plain m"
    and "guard_manifest i ''snapshot_taken'' m = None"
    and "\<forall>en \<in> set (manifest_files m). entry_clean e s en"
    and "apply_entries e ops (manifest_files m) s = (ens, bad, s1)"
    and "slot_ready hex (manifest_path home i) s1"
  shows "\<exists>s'. applyOperation e hex i home ops s = (Inr (applied_manifest e m ens bad), s')
            \<and> readManifest home i s' = Inr (applied_manifest e m ens bad)
            \<and> (\<forall>q. q \<noteq> manifest_path home i \<longrightarrow> fget q s' = fget q s1)"
proof -
  have "is_obj m" using assms(3) manifest_status_obj by (auto simp: guard_manifest_None)
  moreover have "\<forall>en \<in> set ens. json_plain en"
    using apply_entries_plain [OF manifest_files_plain [OF assms(2)], of e ops s] assms(5) by simp
  ultimately have "json_plain (applied_manifest e m ens bad)"
    using applied_manifest_facts(4) assms(2) by blast
  from ms.wr_rd [OF assms(6) this] assms show ?thesis
    by (auto simp: applyOperation_def drift_check_None [THEN iffD2] bindI_def returnI_def)
qed

subsection \<open>verify\<close>

definition entry_holds :: "env \<Rightarrow> fs \<Rightarrow> json \<Rightarrow> bool" where
  \<comment> \<open>the entry's file is as the apply recorded it: gone, or with the recorded hash\<close>
  "entry_holds e s en =
     (if jget ''sha256After'' en = None \<or> jget ''sha256After'' en = Some JNull
      then \<not> existsSync s (opt_or (entry_path en) [])
      else (\<exists>h. entry_hash e s en = Inr h \<and> jget ''sha256After'' en = Some (JStr h)))"

lemma verify_entries_all:
  assumes "verify_entries e s ens = Inr (ens', ok)"
  shows "ok \<longleftrightarrow> (\<forall>en \<in> set ens. entry_holds e s en)"
    and "ens' = map (\<lambda>en. if entry_holds e s en then en else jset ''verifyFailure'' (JBool True) en) ens"
  using assms
  by (induction ens arbitrary: ens' ok)
    (auto simp: entry_holds_def Let_def split: sum.splits prod.splits if_splits)

lemma verify_entries_ok: "\<forall>en \<in> set ens. entry_holds e s en \<Longrightarrow> verify_entries e s ens = Inr (ens, True)"
  by (induction ens) (auto simp: entry_holds_def Let_def)

lemma verify_done:
  assumes "readManifest home i s = Inr m" and "json_plain m"
    and "guard_manifest i ''applied'' m = None"
    and "verify_entries e s (manifest_files m) = Inr (ens, ok)"
    and "slot_ready hex (manifest_path home i) s"
  shows "\<exists>s'. verify_op e hex i home s = (Inr (verified_manifest e m ens ok), s')
            \<and> readManifest home i s' = Inr (verified_manifest e m ens ok)
            \<and> (\<forall>q. q \<noteq> manifest_path home i \<longrightarrow> fget q s' = fget q s)"
proof -
  have "\<forall>en \<in> set ens. json_plain en"
    using verify_entries_all(2) [OF assms(4)] manifest_files_plain [OF assms(2)] by auto
  then have "json_plain (verified_manifest e m ens ok)"
    using assms(2) by (simp add: verified_manifest_def Let_def)
  from ms.wr_rd [OF assms(5) this] assms show ?thesis
    by (auto simp: verify_op_def bindI_def returnI_def)
qed

lemma verified_status:
  assumes "is_obj m"
  shows "manifest_status (verified_manifest e m ens ok) = (if ok then Some ''verified'' else manifest_status m)"
  using assms by (simp add: verified_manifest_def Let_def)

subsection \<open>Properties\<close>

text \<open>C14: Nothing is mutated before every check has passed: unless the manifest can be read, is in status
  snapshot_taken and every file it lists still has the digest taken with the snapshot,
  applyOperation fails and the disk, manifest included, is unchanged.\<close>

theorem apply_checks_first:
  assumes "\<not> (\<exists>m. readManifest home i s = Inr m \<and> manifest_status m = Some ''snapshot_taken''
               \<and> (\<exists>xs. jget ''files'' m = Some (JArr xs)) \<and> (\<forall>en \<in> set (manifest_files m). entry_clean e s en))"
  shows "\<exists>x. applyOperation e hex i home ops s = (Inl x, s)"
  by (rule apply_stopped) (use assms in \<open>simp add: guard_manifest_None\<close>)

lemma apply_checks_first_witness:
  "\<exists>x. applyOperation (sample_env 0) ''ab'' ''op'' ''/h'' [] [] = (Inl x, [])"
  by (rule apply_checks_first) (simp add: readManifest_def read_json_def fget_def)

lemma apply_entries_length: "length (fst (apply_entries e fs' xs t)) = length xs"
proof (induction xs arbitrary: fs' t)
  case (Cons en xs)
  obtain en' bad s1 where "apply_entry e (case fs' of [] \<Rightarrow> None | f # r \<Rightarrow> Some f) en t = (en', bad, s1)"
    by (cases "apply_entry e (case fs' of [] \<Rightarrow> None | f # r \<Rightarrow> Some f) en t") auto
  with Cons.IH [of "drop 1 fs'" s1] show ?case
    by (cases "apply_entries e (drop 1 fs') xs s1") simp
qed simp

definition sample_manifest :: json where
  \<comment> \<open>one file, snapshotted with content old\<close>
  "sample_manifest = JObj [(''status'', JStr ''snapshot_taken''),
     (''files'', JArr [JObj [(''originalPath'', JStr ''/h/f''), (''sha256Before'', JStr ''old'')]])]"

definition sample_disk :: "json \<Rightarrow> fs" where
  "sample_disk m = [(''/h/f'', File ''old'' 420), (''/h/.claude/housekeeper/operations'', Dir),
     (''/h/.claude/housekeeper/operations/op.json'', File (json_pretty m @ [nl]) 420)]"

lemma sample_disk_get:
  "fget ''/h/f'' (sample_disk m) = Some (File ''old'' 420)"
  "fget ''/h/.claude/housekeeper/operations'' (sample_disk m) = Some Dir"
  "fget ''/h/.claude/housekeeper/operations/op.json'' (sample_disk m) = Some (File (json_pretty m @ [nl]) 420)"
  "fget ''/h/.claude/housekeeper/operations/op.json.tmp.ab'' (sample_disk m) = None"
  by (simp_all add: sample_disk_def fget_def)

lemma sample_manifest_path: "manifest_path ''/h'' ''op'' = ''/h/.claude/housekeeper/operations/op.json''"
  by code_simp

lemma sample_read: "json_plain m \<Longrightarrow> readManifest ''/h'' ''op'' (sample_disk m) = Inr m"
proof -
  assume "json_plain m"
  moreover have "read_file (sample_disk m) ''/h/.claude/housekeeper/operations/op.json'' = Inr (json_pretty m @ [nl])"
    by (rule read_file_direct) (rule sample_disk_get)
  ultimately show ?thesis by (simp add: readManifest_def read_json_def sample_manifest_path)
qed

lemma sample_slot:
  "slot_ready ''ab'' (manifest_path ''/h'' ''op'') (sample_disk m)"
  "slot_ready ''ab'' (manifest_path ''/h'' ''op'') (fdel ''/h/f'' (sample_disk m))"
proof -
  have "dirname (tmp_path ''ab'' ''/h/.claude/housekeeper/operations/op.json'') = ''/h/.claude/housekeeper/operations''"
    by code_simp
  then show "slot_ready ''ab'' (manifest_path ''/h'' ''op'') (sample_disk m)"
    "slot_ready ''ab'' (manifest_path ''/h'' ''op'') (fdel ''/h/f'' (sample_disk m))"
    by (simp_all add: slot_ready_def tmp_ready_def sample_manifest_path parent_is_dir_def is_directory_def
        stat_node_direct tmp_path_def sample_disk_get)
qed

text \<open>When the checks pass the operation is recorded whatever the single mutations do: each failure is
  confined to its entry, the manifest on disk afterwards is the returned one, in status applied
  and with one entry per file, and beyond what the mutations themselves did only that manifest
  has changed.\<close>

lemma apply_records:
  assumes "readManifest home i s = Inr m" "json_plain m"
    and "guard_manifest i ''snapshot_taken'' m = None"
    and "\<forall>en \<in> set (manifest_files m). entry_clean e s en"
    and "apply_entries e ops (manifest_files m) s = (ens, bad, s1)"
    and "slot_ready hex (manifest_path home i) s1"
  shows "\<exists>m' s'. applyOperation e hex i home ops s = (Inr m', s') \<and> readManifest home i s' = Inr m'
     \<and> manifest_status m' = Some ''applied'' \<and> manifest_files m' = ens \<and> length ens = length (manifest_files m)
     \<and> (\<forall>q. q \<noteq> manifest_path home i \<longrightarrow> fget q s' = fget q s1)"
proof -
  from apply_entries_length [of e ops "manifest_files m" s] have "length ens = length (manifest_files m)" using assms(5) by simp
  moreover have "is_obj m" using assms(3) manifest_status_obj by (auto simp: guard_manifest_None)
  ultimately show ?thesis
    using apply_done [OF assms] applied_manifest_facts(1,2) by blast
qed

lemma sample_apply:
  "apply_entries (sample_env 0) [unlink_path] (manifest_files sample_manifest) (sample_disk sample_manifest)
   = ([JObj [(''originalPath'', JStr ''/h/f''), (''sha256Before'', JStr ''old''), (''sha256After'', JNull),
             (''applied'', JBool True)]], False, fdel ''/h/f'' (sample_disk sample_manifest))"
  using sample_disk_get(1)
  by (simp add: sample_manifest_def manifest_files_def apply_entry_def entry_path_def unlink_path_def Let_def)

lemma apply_records_witness:
  "\<exists>m' s'. applyOperation (sample_env 0) ''ab'' ''op'' ''/h'' [unlink_path] (sample_disk sample_manifest) = (Inr m', s')
     \<and> manifest_status m' = Some ''applied'' \<and> fget ''/h/f'' s' = None"
proof -
  have pl: "json_plain sample_manifest" and gd: "guard_manifest ''op'' ''snapshot_taken'' sample_manifest = None"
    by (simp_all add: sample_manifest_def guard_manifest_def manifest_status_def)
  have cl: "\<forall>en \<in> set (manifest_files sample_manifest). entry_clean (sample_env 0) (sample_disk sample_manifest) en"
    by (simp add: sample_manifest_def manifest_files_def entry_clean_def entry_hash_def entry_path_def
        hashFile_def sample_disk_get sample_env_def)
  from apply_records [OF sample_read [OF pl] pl gd cl sample_apply sample_slot(2)] obtain m' s' where
    "applyOperation (sample_env 0) ''ab'' ''op'' ''/h'' [unlink_path] (sample_disk sample_manifest) = (Inr m', s')"
    "manifest_status m' = Some ''applied''"
    "\<forall>q. q \<noteq> manifest_path ''/h'' ''op'' \<longrightarrow> fget q s' = fget q (fdel ''/h/f'' (sample_disk sample_manifest))" by blast
  then show ?thesis by (intro exI [of _ m'] exI [of _ s']) (simp add: sample_manifest_path)
qed

text \<open>C25: Verification is exact: an operation is moved to verified exactly when every file is as the apply
  recorded it (gone, or with the recorded digest); otherwise its status is unchanged and exactly
  the entries that do not hold carry the failure mark. The result is on disk and nothing else
  has changed.\<close>

theorem verify_exact:
  assumes "readManifest home i s = Inr m" "json_plain m" "guard_manifest i ''applied'' m = None"
    and "verify_entries e s (manifest_files m) = Inr (ens, ok)"
    and "slot_ready hex (manifest_path home i) s"
  shows "\<exists>m' s'. verify_op e hex i home s = (Inr m', s') \<and> readManifest home i s' = Inr m'
     \<and> manifest_status m' = (if \<forall>en \<in> set (manifest_files m). entry_holds e s en
                             then Some ''verified'' else Some ''applied'')
     \<and> ens = map (\<lambda>en. if entry_holds e s en then en else jset ''verifyFailure'' (JBool True) en) (manifest_files m)
     \<and> (\<forall>q. q \<noteq> manifest_path home i \<longrightarrow> fget q s' = fget q s)"
proof -
  have st: "manifest_status m = Some ''applied''" using assms(3) by (simp add: guard_manifest_None)
  then have ob: "is_obj m" by (rule manifest_status_obj)
  obtain s' where s': "verify_op e hex i home s = (Inr (verified_manifest e m ens ok), s')"
    "readManifest home i s' = Inr (verified_manifest e m ens ok)"
    "\<forall>q. q \<noteq> manifest_path home i \<longrightarrow> fget q s' = fget q s"
    using verify_done [OF assms] by blast
  have "manifest_status (verified_manifest e m ens ok)
      = (if \<forall>en \<in> set (manifest_files m). entry_holds e s en then Some ''verified'' else Some ''applied'')"
    unfolding verified_status [OF ob] verify_entries_all(1) [OF assms(4)] st ..
  then show ?thesis
    using s' verify_entries_all(2) [OF assms(4)]
    by (intro exI [of _ "verified_manifest e m ens ok"] exI [of _ s'] conjI)
qed

definition applied_sample :: json where
  "applied_sample = JObj [(''status'', JStr ''applied''), (''files'', JArr [JObj [(''originalPath'', JStr ''/h/f''),
     (''sha256Before'', JStr ''old''), (''sha256After'', JStr ''new'')]])]"

lemma verify_exact_witness:
  "\<exists>m' s'. verify_op (sample_env 0) ''ab'' ''op'' ''/h'' (sample_disk applied_sample) = (Inr m', s')
     \<and> manifest_status m' = Some ''applied''"
proof -
  have pl: "json_plain applied_sample" and gd: "guard_manifest ''op'' ''applied'' applied_sample = None"
    by (simp_all add: applied_sample_def guard_manifest_def manifest_status_def)
  have v: "verify_entries (sample_env 0) (sample_disk applied_sample) (manifest_files applied_sample)
      = Inr ([jset ''verifyFailure'' (JBool True) (hd (manifest_files applied_sample))], False)"
    by (simp add: applied_sample_def manifest_files_def entry_hash_def entry_path_def hashFile_def
        sample_disk_get sample_env_def)
  have "\<not> entry_holds (sample_env 0) (sample_disk applied_sample) (hd (manifest_files applied_sample))"
    by (simp add: applied_sample_def manifest_files_def entry_holds_def entry_hash_def entry_path_def
        hashFile_def sample_disk_get sample_env_def)
  moreover have "hd (manifest_files applied_sample) \<in> set (manifest_files applied_sample)"
    by (simp add: applied_sample_def manifest_files_def)
  ultimately show ?thesis
    using verify_exact [OF sample_read [OF pl] pl gd v sample_slot(1)] by auto
qed

end
