(* ===== verification/Opid.thy ===== *)
theory Opid
  imports Snapshot
begin

text \<open>
  Operation ids sort as their creation times do (generateOpId of scripts/lib/snapshot.mjs): the
  stamp is a fixed-width decimal numeral, and on such numerals the lexicographic order of
  strings, which the collector sorts by, is the order of the numbers. The collector's two
  slices are computed here too.
\<close>

subsection \<open>Fixed-width decimals\<close>

lemma foldl_digits: "foldl (\<lambda>n c. 10 * n + digit_val c) k s = k * 10 ^ length s + read_nat s"
proof (induction s arbitrary: k)
  case (Cons c s)
  have "read_nat (c # s) = foldl (\<lambda>n c. 10 * n + digit_val c) (digit_val c) s"
    by (simp add: read_nat_def)
  then show ?case using Cons [of "10 * k + digit_val c"] Cons [of "digit_val c"] by (simp add: algebra_simps)
qed (simp add: read_nat_def)

lemma read_nat_Cons: "read_nat (c # s) = digit_val c * 10 ^ length s + read_nat s"
  using foldl_digits [of "digit_val c" s] by (simp add: read_nat_def)

lemma read_nat_append: "read_nat (a @ b) = read_nat a * 10 ^ length b + read_nat b"
  using foldl_digits [of "read_nat a" b] by (simp add: read_nat_def)

lemma digit_val_less: "is_digit c \<Longrightarrow> digit_val c < 10"
  unfolding is_digit_def digit_val_def Let_def by linarith

lemma digit_val_order:
  assumes "is_digit c" "is_digit d"
  shows "c < d \<longleftrightarrow> digit_val c < digit_val d" and "c = d \<longleftrightarrow> digit_val c = digit_val d"
proof -
  have "48 \<le> (of_char c :: nat)" "48 \<le> (of_char d :: nat)"
    using assms by (auto simp: is_digit_def Let_def)
  then have "digit_val c < digit_val d \<longleftrightarrow> (of_char c :: nat) < of_char d"
    "digit_val c = digit_val d \<longleftrightarrow> (of_char c :: nat) = of_char d"
    unfolding digit_val_def by linarith+
  then show "c < d \<longleftrightarrow> digit_val c < digit_val d" "c = d \<longleftrightarrow> digit_val c = digit_val d"
    by (auto simp: less_char_def)
qed

lemma read_nat_less: "\<forall>c \<in> set s. is_digit c \<Longrightarrow> read_nat s < 10 ^ length s"
proof (induction s)
  case (Cons c s)
  have "digit_val c * 10 ^ length s + read_nat s < digit_val c * 10 ^ length s + 10 ^ length s"
    using Cons by simp
  also have "\<dots> \<le> 9 * 10 ^ length s + 10 ^ length s"
    using digit_val_less [of c] Cons.prems by simp
  finally show ?case by (simp add: read_nat_Cons)
qed (simp add: read_nat_def)

lemma digits_order:
  "length a = length b \<Longrightarrow> \<forall>c \<in> set (a @ b). is_digit c \<Longrightarrow> a < b \<longleftrightarrow> read_nat a < read_nat b"
proof (induction a b rule: list_induct2)
  case (Cons x a y b)
  have ra: "read_nat a < 10 ^ length a" and rb: "read_nat b < 10 ^ length a"
    using read_nat_less [of a] read_nat_less [of b] Cons by auto
  note dv = digit_val_order [of x y]
  have lt: "u * k + r < v * k + t" if "u < v" "r < k" for u v r t k :: nat
  proof -
    have "u * k + r < Suc u * k" using that by simp
    also have "\<dots> \<le> v * k" using that by (intro mult_right_mono) auto
    finally show ?thesis by simp
  qed
  consider "digit_val x < digit_val y" | "digit_val x = digit_val y" | "digit_val y < digit_val x"
    by linarith
  then show ?case
  proof cases
    case 1
    with Cons dv lt [OF 1 ra, of "read_nat b"] show ?thesis by (simp add: read_nat_Cons)
  next
    case 2
    with Cons dv show ?thesis by (simp add: read_nat_Cons)
  next
    case 3
    with Cons dv lt [OF 3 rb, of "read_nat a"] show ?thesis by (auto simp: read_nat_Cons)
  qed
qed (simp add: read_nat_def)

lemma show_nat_length: "0 < w \<Longrightarrow> n < 10 ^ w \<Longrightarrow> length (show_nat n) \<le> w"
proof (induction n arbitrary: w rule: show_nat.induct)
  case (1 n)
  show ?case
  proof (cases "n < 10")
    case True
    with 1 show ?thesis by (simp add: show_nat.simps [of n])
  next
    case False
    with 1 obtain v where w: "w = Suc v" "0 < v" by (cases w; cases "w - 1") auto
    with 1(3) have "n div 10 < 10 ^ v" by (simp add: less_mult_imp_div_less)
    with 1(1) [OF False w(2)] False w show ?thesis by (simp add: show_nat.simps [of n])
  qed
qed

lemma read_nat_zeros: "read_nat (replicate k (CHR ''0'') @ s) = read_nat s"
  by (induction k) (auto simp: read_nat_Cons digit_val_def)

lemma pad_facts:
  assumes "0 < w" "n < 10 ^ w"
  shows "length (pad_start w (CHR ''0'') (show_nat n)) = w"
    and "read_nat (pad_start w (CHR ''0'') (show_nat n)) = n"
    and "\<forall>c \<in> set (pad_start w (CHR ''0'') (show_nat n)). is_digit c"
  using show_nat_length [OF assms] show_nat_digits
  by (auto simp: pad_start_def read_nat_zeros is_digit_def)

subsection \<open>Stamps\<close>

definition valid_utc :: "utc \<Rightarrow> bool" where
  "valid_utc t = (yr t < 10000 \<and> mon t \<le> 12 \<and> day t \<le> 31 \<and> hr t < 24 \<and> mnt t < 60 \<and> sec t < 60)"

definition utc_less :: "utc \<Rightarrow> utc \<Rightarrow> bool" where
  "utc_less a b =
     (yr a < yr b \<or> yr a = yr b \<and> (mon a < mon b \<or> mon a = mon b \<and> (day a < day b
      \<or> day a = day b \<and> (hr a < hr b \<or> hr a = hr b \<and> (mnt a < mnt b
      \<or> mnt a = mnt b \<and> sec a < sec b)))))"

definition stamp_num :: "utc \<Rightarrow> nat" where
  "stamp_num t = ((((yr t * 100 + mon t) * 100 + day t) * 100 + hr t) * 100 + mnt t) * 100 + sec t"

lemma step100: "u < 100 \<Longrightarrow> v < 100 \<Longrightarrow> x * 100 + u < y * 100 + v \<longleftrightarrow> x < y \<or> x = y \<and> u < (v::nat)"
  by (cases x y rule: linorder_cases) auto

lemma step100_eq: "u < 100 \<Longrightarrow> v < 100 \<Longrightarrow> x * 100 + u = y * 100 + v \<longleftrightarrow> x = y \<and> u = (v::nat)"
  by (cases x y rule: linorder_cases) auto

lemma stamp_num_order:
  assumes "valid_utc a" "valid_utc b"
  shows "stamp_num a < stamp_num b \<longleftrightarrow> utc_less a b"
proof -
  have "mon a < 100" "day a < 100" "hr a < 100" "mnt a < 100" "sec a < 100"
    "mon b < 100" "day b < 100" "hr b < 100" "mnt b < 100" "sec b < 100"
    using assms by (auto simp: valid_utc_def)
  then show ?thesis
    unfolding stamp_num_def utc_less_def by (simp only: step100 step100_eq) blast
qed

lemma op_stamp_facts:
  assumes "valid_utc t"
  shows "length (op_stamp t) = 14" and "read_nat (op_stamp t) = stamp_num t"
    and "\<forall>c \<in> set (op_stamp t). is_digit c"
proof -
  have "yr t < 10 ^ 4" "mon t < 10 ^ 2" "day t < 10 ^ 2" "hr t < 10 ^ 2" "mnt t < 10 ^ 2" "sec t < 10 ^ 2"
    using assms by (auto simp: valid_utc_def)
  note f = pad_facts [of 4, OF _ this(1)] pad_facts [of 2, OF _ this(2)] pad_facts [of 2, OF _ this(3)]
    pad_facts [of 2, OF _ this(4)] pad_facts [of 2, OF _ this(5)] pad_facts [of 2, OF _ this(6)]
  show "length (op_stamp t) = 14" "read_nat (op_stamp t) = stamp_num t"
    using f by (simp_all add: op_stamp_def stamp_num_def read_nat_append algebra_simps)
  show "\<forall>c \<in> set (op_stamp t). is_digit c"
    using f by (auto simp: op_stamp_def)
qed

lemma less_append: "length a = length b \<Longrightarrow> a < b \<Longrightarrow> a @ x < b @ (y :: string)"
  by (induction a b rule: list_induct2) auto

lemma opid_order:
  assumes "valid_utc a" "valid_utc b" "utc_less a b"
  shows "generateOpId a h < generateOpId b h'"
proof -
  note fa = op_stamp_facts [OF assms(1)] and fb = op_stamp_facts [OF assms(2)]
  have "op_stamp a < op_stamp b"
    using digits_order [of "op_stamp a" "op_stamp b"] fa fb stamp_num_order [OF assms(1,2)] assms(3) by auto
  with less_append [of "op_stamp a" "op_stamp b"] fa(1) fb(1)
  show ?thesis by (simp add: generateOpId_def)
qed

subsection \<open>The slices of gcSnapshots\<close>

lemma gc_keep_drop: "gc_keep xs = drop (length xs - 10) xs"
  by (auto simp: gc_keep_def js_slice_def Let_def KEEP_COUNT_def nat_diff_distrib max_def)

lemma gc_remove_take:
  "gc_remove xs = (if 10 \<le> length xs then take (length xs - 10) xs else take (2 * length xs - 10) xs)"
  by (auto simp: gc_remove_def js_slice_def Let_def KEEP_COUNT_def nat_diff_distrib max_def)
    (auto intro: arg_cong [where f = "\<lambda>k. take k xs"])

lemma gc_partition: "10 \<le> length xs \<Longrightarrow> gc_remove xs @ gc_keep xs = xs \<and> length (gc_keep xs) = 10"
  by (simp add: gc_keep_drop gc_remove_take)

lemma gc_small: "length xs \<le> 5 \<Longrightarrow> gc_remove xs = [] \<and> gc_keep xs = xs"
  by (simp add: gc_keep_drop gc_remove_take)

lemma gc_overlap:
  "5 < length xs \<Longrightarrow> length xs < 10 \<Longrightarrow>
   gc_keep xs = xs \<and> gc_remove xs = take (2 * length xs - 10) xs \<and> gc_remove xs \<noteq> []"
  by (auto simp: gc_keep_drop gc_remove_take)

subsection \<open>Properties\<close>

text \<open>Operation ids are ordered like the times at which they were drawn: of two operations started in
  different seconds the earlier one has the smaller id string, whatever their random suffixes, so
  the lexical sort in the garbage collection is chronological.\<close>

lemma opid_chronological:
  assumes "valid_utc a" "valid_utc b" "utc_less a b"
  shows "generateOpId a x < generateOpId b y"
  by (rule opid_order [OF assms])

definition sample_utc :: "nat \<Rightarrow> utc" where
  "sample_utc s = \<lparr>yr = 2025, mon = 12, day = 31, hr = 23, mnt = 59, sec = s\<rparr>"

lemma opid_chronological_witness:
  "generateOpId (sample_utc 9) ''ff'' < generateOpId (sample_utc 10) ''00''"
  by (rule opid_chronological) (simp_all add: valid_utc_def utc_less_def sample_utc_def)

text \<open>Retention of finished operations: with ten or more the ten newest are kept and exactly the
  others are removed; with five or fewer nothing is removed and all are kept.\<close>

lemma gc_retention:
  assumes "length xs \<le> 5 \<or> 10 \<le> length xs"
  shows "gc_remove xs @ gc_keep xs = xs \<and> length (gc_keep xs) = min 10 (length xs)"
  using assms gc_partition [of xs] gc_small [of xs] by auto

lemma gc_retention_witness: "gc_remove [1 ..< 13] = [1, 2 :: nat]"
  using gc_retention [of "[1 ..< 13 :: nat]"] by (auto simp: gc_remove_take upt_rec)

text \<open>With six to nine finished operations the garbage collection removes some that it reports as kept:
  the end of its slice is negative and counts from the end, so the oldest 2 n - 10 of n ids are
  deleted while every one of the n is listed as kept.\<close>

lemma gc_deletes_kept:
  assumes "5 < length xs" "length xs < 10"
  shows "gc_keep xs = xs \<and> gc_remove xs = take (2 * length xs - 10) xs \<and> gc_remove xs \<noteq> []"
  by (rule gc_overlap [OF assms])

lemma gc_deletes_kept_witness: "gc_remove [1 ..< 7] = [1, 2 :: nat] \<and> gc_keep [1 ..< 7] = [1 ..< 7 :: nat]"
  using gc_deletes_kept [of "[1 ..< 7 :: nat]"] by (simp add: upt_rec)

end
