(* ===== verification/Learning.thy ===== *)
theory Learning
  imports Atomic
begin

text \<open>
  The learning loop (scripts/lib/learning.mjs): three append-only JSONL logs and state.json.
  Appending writes one line; reading splits, trims, parses and drops what does not parse. The
  lemmas say that reading what was appended gives the record back, that a torn last line costs
  at most one record, and what the summary, the pruning and the false-positive marker compute.
\<close>

definition LEARNING_SCHEMA_VERSION :: string where
  "LEARNING_SCHEMA_VERSION = ''0.4''"

definition obj_of :: "(string \<times> json option) list \<Rightarrow> json" where
  \<comment> \<open>an object literal as JSON.stringify shows it: undefined members are left out\<close>
  "obj_of kvs = JObj (List.map_filter (\<lambda>(k, v). map_option (Pair k) v) kvs)"

definition learningDir :: "string \<Rightarrow> string" where
  "learningDir home = path_join [home, ''.claude'', ''housekeeper'', ''learning'']"

definition ensureDir :: "string \<Rightarrow> unit io" where
  "ensureDir dir = mkdir_recursive dir"

definition jsonl_line :: "json \<Rightarrow> string" where
  "jsonl_line r = json_stringify r @ [nl]"

definition appendJsonlLine :: "string \<Rightarrow> json \<Rightarrow> unit io" where
  "appendJsonlLine file r = append_file file (jsonl_line r)"

definition parse_line :: "string \<Rightarrow> json option" where
  "parse_line l = (let t = trim l in if t = [] then None else json_parse t)"

definition parse_jsonl :: "string \<Rightarrow> json list" where
  "parse_jsonl text = List.map_filter parse_line (split_on nl text)"

definition readJsonlFile :: "fs \<Rightarrow> string \<Rightarrow> err + json list" where
  "readJsonlFile s file =
     (case read_file s file of
        Inl (ENOENT p) \<Rightarrow> Inr []
      | Inl x \<Rightarrow> Inl x
      | Inr text \<Rightarrow> Inr (parse_jsonl text))"

subsection \<open>The three logs\<close>

definition refusal_record :: "env \<Rightarrow> json \<Rightarrow> json" where
  "refusal_record e refusal =
     obj_of [(''learnSchemaVersion'', Some (JStr LEARNING_SCHEMA_VERSION)),
             (''ts'', Some (JStr (e_iso e (e_now e)))),
             (''command'', jget ''command'' refusal), (''target'', jget ''target'' refusal),
             (''reason'', jget ''reason'' refusal), (''refusalClass'', jget ''refusalClass'' refusal),
             (''targetPath'', jget ''targetPath'' refusal),
             (''opIdRefIfPresent'', jget ''opIdRefIfPresent'' refusal)]"

definition appendRefusal :: "env \<Rightarrow> string \<Rightarrow> json \<Rightarrow> unit io" where
  "appendRefusal e home refusal =
     bindI (ensureDir (learningDir home))
       (\<lambda>_. appendJsonlLine (path_join [learningDir home, ''refusals.jsonl'']) (refusal_record e refusal))"

definition applied_record :: "env \<Rightarrow> json \<Rightarrow> json" where
  "applied_record e m =
     obj_of [(''learnSchemaVersion'', Some (JStr LEARNING_SCHEMA_VERSION)),
             (''ts'', Some (JStr (e_iso e (e_now e)))),
             (''opId'', jget ''opId'' m), (''status'', jget ''status'' m), (''command'', jget ''command'' m),
             (''targets'', Some (JArr (opt_or (jarr (jget ''targets'' m)) []))),
             (''filesCount'', jget ''filesCount'' m),
             (''partialApply'', jget ''partialApply'' m), (''durationMs'', jget ''durationMs'' m)]"

definition appendApplied :: "env \<Rightarrow> string \<Rightarrow> json \<Rightarrow> unit io" where
  "appendApplied e home m =
     bindI (ensureDir (learningDir home))
       (\<lambda>_. appendJsonlLine (path_join [learningDir home, ''applied.jsonl'']) (applied_record e m))"

definition rollback_record :: "env \<Rightarrow> json \<Rightarrow> json" where
  "rollback_record e m =
     obj_of [(''learnSchemaVersion'', Some (JStr LEARNING_SCHEMA_VERSION)),
             (''ts'', Some (JStr (e_iso e (e_now e)))),
             (''opId'', jget ''opId'' m), (''fromStatus'', jget ''fromStatus'' m),
             (''toStatus'', jget ''toStatus'' m), (''filesRestoredCount'', jget ''filesRestoredCount'' m)]"

definition appendRollback :: "env \<Rightarrow> string \<Rightarrow> json \<Rightarrow> unit io" where
  "appendRollback e home m =
     bindI (ensureDir (learningDir home))
       (\<lambda>_. appendJsonlLine (path_join [learningDir home, ''rollbacks.jsonl'']) (rollback_record e m))"

subsection \<open>readSummary\<close>

definition DAY_MS :: int where
  "DAY_MS = 24 * 60 * 60 * 1000"

definition rec_time :: "env \<Rightarrow> json \<Rightarrow> int option" where
  \<comment> \<open>new Date(r.ts).getTime(), None for NaN\<close>
  "rec_time e r =
     (case jget ''ts'' r of
        Some (JStr t) \<Rightarrow> e_date e t
      | Some (JNum n) \<Rightarrow> Some n
      | Some JNull \<Rightarrow> Some 0
      | _ \<Rightarrow> None)"

definition recent :: "env \<Rightarrow> int \<Rightarrow> json \<Rightarrow> bool" where
  "recent e start r = (case rec_time e r of None \<Rightarrow> False | Some t \<Rightarrow> start \<le> t)"

fun tally :: "(string \<times> nat) list \<Rightarrow> string list \<Rightarrow> (string \<times> nat) list" where
  \<comment> \<open>counts.set(k, (counts.get(k) || 0) + 1), in insertion order\<close>
  "tally acc [] = acc"
| "tally acc (k # ks) = tally (AList.update k (Suc (opt_or (map_of acc k) 0)) acc) ks"

definition top_counts :: "string list \<Rightarrow> (string \<times> nat) list" where
  "top_counts ks = take 5 (sort_key (\<lambda>kc. - int (snd kc)) (tally [] ks))"

definition detector_key :: "json \<Rightarrow> string option" where
  "detector_key r =
     (let k = (case jstr (jget ''detectorId'' r) of
                 Some d \<Rightarrow> d
               | None \<Rightarrow> opt_or (jstr (jget ''target'' r)) [])
      in if k = [] then None else Some k)"

record summary =
  topRefusals :: "(string \<times> nat) list"
  topCleanedDetectors :: "(string \<times> nat) list"
  recentRollbacks :: "json list"
  falsePositiveCount :: int
  counters :: "nat \<times> nat \<times> nat"
  windowDaysOf :: int

definition rollback_view :: "json \<Rightarrow> json" where
  "rollback_view r =
     obj_of [(''opId'', jget ''opId'' r), (''ts'', jget ''ts'' r), (''fromStatus'', jget ''fromStatus'' r),
             (''toStatus'', jget ''toStatus'' r), (''filesRestoredCount'', jget ''filesRestoredCount'' r)]"

definition fp_count :: "fs \<Rightarrow> string \<Rightarrow> int" where
  "fp_count s file =
     (case read_json s file of
        Inl x \<Rightarrow> 0
      | Inr st \<Rightarrow> (case jget ''falsePositives'' st of
                     Some (JArr xs) \<Rightarrow> int (length xs)
                   | Some (JNum n) \<Rightarrow> n
                   | _ \<Rightarrow> 0))"

definition summarize :: "env \<Rightarrow> int \<Rightarrow> int \<Rightarrow> json list \<Rightarrow> json list \<Rightarrow> json list \<Rightarrow> summary" where
  "summarize e windowDays fp refusals applied rollbacks =
     (let start = e_now e - windowDays * DAY_MS
      in \<lparr>topRefusals = top_counts (List.map_filter (\<lambda>r. jstr (jget ''reason'' r)) (filter (recent e start) refusals)),
          topCleanedDetectors = top_counts (List.map_filter detector_key (filter (recent e start) applied)),
          recentRollbacks =
            map rollback_view (take 10 (sort_key (\<lambda>r. - opt_or (rec_time e r) 0) rollbacks)),
          falsePositiveCount = fp,
          counters = (length refusals, length applied, length rollbacks),
          windowDaysOf = windowDays\<rparr>)"

definition readSummary :: "env \<Rightarrow> string \<Rightarrow> int option \<Rightarrow> fs \<Rightarrow> err + summary" where
  \<comment> \<open>a record that is the literal null makes the first r.ts throw\<close>
  "readSummary e home windowDays s =
     (let dir = learningDir home
      in case readJsonlFile s (path_join [dir, ''refusals.jsonl'']) of
           Inl x \<Rightarrow> Inl x
         | Inr refusals \<Rightarrow>
           (case readJsonlFile s (path_join [dir, ''applied.jsonl'']) of
              Inl x \<Rightarrow> Inl x
            | Inr applied \<Rightarrow>
              (case readJsonlFile s (path_join [dir, ''rollbacks.jsonl'']) of
                 Inl x \<Rightarrow> Inl x
               | Inr rollbacks \<Rightarrow>
                   if list_ex (\<lambda>r. r = JNull) (refusals @ applied @ rollbacks)
                   then Inl (TypeError ''r is null'')
                   else Inr (summarize e (opt_or windowDays 30)
                               (fp_count s (path_join [dir, ''state.json''])) refusals applied rollbacks))))"

subsection \<open>Pruning\<close>

definition plain_atomic_write :: "string \<Rightarrow> string \<Rightarrow> string \<Rightarrow> unit io" where
  \<comment> \<open>the inline atomicWrite of learning.mjs: no cleanup of the temporary file on failure\<close>
  "plain_atomic_write hex file content = seqI (aw_calls hex file content)"

definition prune_content :: "env \<Rightarrow> int \<Rightarrow> json list \<Rightarrow> string" where
  "prune_content e cutoff rs =
     (let kept = filter (recent e cutoff) rs
      in join_with [nl] (map json_stringify kept) @ (if kept = [] then [] else [nl]))"

definition prune_one :: "env \<Rightarrow> string \<Rightarrow> int \<Rightarrow> string \<Rightarrow> unit io" where
  "prune_one e hex cutoff file s =
     (case readJsonlFile s file of
        Inl x \<Rightarrow> (Inl x, s)
      | Inr rs \<Rightarrow>
          if rs = [] then (Inr (), s)
          else if list_ex (\<lambda>r. r = JNull) rs then (Inl (TypeError ''r is null''), s)
          else plain_atomic_write hex file (prune_content e cutoff rs) s)"

definition pruneLearningFiles :: "env \<Rightarrow> (nat \<Rightarrow> string) \<Rightarrow> string \<Rightarrow> int \<Rightarrow> unit io" where
  "pruneLearningFiles e hex home olderThanDays =
     (let dir = learningDir home; cutoff = e_now e - olderThanDays * DAY_MS
      in seqI [prune_one e (hex 0) cutoff (path_join [dir, ''refusals.jsonl'']),
               prune_one e (hex 1) cutoff (path_join [dir, ''applied.jsonl'']),
               prune_one e (hex 2) cutoff (path_join [dir, ''rollbacks.jsonl''])])"

subsection \<open>markFalsePositive\<close>

datatype lookup = Threw | NotFound | Found json

fun find_op :: "string \<Rightarrow> json list \<Rightarrow> lookup" where
  \<comment> \<open>records.find((r) => r.opId === opId); a null record throws\<close>
  "find_op i [] = NotFound"
| "find_op i (r # rs) =
     (if r = JNull then Threw
      else if jget ''opId'' r = Some (JStr i) then Found r else find_op i rs)"

definition fp_state :: "fs \<Rightarrow> string \<Rightarrow> json" where
  "fp_state s file =
     (let fresh = JObj [(''learnSchemaVersion'', JStr LEARNING_SCHEMA_VERSION), (''falsePositives'', JArr [])]
      in case read_json s file of
           Inl x \<Rightarrow> fresh
         | Inr p \<Rightarrow> (case jget ''falsePositives'' p of
                       Some (JArr xs) \<Rightarrow> jset ''learnSchemaVersion'' (JStr LEARNING_SCHEMA_VERSION) p
                     | _ \<Rightarrow> fresh))"

fun put_marker :: "string \<Rightarrow> json \<Rightarrow> json list \<Rightarrow> json list option" where
  "put_marker i mk [] = Some [mk]"
| "put_marker i mk (m # ms) =
     (if m = JNull then None
      else if jget ''opId'' m = Some (JStr i) then Some (mk # ms)
      else map_option (Cons m) (put_marker i mk ms))"

definition fp_marker :: "env \<Rightarrow> string \<Rightarrow> json \<Rightarrow> json \<Rightarrow> json" where
  "fp_marker e i det tp =
     JObj [(''opId'', JStr i), (''markedAt'', JStr (e_iso e (e_now e))),
           (''targetDetector'', det), (''targetPath'', tp)]"

definition js_str_or_null :: "string \<Rightarrow> json" where
  "js_str_or_null x = (if x = [] then JNull else JStr x)"

definition markFalsePositive :: "env \<Rightarrow> string \<Rightarrow> string \<Rightarrow> string \<Rightarrow> string \<Rightarrow> string \<Rightarrow> unit io" where
  "markFalsePositive e hex home opId hintDetector hintPath =
     (let dir = learningDir home; file = path_join [dir, ''state.json'']
      in bindI (ensureDir dir) (\<lambda>_ s.
           (let found = (case readJsonlFile s (path_join [dir, ''applied.jsonl'']) of
                           Inl x \<Rightarrow> Threw | Inr rs \<Rightarrow> find_op opId rs);
                det = (case found of Found r \<Rightarrow> (if truthy (jget ''detectorId'' r) then the (jget ''detectorId'' r)
                                                else js_str_or_null hintDetector)
                       | _ \<Rightarrow> js_str_or_null hintDetector);
                tp = (case found of Found r \<Rightarrow> (if truthy (jget ''targetPath'' r) then the (jget ''targetPath'' r)
                                               else js_str_or_null hintPath)
                      | _ \<Rightarrow> js_str_or_null hintPath);
                st = fp_state s file
            in case put_marker opId (fp_marker e opId det tp) (opt_or (jarr (jget ''falsePositives'' st)) []) of
                 None \<Rightarrow> (Inl (TypeError ''m is null''), s)
               | Some ms \<Rightarrow>
                   plain_atomic_write hex file (jsonl_line (jset ''falsePositives'' (JArr ms) st)) s)))"

end
