(* ===== verification/Learning_Facts.thy ===== *)
theory Learning_Facts
  imports Learning "HOL-Library.Multiset"
begin

text \<open>
  Facts about the learning loop: the JSONL round trip, also after a torn write and after
  pruning; what the counters and the top-five lists are; the false-positive list keeps one
  marker per operation.
\<close>

subsection \<open>JSONL\<close>

definition line_value :: "json \<Rightarrow> bool" where
  \<comment> \<open>a record the program appends: an object that survives a round trip\<close>
  "line_value r = (is_obj r \<and> json_plain r)"

definition log_text :: "string \<Rightarrow> bool" where
  \<comment> \<open>empty, or ending in a newline\<close>
  "log_text t = (t = [] \<or> ends_with [nl] t)"

lemma trim_id:
  assumes "s = a # w @ [b]" "\<not> is_space a" "\<not> is_space b"
  shows "trim s = s"
  using assms by (simp add: trim_def trim_end_def)

lemma trim_stringify_obj: "is_obj r \<Longrightarrow> trim (json_stringify r) = json_stringify r"
proof -
  assume "is_obj r"
  then obtain kvs where r: "r = JObj kvs" by (auto simp: is_obj_iff)
  show ?thesis
  proof (cases "kvs = []")
    case True
    with r have "json_stringify r = CHR 0x7B # [] @ [CHR 0x7D]" by (simp add: json_stringify_def)
    then show ?thesis by (rule trim_id) (simp_all add: is_space_def)
  next
    case False
    with r have "json_stringify r = CHR 0x7B # (show_members False 1 kvs) @ [CHR 0x7D]"
      by (simp add: json_stringify_def brk_def)
    then show ?thesis by (rule trim_id) (simp_all add: is_space_def)
  qed
qed

lemma parse_line_Nil [simp]: "parse_line [] = None"
  by (simp add: parse_line_def trim_def trim_end_def)

lemma parse_line_stringify:
  assumes "line_value r"
  shows "parse_line (json_stringify r) = Some r"
proof -
  have "json_parse (json_stringify r) = Some r" using assms by (simp add: line_value_def)
  moreover have "json_stringify r \<noteq> []"
    using assms by (auto simp: line_value_def is_obj_iff json_stringify_def split: if_splits)
  ultimately show ?thesis
    using assms by (simp add: parse_line_def Let_def trim_stringify_obj line_value_def)
qed

lemma map_filter_append: "List.map_filter f (xs @ ys) = List.map_filter f xs @ List.map_filter f ys"
  by (simp add: List.map_filter_def)

lemma map_filter_Nil [simp]: "List.map_filter f [] = []"
  by (simp add: List.map_filter_def)

lemma map_filter_Cons [simp]:
  "List.map_filter f (x # xs) = (case f x of None \<Rightarrow> List.map_filter f xs | Some y \<Rightarrow> y # List.map_filter f xs)"
  by (simp add: List.map_filter_def split: option.splits)

lemma parse_jsonl_mid:
  "parse_jsonl (a @ nl # b) = parse_jsonl a @ parse_jsonl b"
  by (simp add: parse_jsonl_def split_on_mid map_filter_append)

lemma parse_jsonl_Nil [simp]: "parse_jsonl [] = []"
  by (simp add: parse_jsonl_def)

lemma parse_jsonl_log: "log_text t \<Longrightarrow> parse_jsonl (t @ u) = parse_jsonl t @ parse_jsonl u"
proof -
  assume "log_text t"
  then consider "t = []" | a where "t = a @ [nl]" by (auto simp: log_text_def ends_with_iff)
  then show ?thesis
  proof cases
    case 2
    then show ?thesis using parse_jsonl_mid [of a u] parse_jsonl_mid [of a "[]"] by simp
  qed simp
qed

lemma parse_jsonl_one_line:
  "nl \<notin> set w \<Longrightarrow> parse_jsonl (w @ [nl]) = (case parse_line w of None \<Rightarrow> [] | Some r \<Rightarrow> [r])"
  using split_on_word [of nl w] split_on_mid [of nl w "[]"]
  by (simp add: parse_jsonl_def split: option.splits)

lemma parse_jsonl_line: "line_value r \<Longrightarrow> parse_jsonl (jsonl_line r) = [r]"
  using parse_jsonl_one_line [of "json_stringify r"] stringify_one_line [of r]
  by (simp add: jsonl_line_def line_value_def parse_line_stringify)

lemma parse_jsonl_append:
  "log_text t \<Longrightarrow> line_value r \<Longrightarrow> parse_jsonl (t @ jsonl_line r) = parse_jsonl t @ [r]"
  by (simp add: parse_jsonl_log parse_jsonl_line)

lemma parse_jsonl_torn:
  assumes "log_text t" "nl \<notin> set u" "line_value r"
  shows "\<exists>rest. parse_jsonl (t @ u @ jsonl_line r) = parse_jsonl t @ rest \<and> length rest \<le> 1"
proof -
  have "nl \<notin> set (u @ json_stringify r)"
    using assms(2,3) stringify_one_line by (auto simp: line_value_def)
  from parse_jsonl_one_line [OF this] parse_jsonl_log [OF assms(1), of "u @ jsonl_line r"]
  show ?thesis by (auto simp: jsonl_line_def split: option.splits)
qed

lemma log_text_line: "log_text (t @ jsonl_line r)"
  by (auto simp: log_text_def jsonl_line_def ends_with_iff)

lemma join_lines:
  "kept \<noteq> [] \<Longrightarrow> join_with [nl] (map json_stringify kept) @ [nl] = concat (map jsonl_line kept)"
proof (induction kept)
  case (Cons r kept)
  then show ?case by (cases kept) (auto simp: jsonl_line_def)
qed simp

lemma parse_jsonl_lines: "\<forall>r \<in> set rs. line_value r \<Longrightarrow> parse_jsonl (concat (map jsonl_line rs)) = rs"
proof (induction rs)
  case (Cons r rs)
  have "log_text (jsonl_line r)" using log_text_line [of "[]" r] by simp
  with Cons show ?case by (simp add: parse_jsonl_log parse_jsonl_line)
qed simp

lemma prune_content_parse:
  assumes "\<forall>r \<in> set rs. line_value r"
  shows "parse_jsonl (prune_content e cutoff rs) = filter (recent e cutoff) rs"
proof (cases "filter (recent e cutoff) rs = []")
  case True
  then show ?thesis by (simp add: prune_content_def Let_def)
next
  case False
  then have "prune_content e cutoff rs = concat (map jsonl_line (filter (recent e cutoff) rs))"
    using join_lines [OF False] by (simp add: prune_content_def Let_def)
  with assms show ?thesis by (simp add: parse_jsonl_lines)
qed

subsection \<open>Counting\<close>

lemma tally_count:
  "map_of (tally acc ks) k =
     (if k \<in> set ks then Some (count_list ks k + opt_or (map_of acc k) 0) else map_of acc k)"
proof (induction ks arbitrary: acc)
  case (Cons x ks)
  have "map_of (AList.update x v acc) k = (if k = x then Some v else map_of acc k)" for v
    by (simp add: update_conv')
  with Cons show ?case by (auto split: option.splits)
qed simp

lemma tally_distinct: "distinct (map fst acc) \<Longrightarrow> distinct (map fst (tally acc ks))"
  by (induction ks arbitrary: acc) (auto simp: distinct_update)

lemma tally_mem: "(k, c) \<in> set (tally [] ks) \<longleftrightarrow> k \<in> set ks \<and> c = count_list ks k"
proof -
  have d: "distinct (map fst (tally [] ks))" by (rule tally_distinct) simp
  have "(k, c) \<in> set (tally [] ks) \<longleftrightarrow> map_of (tally [] ks) k = Some c"
    using map_of_eq_Some_iff [OF d] by simp
  then show ?thesis by (auto simp: tally_count)
qed

lemma top_counts_facts:
  shows "length (top_counts ks) \<le> 5"
    and "(k, c) \<in> set (top_counts ks) \<Longrightarrow> k \<in> set ks \<and> c = count_list ks k"
    and "sorted_wrt (\<lambda>a b. snd b \<le> snd a) (top_counts ks)"
    and "distinct (map fst (top_counts ks))"
    and "k \<in> set ks \<Longrightarrow> k \<notin> fst ` set (top_counts ks) \<Longrightarrow> (k', c') \<in> set (top_counts ks)
         \<Longrightarrow> count_list ks k \<le> c'"
proof -
  let ?l = "sort_key (\<lambda>kc. - int (snd kc)) (tally [] ks)"
  have st: "set ?l = set (tally [] ks)" by simp
  have d: "distinct (map fst ?l)"
  proof -
    have "mset (map fst ?l) = mset (map fst (tally [] ks))" by (simp add: mset_map)
    then show ?thesis using tally_distinct [of "[]" ks] mset_eq_imp_distinct_iff by fastforce
  qed
  have "sorted (map (\<lambda>kc. - int (snd kc)) ?l)" by simp
  then have so: "sorted_wrt (\<lambda>a b. snd b \<le> snd a) ?l"
    unfolding sorted_map by (rule sorted_wrt_mono_rel [rotated]) simp
  show "length (top_counts ks) \<le> 5" by (simp add: top_counts_def)
  show "(k, c) \<in> set (top_counts ks) \<Longrightarrow> k \<in> set ks \<and> c = count_list ks k"
    using in_set_takeD [of "(k, c)" 5 ?l] by (simp add: top_counts_def st tally_mem)
  show "sorted_wrt (\<lambda>a b. snd b \<le> snd a) (top_counts ks)"
    unfolding top_counts_def by (rule sorted_wrt_take [OF so])
  show "distinct (map fst (top_counts ks))"
    unfolding top_counts_def take_map [symmetric] by (rule distinct_take [OF d])
  show "count_list ks k \<le> c'"
    if "k \<in> set ks" "k \<notin> fst ` set (top_counts ks)" "(k', c') \<in> set (top_counts ks)"
  proof -
    have "(k, count_list ks k) \<in> set ?l" using that(1) by (simp add: tally_mem)
    moreover have "(k, count_list ks k) \<notin> set (take 5 ?l)"
      using that(2) by (force simp: top_counts_def)
    ultimately have "(k, count_list ks k) \<in> set (drop 5 ?l)"
      using append_take_drop_id [of 5 ?l] by (metis Un_iff set_append)
    moreover have "sorted_wrt (\<lambda>a b. snd b \<le> snd a) (take 5 ?l @ drop 5 ?l)"
      using so by simp
    ultimately show ?thesis
      using that(3) unfolding sorted_wrt_append top_counts_def by fastforce
  qed
qed

lemma jget_obj_of:
  "distinct (map fst kvs) \<Longrightarrow> jget k (obj_of kvs) = (case map_of kvs k of None \<Rightarrow> None | Some v \<Rightarrow> v)"
proof (induction kvs)
  case (Cons kv kvs)
  have "jget k (obj_of kvs) = None" if "k = fst kv"
  proof -
    have "map_of kvs k = None" using Cons.prems that by (force simp: map_of_eq_None_iff)
    with Cons show ?thesis by simp
  qed
  with Cons show ?case
    by (cases kv; cases "snd kv") (auto simp: obj_of_def)
qed (simp add: obj_of_def)

lemma detector_of_applied: "detector_key (applied_record e m) = None"
proof -
  have "jget ''detectorId'' (applied_record e m) = None" "jget ''target'' (applied_record e m) = None"
    unfolding applied_record_def by (subst jget_obj_of; simp)+
  then show ?thesis by (simp add: detector_key_def)
qed

subsection \<open>The false-positive list\<close>

definition op_of :: "json \<Rightarrow> json option" where
  "op_of m = jget ''opId'' m"

lemma put_marker_facts:
  "put_marker i mk ms = Some ms' \<Longrightarrow> op_of mk = Some (JStr i) \<Longrightarrow>
     (\<exists>m \<in> set ms'. m = mk)
   \<and> length (filter (\<lambda>m. op_of m = Some (JStr i)) ms')
       = max 1 (length (filter (\<lambda>m. op_of m = Some (JStr i)) ms))
   \<and> filter (\<lambda>m. op_of m \<noteq> Some (JStr i)) ms' = filter (\<lambda>m. op_of m \<noteq> Some (JStr i)) ms"
  by (induction ms arbitrary: ms') (auto simp: op_of_def split: if_splits)

subsection \<open>Properties\<close>

lemma append_record_file:
  assumes "fget p s = Some (File t m)"
  shows "appendJsonlLine p r s = (Inr (), fput p (File (t @ jsonl_line r) m) s)"
  using append_one [OF assms] by (simp add: appendJsonlLine_def)

text \<open>C40: Appending to a learning log, also to one whose last write was torn: every record that was
  completely written before stays readable, in order; the torn tail and the new record yield at
  most one further record; and when nothing was torn that record is the appended one.\<close>

theorem append_keeps_log:
  assumes "fget p s = Some (File (t @ u) m)" and "log_text t" and "nl \<notin> set u" and "line_value r"
  shows "\<exists>s' rest. appendJsonlLine p r s = (Inr (), s')
     \<and> readJsonlFile s' p = Inr (parse_jsonl t @ rest) \<and> length rest \<le> 1
     \<and> (u = [] \<longrightarrow> rest = [r]) \<and> (\<forall>q. q \<noteq> p \<longrightarrow> fget q s' = fget q s)"
proof -
  let ?s = "fput p (File (t @ u @ jsonl_line r) m) s"
  have a: "appendJsonlLine p r s = (Inr (), ?s)" using append_record_file [OF assms(1), of r] by simp
  have g: "readJsonlFile ?s p = Inr (parse_jsonl (t @ u @ jsonl_line r))"
    by (simp add: readJsonlFile_def)
  obtain rest where rest: "parse_jsonl (t @ u @ jsonl_line r) = parse_jsonl t @ rest" "length rest \<le> 1"
    using parse_jsonl_torn [OF assms(2-4)] by blast
  have "u = [] \<longrightarrow> rest = [r]" using rest(1) parse_jsonl_append [OF assms(2,4)] by auto
  then show ?thesis using a g rest by (intro exI [of _ ?s] exI [of _ rest]) simp
qed

lemma append_keeps_log_witness:
  "\<exists>s' rest. appendJsonlLine ''/l'' (JObj [(''a'', JNum 1)])
       [(''/l'', File (jsonl_line (JObj []) @ ''{torn'') 420)] = (Inr (), s')
     \<and> readJsonlFile s' ''/l'' = Inr (parse_jsonl (jsonl_line (JObj [])) @ rest) \<and> length rest \<le> 1"
  using append_keeps_log [of "''/l''" "[(''/l'', File (jsonl_line (JObj []) @ ''{torn'') 420)]"
      "jsonl_line (JObj [])" "''{torn''" 420 "JObj [(''a'', JNum 1)]"] log_text_line [of "[]" "JObj []"]
  by (auto simp: fget_def line_value_def nl_def)

text \<open>Pruning a log replaces it, atomically, by exactly the records that are recent enough: reading
  it afterwards gives the old records filtered by the cutoff, in order, and no other file is
  touched.\<close>

lemma prune_keeps_recent:
  assumes "readJsonlFile s p = Inr rs" and "\<forall>r \<in> set rs. line_value r"
    and "tmp_ready hex p s" and "fget p s \<noteq> Some Dir"
  shows "\<exists>s'. prune_one e hex cutoff p s = (Inr (), s')
     \<and> readJsonlFile s' p = Inr (filter (recent e cutoff) rs)
     \<and> (\<forall>q. q \<noteq> p \<longrightarrow> fget q s' = fget q s)"
proof (cases "rs = []")
  case True
  then show ?thesis using assms(1) by (simp add: prune_one_def)
next
  case False
  have nn: "\<not> list_ex (\<lambda>r. r = JNull) rs" using assms(2) by (auto simp: list_ex_iff line_value_def)
  obtain t where t: "seqI (aw_calls hex p (prune_content e cutoff rs)) s = (Inr (), t)"
    "\<forall>q. fget q t = (if q = p then Some (File (prune_content e cutoff rs) default_mode) else fget q s)"
    using aw_run [OF assms(3,4)] by blast
  then have "readJsonlFile t p = Inr (parse_jsonl (prune_content e cutoff rs))"
    by (simp add: readJsonlFile_def)
  then show ?thesis
    using t False nn assms(1) prune_content_parse [OF assms(2)]
    by (intro exI [of _ t]) (simp add: prune_one_def plain_atomic_write_def)
qed

definition sample_log :: fs where
  "sample_log = [(''/'', Dir), (''/l'', File (concat (map jsonl_line
     [JObj [(''ts'', JNum 5)], JObj [(''ts'', JNum 50)]])) 420)]"

lemma prune_keeps_recent_witness:
  "\<exists>s'. prune_one (sample_env 100) ''ab'' 20 ''/l'' sample_log = (Inr (), s')
     \<and> readJsonlFile s' ''/l'' = Inr [JObj [(''ts'', JNum 50)]]"
proof -
  let ?rs = "[JObj [(''ts'', JNum 5)], JObj [(''ts'', JNum 50)]]"
  have lv: "\<forall>r \<in> set ?rs. line_value r" by (simp add: line_value_def)
  have "fget ''/l'' sample_log = Some (File (concat (map jsonl_line ?rs)) 420)"
    by (simp add: sample_log_def fget_def)
  then have rd: "readJsonlFile sample_log ''/l'' = Inr ?rs" and nd: "fget ''/l'' sample_log \<noteq> Some Dir"
    using parse_jsonl_lines [OF lv] by (simp_all add: readJsonlFile_def)
  have "dirname (tmp_path ''ab'' ''/l'') = ''/''" by code_simp
  then have "tmp_ready ''ab'' ''/l'' sample_log"
    by (simp add: tmp_ready_def parent_is_dir_def is_directory_def stat_node_direct tmp_path_def
        sample_log_def fget_def)
  from prune_keeps_recent [OF rd lv this nd, of "sample_env 100" 20] show ?thesis
    by (simp add: recent_def rec_time_def) blast
qed

text \<open>The top-five lists of the summary: at most five entries, each a key of the log with its exact
  number of occurrences, no key twice, in decreasing order of count, and no key left out occurs
  more often than one listed.\<close>

lemma top_five_correct:
  "length (top_counts ks) \<le> 5 \<and> distinct (map fst (top_counts ks))
   \<and> sorted_wrt (\<lambda>a b. snd b \<le> snd a) (top_counts ks)
   \<and> set (top_counts ks) \<subseteq> {(k, count_list ks k) | k. k \<in> set ks}
   \<and> \<not> (\<exists>k k' c. k \<in> set ks - fst ` set (top_counts ks) \<and> (k', c) \<in> set (top_counts ks) \<and> c < count_list ks k)"
  using top_counts_facts(1,3,4) [of ks] top_counts_facts(2) [of _ _ ks] top_counts_facts(5) [of _ ks]
  by (auto simp: not_less)

text \<open>The list of most cleaned detectors in the summary stays empty for every log written by
  appendApplied: the record it writes carries neither the detector id nor the target the
  summary counts.\<close>

lemma cleaned_detectors_always_empty:
  "topCleanedDetectors (summarize e w fp refusals (map (\<lambda>(e', m). applied_record e' m) ops) rollbacks) = []"
proof -
  have "List.map_filter detector_key (filter p (map (\<lambda>(e', m). applied_record e' m) ops)) = []" for p
    by (induction ops) (auto simp: detector_of_applied)
  then show ?thesis by (simp add: summarize_def Let_def top_counts_def)
qed

text \<open>Marking an operation as a false positive keeps one marker for it: the new marker is in the
  list, an operation marked before or never has exactly one marker afterwards if it had at most
  one, and the markers of every other operation are unchanged and in order.\<close>

lemma one_marker_per_operation:
  assumes "put_marker i (fp_marker e i d tp) ms = Some ms'"
  shows "fp_marker e i d tp \<in> set ms'
    \<and> length (filter (\<lambda>m. op_of m = Some (JStr i)) ms') = max 1 (length (filter (\<lambda>m. op_of m = Some (JStr i)) ms))
    \<and> filter (\<lambda>m. op_of m \<noteq> Some (JStr i)) ms' = filter (\<lambda>m. op_of m \<noteq> Some (JStr i)) ms"
  using put_marker_facts [OF assms] by (simp add: op_of_def fp_marker_def)

lemma one_marker_per_operation_witness:
  "length (filter (\<lambda>m. op_of m = Some (JStr ''b''))
     [JObj [(''opId'', JStr ''a'')], fp_marker (sample_env 0) ''b'' JNull JNull]) = 1"
proof -
  have "put_marker ''b'' (fp_marker (sample_env 0) ''b'' JNull JNull)
      [JObj [(''opId'', JStr ''a'')], JObj [(''opId'', JStr ''b'')]]
    = Some [JObj [(''opId'', JStr ''a'')], fp_marker (sample_env 0) ''b'' JNull JNull]" by simp
  from one_marker_per_operation [OF this] show ?thesis by (simp add: op_of_def)
qed

end
