(* ===== verification/Rollback.thy ===== *)
theory Rollback
  imports Snapshot Learning
begin

text \<open>
  Rollback (scripts/lib/rollback-plan.mjs): composing a dry-run plan from an operation
  manifest, re-validating it, executing it under the lock, the plans of a stream in reverse
  chunk order, and aborting an operation that has not been applied.
\<close>

subsection \<open>Plans\<close>

record rb_refusal =
  rr_reason :: string
  rr_message :: string
  rr_path :: string
  rr_expected :: "json option"
  rr_actual :: "json option"

record rb_op =
  ro_path :: "string option"        \<comment> \<open>originalPath\<close>
  ro_before :: "json option"        \<comment> \<open>sha256Before\<close>
  ro_after :: json
  ro_snapshot :: "string option"    \<comment> \<open>snapshotPath\<close>
  ro_kind :: string                 \<comment> \<open>rollbackOp.kind\<close>
  ro_source :: "string option"      \<comment> \<open>rollbackOp.args.sourcePath\<close>
  ro_target :: "string option"      \<comment> \<open>rollbackOp.args.targetPath\<close>
  ro_mode :: "json option"
  ro_isSymlink :: bool
  ro_symlinkTarget :: json

record rb_plan =
  rp_opId :: string
  rp_home :: string
  rp_manifestPath :: string
  rp_operations :: "rb_op list"
  rp_refused :: "rb_refusal list"
  rp_composedAt :: string
  rp_validatedAt :: "string option"

definition makeRefusal :: "string \<Rightarrow> string \<Rightarrow> string \<Rightarrow> rb_refusal" where
  "makeRefusal reason message targetPath =
     \<lparr>rr_reason = reason, rr_message = message, rr_path = targetPath, rr_expected = None, rr_actual = None\<rparr>"

definition emptyPlan :: "env \<Rightarrow> string \<Rightarrow> string \<Rightarrow> string \<Rightarrow> rb_refusal list \<Rightarrow> rb_plan" where
  "emptyPlan e home opId mp refused =
     \<lparr>rp_opId = opId, rp_home = home, rp_manifestPath = mp, rp_operations = [], rp_refused = refused,
      rp_composedAt = e_iso e (e_now e), rp_validatedAt = None\<rparr>"

definition expectedPostApplyHash :: "json \<Rightarrow> string option \<Rightarrow> json option" where
  "expectedPostApplyHash entry status =
     (if status = Some ''snapshot_taken'' then jget ''sha256Before'' entry
      else Some (opt_or (jget ''sha256After'' entry) JNull))"

definition entry_exists :: "fs \<Rightarrow> json \<Rightarrow> bool" where
  "entry_exists s entry = (case entry_path entry of None \<Rightarrow> False | Some p \<Rightarrow> existsSync s p)"

definition detectDrift :: "env \<Rightarrow> fs \<Rightarrow> json \<Rightarrow> string option \<Rightarrow> err + (json option \<times> json) option" where
  "detectDrift e s entry status =
     (let expected = expectedPostApplyHash entry status;
          present = entry_exists s entry
      in if expected = Some JNull then
           (if \<not> present then Inr None
            else (case entry_hash e s entry of
                    Inl x \<Rightarrow> Inr (Some (expected, JStr ''present''))
                  | Inr h \<Rightarrow> Inr (Some (expected, JStr h))))
         else if \<not> present then Inr (Some (expected, JNull))
         else (case entry_hash e s entry of
                 Inl x \<Rightarrow> Inl x
               | Inr h \<Rightarrow> if expected \<noteq> Some (JStr h) then Inr (Some (expected, JStr h)) else Inr None))"

definition makeOperation :: "json \<Rightarrow> rb_op" where
  "makeOperation entry =
     \<lparr>ro_path = jstr (jget ''originalPath'' entry), ro_before = jget ''sha256Before'' entry,
      ro_after = opt_or (jget ''sha256After'' entry) JNull,
      ro_snapshot = jstr (jget ''snapshotPath'' entry),
      ro_kind = ''file-restore-from-snapshot'',
      ro_source = jstr (jget ''snapshotPath'' entry), ro_target = jstr (jget ''originalPath'' entry),
      ro_mode = jget ''mode'' entry, ro_isSymlink = truthy (jget ''isSymlink'' entry),
      ro_symlinkTarget = opt_or (jget ''symlinkTarget'' entry) JNull\<rparr>"

definition rb_manifest_path :: "string \<Rightarrow> string \<Rightarrow> string" where
  "rb_manifest_path home opId = path_join [home, ''housekeeper'', ''operations'', opId @ ''.json'']"

definition rollbackable :: "json \<Rightarrow> bool" where
  "rollbackable m = (case manifest_status m of None \<Rightarrow> False
     | Some st \<Rightarrow> List.member [''applied'', ''verified'', ''snapshot_taken''] st)"

definition snapshot_missing :: "fs \<Rightarrow> json \<Rightarrow> bool" where
  "snapshot_missing s entry =
     (case jstr (jget ''snapshotPath'' entry) of None \<Rightarrow> True
      | Some p \<Rightarrow> p = [] \<or> \<not> existsSync s p)"

fun first_drift :: "env \<Rightarrow> fs \<Rightarrow> string option \<Rightarrow> json list \<Rightarrow> err + (json \<times> json option \<times> json) option" where
  "first_drift e s st [] = Inr None"
| "first_drift e s st (en # ens) =
     (case detectDrift e s en st of
        Inl x \<Rightarrow> Inl x
      | Inr (Some (ex, ac)) \<Rightarrow> Inr (Some (en, ex, ac))
      | Inr None \<Rightarrow> first_drift e s st ens)"

definition composeRollbackPlan :: "env \<Rightarrow> string \<Rightarrow> string \<Rightarrow> fs \<Rightarrow> err + rb_plan" where
  "composeRollbackPlan e home opId s =
     (let mp = rb_manifest_path home opId; refuse = (\<lambda>r. Inr (emptyPlan e home opId mp [r]))
      in if \<not> existsSync s mp
         then refuse (makeRefusal ''manifest-not-found'' (''No operation manifest found for '' @ opId @ ''.'') [])
         else (case read_json s mp of
             Inl x \<Rightarrow> refuse (makeRefusal ''manifest-malformed''
                       (''Operation manifest '' @ mp @ '' is not valid JSON.'') [])
           | Inr m \<Rightarrow>
             if m = JNull then Inl (TypeError ''manifest is null'')
             else if \<not> rollbackable m
             then refuse (makeRefusal ''manifest-not-rollbackable''
                    (''Operation '' @ opId @ '' has status \"'' @ js_text (jget ''status'' m)
                      @ ''\", which cannot be rolled back.'') [])
             else if \<not> existsSync s (path_join [home, ''housekeeper'', ''snapshots'', opId])
             then refuse (makeRefusal ''snapshot-tree-missing''
                    (''Snapshot tree is missing for '' @ opId @ ''.'') [])
             else (case find (snapshot_missing s) (manifest_files m) of
                 Some en \<Rightarrow> refuse (makeRefusal ''snapshot-tree-incomplete''
                       (''Snapshot file is missing for '' @ opt_str_or (entry_path en) opId @ ''.'')
                       (opt_or (entry_path en) []))
               | None \<Rightarrow>
                 (case first_drift e s (manifest_status m) (manifest_files m) of
                    Inl x \<Rightarrow> Inl x
                  | Inr (Some (en, ex, ac)) \<Rightarrow>
                      refuse ((makeRefusal ''drift-detected''
                         (''Current file state no longer matches operation '' @ opId @ ''.'')
                         (opt_or (entry_path en) [])) \<lparr>rr_expected := ex, rr_actual := Some ac\<rparr>)
                  | Inr None \<Rightarrow>
                      Inr ((emptyPlan e home opId mp []) \<lparr>rp_operations := map makeOperation (manifest_files m)\<rparr>)))))"

subsection \<open>Validation\<close>

fun check_snapshots :: "env \<Rightarrow> fs \<Rightarrow> json list \<Rightarrow> err option" where
  "check_snapshots e s [] = None"
| "check_snapshots e s (en # ens) =
     (let before = jstr (jget ''sha256Before'' en); p = opt_or (jstr (jget ''snapshotPath'' en)) []
      in if snapshot_missing s en then Some (SnapshotIntegrityError p before None)
         else (case hashFile e s p of
                 Inl x \<Rightarrow> Some x
               | Inr h \<Rightarrow> if jget ''sha256Before'' en \<noteq> Some (JStr h)
                          then Some (SnapshotIntegrityError p before (Some h))
                          else check_snapshots e s ens))"

definition validateRollbackPlan :: "env \<Rightarrow> rb_plan \<Rightarrow> string \<Rightarrow> fs \<Rightarrow> err + rb_plan" where
  "validateRollbackPlan e plan home s =
     (let now = Some (e_iso e (e_now e)); mp = rb_manifest_path home (rp_opId plan)
      in if rp_refused plan \<noteq> [] then Inr (plan\<lparr>rp_validatedAt := now\<rparr>)
         else (case read_json s mp of
             Inl x \<Rightarrow> Inl x
           | Inr m \<Rightarrow>
               if m = JNull then Inl (TypeError ''manifest is null'')
               else (case first_drift e s (manifest_status m) (manifest_files m) of
                   Inl x \<Rightarrow> Inl x
                 | Inr (Some (en, ex, ac)) \<Rightarrow>
                     Inl (PlanDriftError (rp_opId plan) (opt_or (entry_path en) []) (jstr ex) (jstr (Some ac)))
                 | Inr None \<Rightarrow>
                     (case check_snapshots e s (manifest_files m) of
                        Some x \<Rightarrow> Inl x
                      | None \<Rightarrow> Inr (plan\<lparr>rp_manifestPath := mp,
                           rp_operations := map makeOperation (manifest_files m), rp_validatedAt := now\<rparr>)))))"

subsection \<open>Execution\<close>

definition restore_file :: "string option \<Rightarrow> string option \<Rightarrow> unit io" where
  \<comment> \<open>ROLLBACK_REGISTRY["file-restore-from-snapshot"]\<close>
  "restore_file source target =
     (case target of
        None \<Rightarrow> failI (TypeError ''targetPath'')
      | Some tp \<Rightarrow> bindI (mkdir_recursive (dirname tp)) (\<lambda>_.
          (case source of None \<Rightarrow> failI (TypeError ''sourcePath'') | Some sp \<Rightarrow> copy_file sp tp)))"

fun mark_restored :: "string option \<Rightarrow> json list \<Rightarrow> json list" where
  \<comment> \<open>filesByPath.get(path).rollbackVerified = true: the last entry of that path\<close>
  "mark_restored p [] = []"
| "mark_restored p (en # ens) =
     (if entry_path en = p \<and> \<not> list_ex (\<lambda>x. entry_path x = p) ens
      then jset ''rollbackVerified'' (JBool True) en # ens
      else en # mark_restored p ens)"

definition rollback_one :: "env \<Rightarrow> rb_op \<Rightarrow> unit io" where
  "rollback_one e op =
     (if ro_kind op \<noteq> ''file-restore-from-snapshot'' then failI (RollbackNotImplementedError (ro_kind op))
      else bindI (restore_file (ro_source op) (ro_target op)) (\<lambda>_.
           bindI (liftI (\<lambda>s. case ro_path op of None \<Rightarrow> Inl (TypeError ''path'') | Some p \<Rightarrow> hashFile e s p)) (\<lambda>h.
             if ro_before op \<noteq> Some (JStr h)
             then failI (SnapshotIntegrityError (opt_or (ro_snapshot op) []) (jstr (ro_before op)) (Some h))
             else returnI ())))"

fun rollback_all :: "env \<Rightarrow> rb_op list \<Rightarrow> unit io" where
  "rollback_all e [] = returnI ()"
| "rollback_all e (op # ops) = bindI (rollback_one e op) (\<lambda>_. rollback_all e ops)"

definition rolled_manifest :: "env \<Rightarrow> json \<Rightarrow> rb_op list \<Rightarrow> json" where
  "rolled_manifest e m ops =
     jset ''rolledBackAt'' (JStr (e_iso e (e_now e))) (jset ''status'' (JStr ''rolled_back'')
       (if jarr (jget ''files'' m) = None then m
        else jset ''files'' (JArr (foldl (\<lambda>ens op. mark_restored (ro_path op) ens) (manifest_files m) ops)) m))"

definition files_usable :: "json \<Rightarrow> bool" where
  \<comment> \<open>(manifest.files || []).map((entry) => entry.originalPath) does not throw\<close>
  "files_usable m =
     (if truthy (jget ''files'' m)
      then (case jarr (jget ''files'' m) of None \<Rightarrow> False | Some xs \<Rightarrow> list_all (\<lambda>x. x \<noteq> JNull) xs)
      else True)"

definition rollback_body :: "env \<Rightarrow> string \<Rightarrow> rb_plan \<Rightarrow> string \<Rightarrow> json io" where
  "rollback_body e hex plan home =
     (let mp = rb_manifest_path home (rp_opId plan)
      in bindI (liftI (\<lambda>s. read_json s mp)) (\<lambda>m.
         if m = JNull \<or> \<not> files_usable m then failI (TypeError ''manifest'')
         else bindI (rollback_all e (rp_operations plan)) (\<lambda>_.
           (let m' = rolled_manifest e m (rp_operations plan)
            in bindI (atomicWrite hex mp (json_pretty m' @ [nl])) (\<lambda>_.
               bindI (swallowI (appendRollback e home (obj_of
                   [(''opId'', Some (js_or (jget ''id'' m) (JStr (rp_opId plan)))),
                    (''fromStatus'', jget ''status'' m), (''toStatus'', Some (JStr ''rolled_back'')),
                    (''filesRestoredCount'', Some (JNum (int (length (rp_operations plan)))))])))
                 (\<lambda>_. returnI m'))))))"

definition executeRollbackPlan :: "env \<Rightarrow> string \<Rightarrow> rb_plan \<Rightarrow> string \<Rightarrow> json io" where
  "executeRollbackPlan e hex plan home =
     with_lock e home ''rolled_back'' (rollback_body e hex plan home)"

subsection \<open>Streams\<close>

record chunk_ref =
  cr_index :: int
  cr_opId :: string
  cr_partial :: bool

record stream_plan =
  sp_streamId :: string
  sp_subPlans :: "(rb_plan \<times> int) list"
  sp_refused :: "(string \<times> string) list"
  sp_composedAt :: string
  sp_parent :: "json option"

definition parse_int10 :: "string \<Rightarrow> int option" where
  \<comment> \<open>parseInt(s, 10), None for NaN\<close>
  "parse_int10 s =
     (let t = dropWhile is_space s;
          neg = starts_with ''-'' t;
          u = (if neg \<or> starts_with ''+'' t then drop 1 t else t);
          ds = takeWhile is_digit u
      in if ds = [] then None
         else Some (if neg then - int (read_nat ds) else int (read_nat ds)))"

definition chunk_name :: "string \<Rightarrow> bool" where
  "chunk_name n = (starts_with ''chunk_'' n \<and> ends_with ''.json'' n)"

definition chunk_index :: "string \<Rightarrow> int option" where
  "chunk_index n = parse_int10 (js_slice 6 (- 5) n)"

fun chunk_refs :: "fs \<Rightarrow> string \<Rightarrow> string list \<Rightarrow> err + chunk_ref list" where
  "chunk_refs s dir [] = Inr []"
| "chunk_refs s dir (n # ns) =
     (case chunk_refs s dir ns of
        Inl x \<Rightarrow> (if chunk_name n \<and> read_json s (path_join [dir, n]) = Inr JNull
                  then Inl (TypeError ''chunkMeta is null'') else Inl x)
      | Inr rest \<Rightarrow>
          if \<not> chunk_name n then Inr rest
          else (case read_json s (path_join [dir, n]) of
                  Inl x \<Rightarrow> Inr rest
                | Inr m \<Rightarrow>
                    if m = JNull then Inl (TypeError ''chunkMeta is null'')
                    else if \<not> rollbackable m then Inr rest
                    else (case chunk_index n of
                            None \<Rightarrow> Inr rest
                          | Some i \<Rightarrow> Inr (\<lparr>cr_index = i, cr_opId = js_text (jget ''id'' m),
                                            cr_partial = truthy (jget ''partialApply'' m)\<rparr> # rest))))"

definition sort_chunks :: "chunk_ref list \<Rightarrow> chunk_ref list" where
  \<comment> \<open>halted chunk first, then descending chunkIndex; the sort is stable\<close>
  "sort_chunks cs = sort_key (\<lambda>c. if cr_partial c then 0 else 1 :: nat) (sort_key (\<lambda>c. - cr_index c) cs)"

fun sub_plans :: "env \<Rightarrow> string \<Rightarrow> fs \<Rightarrow> chunk_ref list \<Rightarrow> err + (rb_plan \<times> int) list" where
  "sub_plans e home s [] = Inr []"
| "sub_plans e home s (c # cs) =
     (case composeRollbackPlan e home (cr_opId c) s of
        Inl x \<Rightarrow> Inl x
      | Inr p \<Rightarrow> (case sub_plans e home s cs of Inl x \<Rightarrow> Inl x | Inr ps \<Rightarrow> Inr ((p, cr_index c) # ps)))"

definition composeStreamRollbackPlan :: "env \<Rightarrow> string \<Rightarrow> string \<Rightarrow> fs \<Rightarrow> err + stream_plan" where
  "composeStreamRollbackPlan e home streamId s =
     (let dir = path_join [home, ''housekeeper'', ''operations'', streamId];
          parentPath = path_join [dir, ''parent.json''];
          refuse = (\<lambda>reason msg. Inr \<lparr>sp_streamId = streamId, sp_subPlans = [], sp_refused = [(reason, msg)],
                      sp_composedAt = e_iso e (e_now e), sp_parent = None\<rparr>)
      in if \<not> existsSync s parentPath
         then refuse ''stream-manifest-not-found'' (''No stream parent manifest found for '' @ streamId @ ''.'')
         else (case read_json s parentPath of
             Inl x \<Rightarrow> refuse ''stream-manifest-malformed''
                       (''Stream parent manifest '' @ parentPath @ '' is not valid JSON.'')
           | Inr parent \<Rightarrow>
             (case read_dir s dir of
                Inl x \<Rightarrow> refuse ''stream-manifest-not-found''
                          (''Stream directory '' @ dir @ '' could not be read.'')
              | Inr names \<Rightarrow>
                (case chunk_refs s dir names of
                   Inl x \<Rightarrow> Inl x
                 | Inr refs \<Rightarrow>
                   if refs = []
                   then refuse ''stream-no-rollbackable-chunks''
                          (''No rollbackable chunk manifests found for stream '' @ streamId @ ''.'')
                   else (case sub_plans e home s (sort_chunks refs) of
                       Inl x \<Rightarrow> Inl x
                     | Inr ps \<Rightarrow> Inr \<lparr>sp_streamId = streamId, sp_subPlans = ps, sp_refused = [],
                          sp_composedAt = e_iso e (e_now e), sp_parent = Some parent\<rparr>)))))"

subsection \<open>Abort\<close>

definition abort_body :: "env \<Rightarrow> string \<Rightarrow> string \<Rightarrow> string \<Rightarrow> json io" where
  "abort_body e hex opId home =
     (let mp = rb_manifest_path home opId
      in bindI (liftI (\<lambda>s. read_json s mp)) (\<lambda>m.
         if m = JNull then failI (TypeError ''manifest is null'')
         else if manifest_status m \<noteq> Some ''snapshot_taken'' \<and> manifest_status m \<noteq> Some ''planned''
         then failI (AbortNotAllowedError opId (manifest_status m))
         else bindI (\<lambda>s. (Inr (), rm_tree_force (path_join [home, ''housekeeper'', ''snapshots'', opId]) s)) (\<lambda>_.
           (let m' = jset ''abortedAt'' (JStr (e_iso e (e_now e))) (jset ''status'' (JStr ''aborted'') m)
            in bindI (atomicWrite hex mp (json_pretty m' @ [nl])) (\<lambda>_. returnI m')))))"

definition abortRollbackOperation :: "env \<Rightarrow> string \<Rightarrow> string \<Rightarrow> string \<Rightarrow> json io" where
  "abortRollbackOperation e hex opId home = with_lock e home ''process-exit'' (abort_body e hex opId home)"

end
