(* ===== verification/Copies.thy ===== *)
theory Copies
  imports Rollback Snapshot_Facts Opid
begin

text \<open>
  What a snapshot is good for: after takeSnapshot every target has a copy with its bytes under
  the operation's snapshot directory and nothing else has changed there, and restoring the
  copies gives the targets their bytes back.
\<close>

subsection \<open>Names of the copies\<close>

definition seq4 :: "nat \<Rightarrow> string" where
  "seq4 i = pad_start 4 (CHR ''0'') (show_nat i)"

lemma seq4_facts: "i < 10000 \<Longrightarrow> length (seq4 i) = 4 \<and> read_nat (seq4 i) = i \<and> (\<forall>c \<in> set (seq4 i). is_digit c)"
  using pad_facts [of 4 i] by (simp add: seq4_def)

lemma seq4_inj: "i < 10000 \<Longrightarrow> j < 10000 \<Longrightarrow> seq4 i = seq4 j \<Longrightarrow> i = j"
  using seq4_facts by metis

lemma basename_no_sep: "sep \<notin> set (basename p)"
  using split_on_no_sep [of _ sep "strip_seps p"] last_in_set [OF split_on_not_Nil]
  unfolding basename_def by blast

lemma digit_not_sep: "is_digit c \<Longrightarrow> c \<noteq> sep"
  by (auto simp: is_digit_def sep_def)

lemma snapshot_name_valid:
  assumes "i < 10000" "sep \<notin> set t"
  shows "valid_seg (snapshot_name i p @ t)"
proof -
  have "sep \<notin> set (seq4 i)" using seq4_facts [OF assms(1)] digit_not_sep by blast
  moreover have "x \<noteq> ''.'' \<and> x \<noteq> ''..'' \<and> x \<noteq> []" if "CHR ''_'' \<in> set x" for x :: string
    using that by auto
  moreover have "CHR ''_'' \<in> set (snapshot_name i p @ t)" by (simp add: snapshot_name_def)
  ultimately show ?thesis
    using assms(2) basename_no_sep [of p]
    unfolding valid_seg_def dot_def dotdot_def
    by (simp add: snapshot_name_def seq4_def [symmetric] sep_def)
qed

definition copy_path :: "string \<Rightarrow> nat \<Rightarrow> string \<Rightarrow> string" where
  "copy_path dir i p = path_join [dir, snapshot_name i p]"

definition copy_zone :: "string \<Rightarrow> nat \<Rightarrow> string" where
  \<comment> \<open>the prefix shared by copy i and its temporary file\<close>
  "copy_zone dir i = dir @ sep # seq4 i"

lemma copy_path_abs:
  assumes "clean_home dir D" "i < 10000"
  shows "copy_path dir i p = dir @ sep # snapshot_name i p"
proof -
  have "valid_seg (snapshot_name i p)" using snapshot_name_valid [OF assms(2), of "[]"] by simp
  then have "copy_path dir i p = abs_path (D @ [snapshot_name i p])"
    using assms(1) path_join_abs [of D "snapshot_name i p"]
    by (auto simp: copy_path_def clean_home_def)
  then show ?thesis using assms(1) by (simp add: clean_home_def)
qed

lemma copy_tmp_dirname:
  assumes "clean_home dir D" "i < 10000" "sep \<notin> set hex"
  shows "dirname (tmp_path hex (copy_path dir i p)) = dir"
proof -
  let ?n = "snapshot_name i p @ ''.tmp.'' @ hex"
  have v: "valid_seg ?n"
    using assms(3) snapshot_name_valid [OF assms(2), of "''.tmp.'' @ hex" p] by (simp add: sep_def)
  have "tmp_path hex (copy_path dir i p) = abs_path (D @ [?n])"
    using assms copy_path_abs [OF assms(1,2)] by (simp add: tmp_path_def clean_home_def)
  then show ?thesis using dirname_abs_path [of D ?n] v assms(1) by (auto simp: clean_home_def)
qed

lemma copy_in_zone:
  assumes "clean_home dir D" "i < 10000"
  shows "starts_with (copy_zone dir i) (copy_path dir i p)"
    and "starts_with (copy_zone dir i) (tmp_path hex (copy_path dir i p))"
  using copy_path_abs [OF assms, of p]
  by (auto simp: copy_zone_def snapshot_name_def seq4_def tmp_path_def starts_with_iff)

lemma zones_apart:
  assumes "i < 10000" "j < 10000" "i \<noteq> j" "starts_with (copy_zone dir i) q"
  shows "\<not> starts_with (copy_zone dir j) q"
proof
  assume "starts_with (copy_zone dir j) q"
  then obtain u where u: "q = dir @ sep # seq4 j @ u" by (auto simp: copy_zone_def starts_with_iff)
  obtain t where t: "q = dir @ sep # seq4 i @ t"
    using assms(4) by (auto simp: copy_zone_def starts_with_iff)
  have "length (seq4 i) = length (seq4 j)" using seq4_facts assms(1,2) by metis
  with t u have "seq4 i = seq4 j" by (metis append_eq_append_conv same_append_eq list.inject)
  with seq4_inj assms show False by blast
qed

subsection \<open>The copies\<close>

definition is_copyable :: "fs \<Rightarrow> string \<Rightarrow> bool" where
  "is_copyable s p = (\<exists>n. fget p s = Some n \<and> n \<noteq> Dir)"

lemma js_or_str [simp]: "js_or (Some (JStr x)) (JStr []) = JStr x"
  by (simp add: js_or_def)

lemma snapshot_entry_facts:
  "entry_path (snapshot_entry e i p dest n) = Some p"
  "jget ''snapshotPath'' (snapshot_entry e i p dest n) = Some (JStr dest)"
  "jget ''sha256Before'' (snapshot_entry e i p dest n) = Some (JStr (e_sha e (copied n)))"
  "json_plain (snapshot_entry e i p dest n)"
  by (auto simp: snapshot_entry_def makeFileSnapshot_def entry_path_def js_num_or_def js_or_def
      split: node.splits)

lemma snapshot_one_ok:
  assumes "fget p s = Some n" "n \<noteq> Dir" "slot_ready hex (copy_path dir i p) s"
  shows "\<exists>s'. snapshot_one e hex dir i p s = (Inr (snapshot_entry e i p (copy_path dir i p) n), s')
     \<and> (\<forall>q. fget q s' = (if q = copy_path dir i p then Some (File (copied n) default_mode) else fget q s))"
proof -
  obtain t where t: "atomicWrite hex (copy_path dir i p) (copied n) s = (Inr (), t)"
    "\<forall>q. fget q t = (if q = copy_path dir i p then Some (File (copied n) default_mode) else fget q s)"
    using atomicWrite_ok [of hex "copy_path dir i p" s "copied n"] assms(3) unfolding slot_ready_def by blast
  then have "snapshot_one e hex dir i p s = (Inr (snapshot_entry e i p (copy_path dir i p) n), t)"
    using assms(1,2) by (cases n) (simp_all add: snapshot_one_def copy_path_def [symmetric] bindI_def returnI_def)
  with t(2) show ?thesis by blast
qed

definition snap_ready :: "(nat \<Rightarrow> string) \<Rightarrow> string \<Rightarrow> nat \<Rightarrow> nat \<Rightarrow> fs \<Rightarrow> bool" where
  \<comment> \<open>dir is a clean existing directory in which no name of the copies i to i + n is taken\<close>
  "snap_ready hex dir i n s =
     ((\<exists>D. clean_home dir D) \<and> fget dir s = Some Dir \<and> i + n \<le> 10000
      \<and> (\<forall>j. sep \<notin> set (hex j))
      \<and> (\<forall>j q. i \<le> j \<longrightarrow> j < i + n \<longrightarrow> starts_with (copy_zone dir j) q \<longrightarrow> fget q s = None))"

lemma snap_ready_free:
  "snap_ready hex dir i n s \<Longrightarrow> i \<le> j \<Longrightarrow> j < i + n \<Longrightarrow> starts_with (copy_zone dir j) q \<Longrightarrow> fget q s = None"
  unfolding snap_ready_def by blast

lemma enum_Cons: "enumerate i (p # ps) = (i, p) # enumerate (Suc i) ps"
  by simp

lemma enum_bounds: "(k, p) \<in> set (enumerate i ps) \<Longrightarrow> i \<le> k \<and> k < i + length ps \<and> p \<in> set ps"
  by (auto simp: in_set_enumerate_eq)

lemma snap_ready_slot:
  assumes "snap_ready hex dir i (Suc n) s"
  shows "slot_ready (hex i) (copy_path dir i p) s"
proof -
  obtain D where D: "clean_home dir D" using assms by (auto simp: snap_ready_def)
  have i: "i < 10000" and h: "sep \<notin> set (hex i)" and d: "fget dir s = Some Dir"
    using assms by (auto simp: snap_ready_def)
  have "fget q s = None" if "starts_with (copy_zone dir i) q" for q
    using snap_ready_free [OF assms, of i q] that by simp
  with copy_in_zone(1) [OF D i, of p] copy_in_zone(2) [OF D i, of "hex i" p] copy_tmp_dirname [OF D i h, of p] d
  show ?thesis
    by (simp add: slot_ready_def tmp_ready_def parent_is_dir_def is_directory_def stat_node_direct)
qed

lemma snap_ready_step:
  assumes "snap_ready hex dir i (Suc n) s"
    and "\<forall>q. fget q s' = (if q = copy_path dir i p then Some x else fget q s)"
  shows "snap_ready hex dir (Suc i) n s'"
proof -
  obtain D where D: "clean_home dir D" using assms(1) by (auto simp: snap_ready_def)
  have i: "i < 10000" using assms(1) by (auto simp: snap_ready_def)
  note z = copy_in_zone(1) [OF D i, of p]
  have "copy_path dir i p \<noteq> dir" using copy_path_abs [OF D i, of p] by simp
  moreover have "\<not> starts_with (copy_zone dir j) (copy_path dir i p)" if "Suc i \<le> j" "j < Suc i + n" for j
    using zones_apart [OF i _ _ z, of j] that assms(1) by (auto simp: snap_ready_def)
  moreover have "fget q s = None" if "Suc i \<le> j" "j < Suc i + n" "starts_with (copy_zone dir j) q" for j q
    using snap_ready_free [OF assms(1) _ _ that(3)] that by simp
  ultimately show ?thesis
    using assms D unfolding snap_ready_def by auto
qed

lemma snapshot_files_ok:
  "snap_ready hex dir i (length ps) s \<Longrightarrow> \<forall>p \<in> set ps. is_copyable s p \<Longrightarrow>
   \<exists>s'. snapshot_files e hex dir i ps s =
          (Inr (map (\<lambda>(k, p). snapshot_entry e k p (copy_path dir k p) (the (fget p s))) (enumerate i ps)), s')
      \<and> (\<forall>(k, p) \<in> set (enumerate i ps).
            fget (copy_path dir k p) s' = Some (File (copied (the (fget p s))) default_mode))
      \<and> (\<forall>q. (\<forall>(k, p) \<in> set (enumerate i ps). q \<noteq> copy_path dir k p) \<longrightarrow> fget q s' = fget q s)"
proof (induction ps arbitrary: i s)
  case Nil
  then show ?case by (auto simp: returnI_def)
next
  case (Cons p ps)
  have r: "snap_ready hex dir i (Suc (length ps)) s" using Cons.prems(1) by simp
  obtain D where D: "clean_home dir D" using r by (auto simp: snap_ready_def)
  have bd: "i + Suc (length ps) \<le> 10000" using r by (simp add: snap_ready_def)
  obtain n where n: "fget p s = Some n" "n \<noteq> Dir" using Cons.prems(2) by (auto simp: is_copyable_def)
  obtain t where t: "snapshot_one e (hex i) dir i p s = (Inr (snapshot_entry e i p (copy_path dir i p) n), t)"
    "\<forall>q. fget q t = (if q = copy_path dir i p then Some (File (copied n) default_mode) else fget q s)"
    using snapshot_one_ok [OF n snap_ready_slot [OF r, of p]] by blast
  have fresh: "fget (copy_path dir i p) s = None"
    using snap_ready_free [OF r, of i] copy_in_zone(1) [OF D, of i p] bd by simp
  have same: "fget q t = fget q s" if "q \<in> set ps" for q
    using t(2) fresh Cons.prems(2) that by (auto simp: is_copyable_def)
  have cp: "\<forall>q \<in> set ps. is_copyable t q"
    using same Cons.prems(2) by (simp add: is_copyable_def)
  from Cons.IH [OF snap_ready_step [OF r t(2)] cp] obtain u where
    u: "snapshot_files e hex dir (Suc i) ps t =
          (Inr (map (\<lambda>(k, p). snapshot_entry e k p (copy_path dir k p) (the (fget p t))) (enumerate (Suc i) ps)), u)"
    "\<forall>(k, p) \<in> set (enumerate (Suc i) ps). fget (copy_path dir k p) u = Some (File (copied (the (fget p t))) default_mode)"
    "\<forall>q. (\<forall>(k, p) \<in> set (enumerate (Suc i) ps). q \<noteq> copy_path dir k p) \<longrightarrow> fget q u = fget q t"
    by blast
  have apart: "copy_path dir i p \<noteq> copy_path dir k q" if "(k, q) \<in> set (enumerate (Suc i) ps)" for k q
  proof
    assume eq: "copy_path dir i p = copy_path dir k q"
    have k: "k < 10000" "i < 10000" "i \<noteq> k" using enum_bounds [OF that] bd by auto
    show False
      using zones_apart [OF k(2,1,3) copy_in_zone(1) [OF D k(2), of p]] copy_in_zone(1) [OF D k(1), of q] eq by simp
  qed
  have "fget (copy_path dir i p) u = Some (File (copied n) default_mode)"
  proof -
    have "\<forall>(k, q) \<in> set (enumerate (Suc i) ps). copy_path dir i p \<noteq> copy_path dir k q"
      using apart by blast
    then have "fget (copy_path dir i p) u = fget (copy_path dir i p) t" using u(3) by blast
    then show ?thesis using t(2) by simp
  qed
  moreover have "map (\<lambda>(k, p). snapshot_entry e k p (copy_path dir k p) (the (fget p t))) (enumerate (Suc i) ps)
      = map (\<lambda>(k, p). snapshot_entry e k p (copy_path dir k p) (the (fget p s))) (enumerate (Suc i) ps)"
  proof -
    have "fget q t = fget q s" if "(k, q) \<in> set (enumerate (Suc i) ps)" for k q
      using same enum_bounds [OF that] by blast
    then show ?thesis by (auto intro!: map_cong)
  qed
  moreover have "fget (copy_path dir k q) u = Some (File (copied (the (fget q s))) default_mode)"
    if "(k, q) \<in> set (enumerate (Suc i) ps)" for k q
    using u(2) that same enum_bounds [OF that] by auto
  moreover have "fget q u = fget q s" if "\<forall>(k, r) \<in> set (enumerate i (p # ps)). q \<noteq> copy_path dir k r" for q
    using u(3) t(2) that by simp
  ultimately show ?case
    using t(1) u(1) n(1) by (auto simp: bindI_def returnI_def)
qed

subsection \<open>Restoring\<close>

lemma mkdir_keeps:
  "mkdir_recursive d s = (r, s') \<Longrightarrow> fget q s \<noteq> None \<Longrightarrow> fget q s' = fget q s"
  by (cases r) (auto dest: mkdir_recursive_err mkdir_recursive_ok(2))

lemma restore_file_ok:
  assumes "restore_file (Some src) (Some tgt) s = (Inr u, s')"
    and "fget src s = Some (File c m)" and "no_link s tgt"
  shows "\<exists>m'. fget tgt s' = Some (File c m')"
    and "q \<noteq> tgt \<Longrightarrow> fget q s \<noteq> None \<Longrightarrow> fget q s' = fget q s"
    and "q \<noteq> tgt \<Longrightarrow> no_link s q \<Longrightarrow> no_link s' q"
proof -
  from assms(1) obtain v s1 where s1: "mkdir_recursive (dirname tgt) s = (Inr v, s1)"
    and cp: "copy_file src tgt s1 = (Inr u, s')"
    by (auto simp: restore_file_def bindI_eq_Inr)
  have st: "stat_node s1 src = Some (File c m)"
    using mkdir_keeps [OF s1, of src] assms(2) by (auto intro: stat_node_direct)
  have nl: "no_link s1 tgt"
  proof -
    have "fget tgt s1 = fget tgt s \<or> fget tgt s1 = Some Dir"
      using mkdir_recursive_ok(3) [OF s1, of tgt] by blast
    then show ?thesis using assms(3) by (auto simp: no_link_def)
  qed
  then have rp: "real_path s1 tgt = tgt" by (simp add: no_link_def real_path_direct)
  have "\<exists>m'. s' = fput tgt (File c m') s1"
    using cp st rp by (auto simp: copy_file_def split: option.splits node.splits if_splits)
  then obtain m' where s': "s' = fput tgt (File c m') s1" by blast
  then show "\<exists>m'. fget tgt s' = Some (File c m')" by auto
  show "q \<noteq> tgt \<Longrightarrow> fget q s \<noteq> None \<Longrightarrow> fget q s' = fget q s"
    using mkdir_keeps [OF s1, of q] by (simp add: s')
  show "q \<noteq> tgt \<Longrightarrow> no_link s q \<Longrightarrow> no_link s' q"
    using mkdir_recursive_ok(3) [OF s1, of q] by (cases "fget q s1 = fget q s") (auto simp: s' no_link_def)
qed

definition restores :: "fs \<Rightarrow> rb_op \<Rightarrow> string \<Rightarrow> string \<Rightarrow> string \<Rightarrow> bool" where
  \<comment> \<open>the operation copies the file src, holding c, over tgt\<close>
  "restores s op src tgt c =
     (ro_kind op = ''file-restore-from-snapshot'' \<and> ro_source op = Some src \<and> ro_target op = Some tgt
      \<and> ro_path op = Some tgt \<and> (\<exists>m. fget src s = Some (File c m)))"

lemma rollback_one_ok:
  assumes "rollback_one e op s = (Inr u, s')" and "restores s op src tgt c" and "no_link s tgt"
  shows "\<exists>m'. fget tgt s' = Some (File c m')" and "ro_before op = Some (JStr (e_sha e c))"
    and "q \<noteq> tgt \<Longrightarrow> fget q s \<noteq> None \<Longrightarrow> fget q s' = fget q s"
    and "q \<noteq> tgt \<Longrightarrow> no_link s q \<Longrightarrow> no_link s' q"
proof -
  obtain m where r: "restore_file (Some src) (Some tgt) s = (Inr (), s')"
    and sm: "fget src s = Some (File c m)"
    and h: "\<exists>h. hashFile e s' tgt = Inr h \<and> ro_before op = Some (JStr h)"
    using assms(1,2)
    by (fastforce simp: rollback_one_def restores_def bindI_eq_Inr liftI_def returnI_def failI_def split: if_splits)
  note rf = restore_file_ok [OF r sm assms(3)]
  show f: "\<exists>m'. fget tgt s' = Some (File c m')" by (rule rf(1))
  show "q \<noteq> tgt \<Longrightarrow> fget q s \<noteq> None \<Longrightarrow> fget q s' = fget q s"
    by (rule rf(2))
  show "q \<noteq> tgt \<Longrightarrow> no_link s q \<Longrightarrow> no_link s' q"
    by (rule rf(3))
  show "ro_before op = Some (JStr (e_sha e c))" using h f by (auto simp: hashFile_def)
qed

lemma rollback_all_ok:
  assumes "rollback_all e (map fst pl) s = (Inr u, s')"
    and "\<forall>(op, src, tgt, c) \<in> set pl. restores s op src tgt c \<and> no_link s tgt"
    and "distinct (map (\<lambda>(op, src, tgt, c). tgt) pl)"
    and "\<forall>(op, src, tgt, c) \<in> set pl. \<forall>(op', src', tgt', c') \<in> set pl. src \<noteq> tgt'"
  shows "\<forall>(op, src, tgt, c) \<in> set pl. (\<exists>m. fget tgt s' = Some (File c m)) \<and> ro_before op = Some (JStr (e_sha e c))"
    and "q \<notin> (\<lambda>(op, src, tgt, c). tgt) ` set pl \<Longrightarrow> fget q s \<noteq> None \<Longrightarrow> fget q s' = fget q s"
proof -
  have "(\<forall>(op, src, tgt, c) \<in> set pl. (\<exists>m. fget tgt s' = Some (File c m)) \<and> ro_before op = Some (JStr (e_sha e c)))
      \<and> (\<forall>q. q \<notin> (\<lambda>(op, src, tgt, c). tgt) ` set pl \<longrightarrow> fget q s \<noteq> None \<longrightarrow> fget q s' = fget q s)"
    using assms
  proof (induction pl arbitrary: s)
    case Nil
    then show ?case by (simp add: returnI_def)
  next
    case (Cons x pl)
    obtain op src tgt c where x: "x = (op, src, tgt, c)" by (metis prod_cases4)
    from Cons.prems(1) x obtain v t where t: "rollback_one e op s = (Inr v, t)"
      and rest: "rollback_all e (map fst pl) t = (Inr u, s')" by (auto simp: bindI_eq_Inr)
    have r: "restores s op src tgt c" "no_link s tgt" using Cons.prems(2) x by auto
    note one = rollback_one_ok [OF t r]
    have pl: "restores t op' src' tgt' c' \<and> no_link t tgt'" if mem: "(op', src', tgt', c') \<in> set pl" for op' src' tgt' c'
    proof -
      have "src' \<noteq> tgt" "tgt' \<noteq> tgt" using Cons.prems(3,4) x mem by force+
      moreover have "restores s op' src' tgt' c'" "no_link s tgt'" using Cons.prems(2) mem by auto
      ultimately show ?thesis using one(3) [of src'] one(4) [of tgt'] by (auto simp: restores_def)
    qed
    then have a2: "\<forall>(op, src, tgt, c) \<in> set pl. restores t op src tgt c \<and> no_link t tgt" by blast
    have a3: "distinct (map (\<lambda>(op, src, tgt, c). tgt) pl)" using Cons.prems(3) by simp
    have a4: "\<forall>(op, src, tgt, c) \<in> set pl. \<forall>(op', src', tgt', c') \<in> set pl. src \<noteq> tgt'"
      using Cons.prems(4) by auto
    from Cons.IH [OF rest a2 a3 a4]
    have ih1: "\<forall>(op, src, tgt, c) \<in> set pl. (\<exists>m. fget tgt s' = Some (File c m)) \<and> ro_before op = Some (JStr (e_sha e c))"
      and ih2: "\<forall>q. q \<notin> (\<lambda>(op, src, tgt, c). tgt) ` set pl \<longrightarrow> fget q t \<noteq> None \<longrightarrow> fget q s' = fget q t"
      by blast+
    have nt: "tgt \<notin> (\<lambda>(op, src, tgt, c). tgt) ` set pl" using Cons.prems(3) x by auto
    obtain m where m: "fget tgt t = Some (File c m)" using one(1) by blast
    with ih2 nt have "fget tgt s' = Some (File c m)" by auto
    with ih1 one(2) x have g1: "\<forall>(op, src, tgt, c) \<in> set (x # pl).
        (\<exists>m. fget tgt s' = Some (File c m)) \<and> ro_before op = Some (JStr (e_sha e c))" by auto
    have g2: "fget q s' = fget q s" if "q \<notin> (\<lambda>(op, src, tgt, c). tgt) ` set (x # pl)" "fget q s \<noteq> None" for q
    proof -
      have "q \<noteq> tgt" "q \<notin> (\<lambda>(op, src, tgt, c). tgt) ` set pl" using that(1) x by auto
      with one(3) [of q] ih2 that(2) show ?thesis by simp
    qed
    from g1 g2 show ?case by blast
  qed
  then show "\<forall>(op, src, tgt, c) \<in> set pl. (\<exists>m. fget tgt s' = Some (File c m)) \<and> ro_before op = Some (JStr (e_sha e c))"
    and "q \<notin> (\<lambda>(op, src, tgt, c). tgt) ` set pl \<Longrightarrow> fget q s \<noteq> None \<Longrightarrow> fget q s' = fget q s"
    by blast+
qed

end
