(* ===== verification/Snapshot_Total.thy ===== *)
theory Snapshot_Total
  imports Copies Lock
begin

text \<open>
  takeSnapshot as a whole: under a fresh operation id and a creatable housekeeper directory it
  returns, the copies hold the bytes of the targets, the manifest on disk is the returned one in
  status snapshot_taken, and no existing file other than the manifest slot has changed. Then the
  round trip: whatever happened to the targets since, a rollback that reports success has given
  every one of them its bytes back.
\<close>

subsection \<open>Directories\<close>

lemma dir_creatable_run:
  assumes "dir_creatable s d"
  shows "mkdir_recursive d s = (Inr (), foldl mkdir_one s (mkdirs_up (length d) d))"
  using assms by (auto simp: mkdir_recursive_def dir_creatable_def list_all_iff list_ex_iff)

lemma dir_creatable_after:
  assumes "mkdir_recursive d s = (Inr u, s')" and "dir_creatable s d'"
  shows "dir_creatable s' d'"
proof -
  have "fget q s' = None \<or> is_directory s' q" if "fget q s = None \<or> is_directory s q" for q
    using that
  proof
    assume "fget q s = None"
    then have "fget q s' = None \<or> fget q s' = Some Dir"
      using mkdir_recursive_ok(3) [OF assms(1), of q] by metis
    then show ?thesis by (auto simp: is_directory_def stat_node_direct)
  next
    assume "is_directory s q"
    then show ?thesis
      using is_directory_mono [of s s' q] mkdir_recursive_ok(2) [OF assms(1)] by blast
  qed
  then show ?thesis using assms(2) by (simp add: dir_creatable_def list_all_iff)
qed

lemma dirname_in_up:
  "dirname p \<noteq> p \<Longrightarrow> p \<noteq> [] \<Longrightarrow> dirname p \<in> set (mkdirs_up (length p) p)"
  by (cases p) (simp_all add: mkdirs_up_last)

definition op_dir :: "string list \<Rightarrow> string list" where
  "op_dir H = H @ [''.claude'', ''housekeeper'', ''operations'']"

definition snap_dir :: "string list \<Rightarrow> string \<Rightarrow> string list" where
  "snap_dir H i = H @ [''.claude'', ''housekeeper'', ''snapshots'', i]"

lemma snapshot_paths:
  assumes "clean_home home H" "valid_seg i" "valid_seg (i @ ''.json'')"
  shows "snapshot_dir home i = abs_path (snap_dir H i)"
    and "operations_dir home = abs_path (op_dir H)"
    and "manifest_path home i = abs_path (op_dir H @ [i @ ''.json''])"
    and "path_join [snapshot_dir home i, ''files''] = abs_path (snap_dir H i @ [''files''])"
    and "path_join [snapshot_dir home i, ''meta.json''] = abs_path (snap_dir H i @ [''meta.json''])"
    and "clean_home (abs_path (snap_dir H i @ [''files''])) (snap_dir H i @ [''files''])"
proof -
  have c: "H \<noteq> []" "\<forall>s \<in> set H. valid_seg s" "home = abs_path H" using assms(1) by (auto simp: clean_home_def)
  have v: "valid_seg ''snapshots''" "valid_seg ''files''" "valid_seg ''meta.json''"
    by (simp_all add: valid_seg_def sep_def dot_def dotdot_def)
  show s: "snapshot_dir home i = abs_path (snap_dir H i)"
    unfolding snapshot_dir_def snap_dir_def c(3) by (rule path_join_abs_list) (use c v assms(2) in auto)
  show "operations_dir home = abs_path (op_dir H)"
    unfolding operations_dir_def op_dir_def c(3) by (rule path_join_abs_list) (use c v in auto)
  have "manifest_path home i = abs_path (H @ [''.claude'', ''housekeeper'', ''operations'', i @ ''.json''])"
    unfolding manifest_path_def c(3) by (rule path_join_abs_list) (use c v assms(3) in auto)
  then show "manifest_path home i = abs_path (op_dir H @ [i @ ''.json''])" by (simp add: op_dir_def)
  show "path_join [snapshot_dir home i, ''files''] = abs_path (snap_dir H i @ [''files''])"
    unfolding s by (rule path_join_abs) (use c v assms(2) in \<open>auto simp: snap_dir_def\<close>)
  show "path_join [snapshot_dir home i, ''meta.json''] = abs_path (snap_dir H i @ [''meta.json''])"
    unfolding s by (rule path_join_abs) (use c v assms(2) in \<open>auto simp: snap_dir_def\<close>)
  show "clean_home (abs_path (snap_dir H i @ [''files''])) (snap_dir H i @ [''files''])"
    using c v assms(2) by (auto simp: clean_home_def snap_dir_def)
qed

definition snapshot_env_ok :: "(nat \<Rightarrow> string) \<Rightarrow> string list \<Rightarrow> string \<Rightarrow> nat \<Rightarrow> fs \<Rightarrow> bool" where
  \<comment> \<open>the operation id i has not been used, the two directories can be made, the random
      suffixes are plain\<close>
  "snapshot_env_ok hex H i n s =
     (H \<noteq> [] \<and> (\<forall>x \<in> set H. valid_seg x) \<and> valid_seg i \<and> valid_seg (i @ ''.json'')
      \<and> (\<forall>j. sep \<notin> set (hex j)) \<and> n \<le> MAX_OPERATION_FILES
      \<and> dir_creatable s (abs_path (snap_dir H i @ [''files''])) \<and> dir_creatable s (abs_path (op_dir H))
      \<and> (\<forall>q. starts_with (abs_path (snap_dir H i)) q \<longrightarrow> fget q s = None)
      \<and> fget (abs_path (op_dir H @ [i @ ''.json''])) s \<noteq> Some Dir
      \<and> fget (tmp_path (hex (Suc n)) (abs_path (op_dir H @ [i @ ''.json'']))) s = None)"

lemma tmp_as_seg:
  "tmp_path x (abs_path (P @ [w])) = abs_path (P @ [w @ ''.tmp.'' @ x])"
  by (simp add: tmp_path_def)

lemma valid_tmp: "valid_seg w \<Longrightarrow> sep \<notin> set x \<Longrightarrow> valid_seg (w @ ''.tmp.'' @ x)"
  by (auto simp: valid_seg_def sep_def dot_def dotdot_def)


lemma not_prefix_dirs:
  "\<not> prefix (snap_dir H i @ w # ws) (op_dir H)"
  "\<not> prefix (op_dir H @ w # ws) (op_dir H)"
  "\<not> prefix (op_dir H @ ws) (snap_dir H i @ us)"
  "prefix (snap_dir H i @ w # ws) (snap_dir H i @ [u]) \<longleftrightarrow> w = u \<and> ws = []"
  by (auto simp: op_dir_def snap_dir_def)

lemma two_mkdirs:
  assumes "dir_creatable s d" "dir_creatable s d'"
  obtains s1 s2 where "mkdir_recursive d s = (Inr (), s1)" "mkdir_recursive d' s1 = (Inr (), s2)"
    "\<And>q. fget q s \<noteq> None \<Longrightarrow> fget q s2 = fget q s"
    "\<And>q. fget q s2 \<noteq> fget q s \<Longrightarrow> fget q s2 = Some Dir
        \<and> q \<in> set (mkdirs_up (length d) d) \<union> set (mkdirs_up (length d') d')"
    "\<And>q. fget q s = None \<Longrightarrow> q \<in> set (mkdirs_up (length d) d) \<Longrightarrow> fget q s2 = Some Dir"
    "is_directory s2 d'"
proof -
  let ?s1 = "foldl mkdir_one s (mkdirs_up (length d) d)"
  have r1: "mkdir_recursive d s = (Inr (), ?s1)" by (rule dir_creatable_run [OF assms(1)])
  let ?s2 = "foldl mkdir_one ?s1 (mkdirs_up (length d') d')"
  have r2: "mkdir_recursive d' ?s1 = (Inr (), ?s2)"
    by (rule dir_creatable_run [OF dir_creatable_after [OF r1 assms(2)]])
  show ?thesis
    by (rule that [OF r1 r2]) (auto simp: mkdirs_get intro: mkdir_recursive_ok(1) [OF r2] split: if_splits)
qed

lemma up_starts:
  assumes "\<forall>x \<in> set (P @ R). valid_seg x" "R \<noteq> []" "P \<noteq> []" "q \<in> set (mkdirs_up n (abs_path R))"
    and "starts_with (abs_path P @ [sep]) q"
  shows "\<exists>w ws. prefix (P @ w # ws) R"
proof -
  have "q \<noteq> [sep]"
    using assms(3,5) by (cases P) (auto simp: starts_with_iff)
  then obtain Q where Q: "prefix Q R" "q = abs_path Q"
    using mkdirs_up_abs [OF assms(4,2)] assms(1) by auto
  have v: "\<forall>x \<in> set P. valid_seg x" "\<forall>x \<in> set Q. valid_seg x"
    using assms(1) set_mono_prefix [OF Q(1)] by auto
  then have "prefix P Q" using abs_path_prefix [OF v] assms(5) Q(2) by blast
  moreover have "P \<noteq> Q" using assms(5) Q(2) by (auto simp: starts_with_iff dest: arg_cong [where f = length])
  ultimately have "\<exists>w ws. Q = P @ w # ws" by (metis prefixE append_Nil2 neq_Nil_conv)
  then show ?thesis using Q(1) by blast
qed

lemma snap_ready_after:
  assumes ok: "snapshot_env_ok hex H i n s"
    and same: "\<And>q. fget q s2 \<noteq> fget q s \<Longrightarrow> fget q s2 = Some Dir
        \<and> q \<in> set (mkdirs_up (length d) d) \<union> set (mkdirs_up (length d') d')"
    and new: "\<And>q. fget q s = None \<Longrightarrow> q \<in> set (mkdirs_up (length d) d) \<Longrightarrow> fget q s2 = Some Dir"
    and d: "d = abs_path (snap_dir H i @ [''files''])" "d' = abs_path (op_dir H)"
  shows "snap_ready hex d 0 n s2"
proof -
  let ?F = "snap_dir H i @ [''files'']"
  have h: "H \<noteq> []" "\<forall>x \<in> set H. valid_seg x" "valid_seg i" "\<forall>j. sep \<notin> set (hex j)" "n \<le> 50"
    and fresh: "\<And>q. starts_with (abs_path (snap_dir H i)) q \<Longrightarrow> fget q s = None"
    using ok by (auto simp: snapshot_env_ok_def MAX_OPERATION_FILES_def)
  have v: "valid_seg ''snapshots''" "valid_seg ''operations''"
    by (simp_all add: valid_seg_def sep_def dot_def dotdot_def)
  have vF: "\<forall>x \<in> set ?F. valid_seg x" "\<forall>x \<in> set (op_dir H). valid_seg x"
    using h v by (auto simp: snap_dir_def op_dir_def)
  have "fget d s2 = Some Dir"
    by (rule new) (use fresh mkdirs_up_last in \<open>auto simp: d\<close>)
  moreover have "fget q s2 = None" if "starts_with (copy_zone d j) q" for j q
  proof -
    have z: "starts_with (abs_path ?F @ [sep]) q"
      using that by (auto simp: copy_zone_def d starts_with_iff)
    then have "starts_with (abs_path (snap_dir H i)) q" by (auto simp: starts_with_iff)
    then have n: "fget q s = None" by (rule fresh)
    have "q \<notin> set (mkdirs_up k (abs_path R))"
      if "R \<in> {?F, op_dir H}" for k R
    proof
      assume "q \<in> set (mkdirs_up k (abs_path R))"
      moreover have "R \<noteq> []" "\<forall>x \<in> set (?F @ R). valid_seg x" using that vF by (auto simp: op_dir_def)
      ultimately obtain w ws where "prefix (?F @ w # ws) R" using up_starts [OF _ _ _ _ z] by blast
      then show False using that not_prefix_dirs(1) [of H i "''files''" "w # ws"] by auto
    qed
    then have "q \<notin> set (mkdirs_up (length d) d) \<union> set (mkdirs_up (length d') d')"
      unfolding d by blast
    then show ?thesis using same [of q] n by metis
  qed
  moreover have "clean_home d ?F" using h vF by (auto simp: clean_home_def d)
  ultimately show ?thesis using h(4,5) unfolding snap_ready_def by auto
qed

lemma untouched_slot:
  assumes ok: "snapshot_env_ok hex H i n s"
    and same: "\<And>q. fget q s2 \<noteq> fget q s \<Longrightarrow> fget q s2 = Some Dir
        \<and> q \<in> set (mkdirs_up (length d) d) \<union> set (mkdirs_up (length d') d')"
    and d: "d = abs_path (snap_dir H i @ [''files''])" "d' = abs_path (op_dir H)"
    and v: "\<forall>x \<in> set Q. valid_seg x" "Q \<noteq> []"
    and np: "\<not> prefix Q (snap_dir H i @ [''files''])" "\<not> prefix Q (op_dir H)"
  shows "fget (abs_path Q) s2 = fget (abs_path Q) s"
proof -
  have h: "\<forall>x \<in> set (snap_dir H i @ [''files'']). valid_seg x" "\<forall>x \<in> set (op_dir H). valid_seg x"
    using ok by (auto simp: snapshot_env_ok_def snap_dir_def op_dir_def valid_seg_def sep_def dot_def dotdot_def)
  have "abs_path Q \<notin> set (mkdirs_up k d)" "abs_path Q \<notin> set (mkdirs_up k d')" for k
    unfolding d using mkdirs_up_not [OF h(1) _ v np(1)] mkdirs_up_not [OF h(2) _ v np(2)]
    by (auto simp: op_dir_def)
  then show ?thesis using same [of "abs_path Q"] by blast
qed

definition expected_entries :: "env \<Rightarrow> string \<Rightarrow> string list \<Rightarrow> fs \<Rightarrow> json list" where
  \<comment> \<open>one manifest entry per target, numbered from 0, with the digest of what the target holds\<close>
  "expected_entries e dir ps s =
     map (\<lambda>(k, p). snapshot_entry e k p (copy_path dir k p) (the (fget p s))) (enumerate 0 ps)"

definition taken_manifest :: "env \<Rightarrow> string \<Rightarrow> string \<Rightarrow> snap_opts \<Rightarrow> json list \<Rightarrow> json" where
  "taken_manifest e i home opts entries =
     makeOperationManifest (JObj
       [(''id'', JStr i), (''home'', JStr home), (''status'', JStr ''snapshot_taken''),
        (''createdAt'', JStr (e_iso e (e_now e))), (''capturedAt'', JStr (e_iso e (e_now e))),
        (''housekeeperVersion'', JStr (str_or (so_version opts) ''0.2.0'')),
        (''command'', JStr (str_or (so_command opts) ''clean'')),
        (''mode'', JStr (str_or (so_mode opts) ''confirm'')),
        (''consentSummary'', JStr (so_consent opts)), (''files'', JArr entries)])"

lemma makeFileSnapshot_entry: "makeFileSnapshot (snapshot_entry e k p d n) = snapshot_entry e k p d n"
  by (cases n) (auto simp: snapshot_entry_def makeFileSnapshot_def js_or_def js_num_or_def)

lemma files_again: "map makeFileSnapshot (expected_entries e dir ps s) = expected_entries e dir ps s"
  by (simp add: expected_entries_def makeFileSnapshot_entry split_def)

lemma expected_entries_plain: "\<forall>x \<in> set (expected_entries e dir ps s). json_plain x"
  by (auto simp: expected_entries_def snapshot_entry_facts(4))

lemma js_or_JStr_plain: "json_plain (js_or (Some (JStr x)) (JStr y))"
  by (simp add: js_or_def)

lemma taken_manifest_facts:
  assumes "ens = expected_entries e' dir ps s"
  shows "manifest_status (taken_manifest e i home opts ens) = Some ''snapshot_taken''"
    and "manifest_files (taken_manifest e i home opts ens) = ens"
    and "json_plain (taken_manifest e i home opts ens)"
  unfolding taken_manifest_def makeOperationManifest_def
  by (simp_all add: manifest_status_def manifest_files_def OPERATION_STATUSES_def assms files_again
      js_or_JStr_plain expected_entries_plain)

lemma atomicWrite_slot:
  assumes "fget (tmp_path x p) s = None" "is_directory s (dirname (tmp_path x p))" "fget p s \<noteq> Some Dir"
  shows "\<exists>t. atomicWrite x p content s = (Inr (), t)
    \<and> (\<forall>q. fget q t = (if q = p then Some (File content default_mode) else fget q s))"
  using assms atomicWrite_ok [of x p s content] by (simp add: tmp_ready_def parent_is_dir_def)

lemma dirname_tmp_seg:
  assumes "\<forall>x \<in> set (P @ [w]). valid_seg x" "P \<noteq> []" "sep \<notin> set x"
  shows "dirname (tmp_path x (abs_path (P @ [w]))) = abs_path P"
proof -
  have "\<forall>y \<in> set (P @ [w @ ''.tmp.'' @ x]). valid_seg y"
    using assms valid_tmp [of w x] by (simp only: set_append) auto
  then show ?thesis unfolding tmp_as_seg by (rule dirname_abs_path [OF _ assms(2)])
qed

lemma copy_path_neq:
  assumes "clean_home (abs_path F) F" "k < 10000" "\<forall>x \<in> set Q. valid_seg x" "length Q \<noteq> Suc (length F)"
  shows "abs_path Q \<noteq> copy_path (abs_path F) k p"
proof
  assume "abs_path Q = copy_path (abs_path F) k p"
  then have "abs_path Q = abs_path (F @ [snapshot_name k p])"
    using copy_path_abs [OF assms(1,2)] by simp
  moreover have "\<forall>x \<in> set (F @ [snapshot_name k p]). valid_seg x"
    using assms(1) snapshot_name_valid [OF assms(2), of "[]"] by (auto simp: clean_home_def)
  ultimately have "Q = F @ [snapshot_name k p]" using abs_path_inj assms(3) by blast
  then show False using assms(4) by simp
qed

definition files_dir :: "string list \<Rightarrow> string \<Rightarrow> string list" where
  "files_dir H i = snap_dir H i @ [''files'']"

lemma env_ok_facts:
  assumes "snapshot_env_ok hex H i n s"
  shows "H \<noteq> []" "\<forall>x \<in> set H. valid_seg x" "valid_seg i" "valid_seg (i @ ''.json'')" "sep \<notin> set (hex j)" "n \<le> 50"
    and "\<forall>x \<in> set (snap_dir H i). valid_seg x" "\<forall>x \<in> set (op_dir H). valid_seg x" "\<forall>x \<in> set (files_dir H i). valid_seg x"
    and "clean_home (abs_path H) H" "clean_home (abs_path (files_dir H i)) (files_dir H i)"
  using assms
  by (auto simp: snapshot_env_ok_def MAX_OPERATION_FILES_def snap_dir_def op_dir_def files_dir_def clean_home_def
      valid_seg_def sep_def dot_def dotdot_def)

lemma dir_lengths:
  "length (op_dir H) = length H + 3" "length (snap_dir H i) = length H + 4" "length (files_dir H i) = length H + 5"
  by (simp_all add: op_dir_def snap_dir_def files_dir_def)

lemma env_ok_slot:
  assumes "snapshot_env_ok hex H i n s"
  shows "fget (abs_path (op_dir H @ [i @ ''.json''])) s \<noteq> Some Dir"
    and "fget (tmp_path (hex (Suc n)) (abs_path (op_dir H @ [i @ ''.json'']))) s = None"
    and "starts_with (abs_path (snap_dir H i)) q \<Longrightarrow> fget q s = None"
  using assms unfolding snapshot_env_ok_def by blast+

definition staged :: "(nat \<Rightarrow> string) \<Rightarrow> string list \<Rightarrow> string \<Rightarrow> nat \<Rightarrow> fs \<Rightarrow> fs \<Rightarrow> bool" where
  \<comment> \<open>the two directories are made, nothing else has changed\<close>
  "staged hex H i n s s2 =
     (snap_ready hex (abs_path (files_dir H i)) 0 n s2
      \<and> (\<forall>q. fget q s \<noteq> None \<longrightarrow> fget q s2 = fget q s)
      \<and> (\<forall>Q. (\<forall>x \<in> set Q. valid_seg x) \<longrightarrow> Q \<noteq> [] \<longrightarrow> \<not> prefix Q (files_dir H i) \<longrightarrow> \<not> prefix Q (op_dir H) \<longrightarrow>
             fget (abs_path Q) s2 = fget (abs_path Q) s)
      \<and> fget (abs_path (snap_dir H i)) s2 = Some Dir \<and> is_directory s2 (abs_path (op_dir H))
      \<and> (fget (abs_path (op_dir H)) s2 = fget (abs_path (op_dir H)) s \<or> fget (abs_path (op_dir H)) s2 = Some Dir))"

lemma staged_other:
  "staged hex H i n s s2 \<Longrightarrow> \<forall>x \<in> set Q. valid_seg x \<Longrightarrow> Q \<noteq> [] \<Longrightarrow>
   \<not> prefix Q (files_dir H i) \<Longrightarrow> \<not> prefix Q (op_dir H) \<Longrightarrow> fget (abs_path Q) s2 = fget (abs_path Q) s"
  by (simp add: staged_def)

lemma stage_dirs:
  assumes ok: "snapshot_env_ok hex H i n s"
  shows "\<exists>s1 s2. mkdir_recursive (abs_path (files_dir H i)) s = (Inr (), s1)
     \<and> mkdir_recursive (abs_path (op_dir H)) s1 = (Inr (), s2) \<and> staged hex H i n s s2"
proof -
  let ?d = "abs_path (files_dir H i)" and ?o = "abs_path (op_dir H)"
  have d: "?d = abs_path (snap_dir H i @ [''files''])" by (simp add: files_dir_def)
  have mk: "dir_creatable s ?d" "dir_creatable s ?o" and fresh: "fget (abs_path (snap_dir H i)) s = None"
    using ok by (auto simp: snapshot_env_ok_def files_dir_def)
  obtain s1 s2 where m: "mkdir_recursive ?d s = (Inr (), s1)" "mkdir_recursive ?o s1 = (Inr (), s2)"
    and old: "\<And>q. fget q s \<noteq> None \<Longrightarrow> fget q s2 = fget q s"
    and same: "\<And>q. fget q s2 \<noteq> fget q s \<Longrightarrow> fget q s2 = Some Dir \<and> q \<in> set (mkdirs_up (length ?d) ?d) \<union> set (mkdirs_up (length ?o) ?o)"
    and new: "\<And>q. fget q s = None \<Longrightarrow> q \<in> set (mkdirs_up (length ?d) ?d) \<Longrightarrow> fget q s2 = Some Dir"
    and od2: "is_directory s2 ?o"
    using two_mkdirs [OF mk] by metis
  have "dirname ?d = abs_path (snap_dir H i)"
    unfolding d by (rule dirname_abs_path) (use env_ok_facts(9) [OF ok] in \<open>auto simp: snap_dir_def files_dir_def\<close>)
  moreover have "?d \<noteq> []" "abs_path (snap_dir H i) \<noteq> ?d" by (simp_all add: files_dir_def)
  ultimately have "abs_path (snap_dir H i) \<in> set (mkdirs_up (length ?d) ?d)"
    using dirname_in_up [of ?d] by simp
  then have "fget (abs_path (snap_dir H i)) s2 = Some Dir" using new fresh by simp
  moreover have "snap_ready hex ?d 0 n s2" by (rule snap_ready_after [OF ok same new d refl])
  moreover have "fget (abs_path Q) s2 = fget (abs_path Q) s"
    if "\<forall>x \<in> set Q. valid_seg x" "Q \<noteq> []" "\<not> prefix Q (files_dir H i)" "\<not> prefix Q (op_dir H)" for Q
    by (rule untouched_slot [OF ok same d refl]) (use that in \<open>auto simp: files_dir_def\<close>)
  moreover have "fget ?o s2 = fget ?o s \<or> fget ?o s2 = Some Dir" using same [of ?o] by blast
  ultimately show ?thesis using m old od2 unfolding staged_def by blast
qed

lemma copy_not_fresh:
  assumes "snapshot_env_ok hex H i n s" "k < n" "fget q s \<noteq> None"
  shows "q \<noteq> copy_path (abs_path (files_dir H i)) k p"
proof
  assume q: "q = copy_path (abs_path (files_dir H i)) k p"
  have "starts_with (copy_zone (abs_path (files_dir H i)) k) q"
    unfolding q by (rule copy_in_zone(1) [OF env_ok_facts(11) [OF assms(1)]]) (use assms(2) env_ok_facts(6) [OF assms(1)] in simp)
  then have "starts_with (abs_path (snap_dir H i)) q" by (auto simp: copy_zone_def files_dir_def starts_with_iff)
  then show False using assms(1,3) by (auto simp: snapshot_env_ok_def)
qed

lemma stage_copies:
  assumes ok: "snapshot_env_ok hex H i (length ps) s" and st: "staged hex H i (length ps) s s2"
    and cp: "\<forall>p \<in> set ps. is_copyable s p" and dir: "dir = abs_path (files_dir H i)"
  shows "\<exists>s3. snapshot_files e hex dir 0 ps s2 = (Inr (expected_entries e dir ps s), s3)
     \<and> (\<forall>(k, p) \<in> set (enumerate 0 ps). fget (copy_path dir k p) s3 = Some (File (copied (the (fget p s))) default_mode))
     \<and> (\<forall>q. fget q s2 \<noteq> None \<longrightarrow> fget q s3 = fget q s2)
     \<and> (\<forall>Q. (\<forall>x \<in> set Q. valid_seg x) \<longrightarrow> length Q \<noteq> Suc (length (files_dir H i)) \<longrightarrow> fget (abs_path Q) s3 = fget (abs_path Q) s2)
     \<and> (\<forall>q. \<not> starts_with (abs_path (snap_dir H i)) q \<longrightarrow> fget q s3 = fget q s2)"
proof -
  have sr: "snap_ready hex dir 0 (length ps) s2" and old: "\<And>q. fget q s \<noteq> None \<Longrightarrow> fget q s2 = fget q s"
    using st by (simp_all add: staged_def dir)
  have tgt: "fget p s2 = fget p s" if "p \<in> set ps" for p
    using cp old [of p] that by (auto simp: is_copyable_def)
  have cp2: "\<forall>p \<in> set ps. is_copyable s2 p" using cp old by (fastforce simp: is_copyable_def)
  have bd: "k < 10000" "k < length ps" "p \<in> set ps" if "(k, p) \<in> set (enumerate 0 ps)" for k p
    using enum_bounds [OF that] env_ok_facts(6) [OF ok] by simp_all
  from snapshot_files_ok [OF sr cp2, of e] obtain s3 where
    f: "snapshot_files e hex dir 0 ps s2 =
          (Inr (map (\<lambda>(k, p). snapshot_entry e k p (copy_path dir k p) (the (fget p s2))) (enumerate 0 ps)), s3)"
    and c3: "\<forall>(k, p) \<in> set (enumerate 0 ps). fget (copy_path dir k p) s3 = Some (File (copied (the (fget p s2))) default_mode)"
    and o3: "\<And>q. (\<forall>(k, p) \<in> set (enumerate 0 ps). q \<noteq> copy_path dir k p) \<Longrightarrow> fget q s3 = fget q s2"
    by blast
  have es: "map (\<lambda>(k, p). snapshot_entry e k p (copy_path dir k p) (the (fget p s2))) (enumerate 0 ps) = expected_entries e dir ps s"
    using tgt bd(3) unfolding expected_entries_def by (intro map_cong) auto
  have "fget q s3 = fget q s2" if "fget q s2 \<noteq> None" for q
  proof -
    have "q \<noteq> copy_path dir k p" if kp: "(k, p) \<in> set (enumerate 0 ps)" for k p
      using copy_in_zone(1) [OF env_ok_facts(11) [OF ok] bd(1) [OF kp], of p] snap_ready_free [OF sr _ _, of k q]
        bd(2) [OF kp] \<open>fget q s2 \<noteq> None\<close> by (auto simp: dir)
    then show ?thesis using o3 [of q] by blast
  qed
  moreover have "fget q s3 = fget q s2" if "\<not> starts_with (abs_path (snap_dir H i)) q" for q
  proof -
    have "q \<noteq> copy_path dir k p" if kp: "(k, p) \<in> set (enumerate 0 ps)" for k p
      using copy_in_zone(1) [OF env_ok_facts(11) [OF ok] bd(1) [OF kp], of p] \<open>\<not> starts_with _ q\<close>
      by (auto simp: dir copy_zone_def files_dir_def starts_with_iff)
    then show ?thesis using o3 [of q] by blast
  qed
  moreover have "fget (abs_path Q) s3 = fget (abs_path Q) s2"
    if "\<forall>x \<in> set Q. valid_seg x" "length Q \<noteq> Suc (length (files_dir H i))" for Q
    using o3 [of "abs_path Q"] copy_path_neq [OF env_ok_facts(11) [OF ok] bd(1) that] unfolding dir by blast
  ultimately show ?thesis using f c3 tgt bd(3) unfolding es by fastforce
qed

lemma stage_meta:
  assumes ok: "snapshot_env_ok hex H i n s" and st: "staged hex H i n s s2"
    and n3: "\<And>Q. \<forall>x \<in> set Q. valid_seg x \<Longrightarrow> length Q \<noteq> Suc (length (files_dir H i)) \<Longrightarrow> fget (abs_path Q) s3 = fget (abs_path Q) s2"
  shows "fget (abs_path (snap_dir H i @ [''meta.json''])) s3 = None"
    and "\<exists>s4. atomicWrite (hex n) (abs_path (snap_dir H i @ [''meta.json''])) mt s3 = (Inr (), s4)
      \<and> (\<forall>q. fget q s4 = (if q = abs_path (snap_dir H i @ [''meta.json'']) then Some (File mt default_mode) else fget q s3))"
proof -
  let ?M = "snap_dir H i @ [''meta.json'']" and ?T = "snap_dir H i @ [''meta.json'' @ ''.tmp.'' @ hex n]"
  note ef = env_ok_facts [OF ok]
  have vm: "valid_seg ''meta.json''" by (simp add: valid_seg_def sep_def dot_def dotdot_def)
  have vM: "\<forall>x \<in> set ?M. valid_seg x" using ef(7) vm by simp
  have vT: "\<forall>x \<in> set ?T. valid_seg x" using ef(7) valid_tmp [OF vm ef(5)] by simp
  have nT: "fget (abs_path Q) s3 = None" if Q: "Q = snap_dir H i @ [w]" "w \<noteq> ''files''" "\<forall>x \<in> set Q. valid_seg x" for Q w
  proof -
    have "\<not> prefix Q (files_dir H i)" "\<not> prefix Q (op_dir H)"
      using not_prefix_dirs(2-4) Q(2) unfolding Q(1) files_dir_def by (auto simp: op_dir_def snap_dir_def)
    then have "fget (abs_path Q) s2 = fget (abs_path Q) s"
      by (intro staged_other [OF st Q(3)]) (auto simp: Q(1))
    moreover have "fget (abs_path Q) s = None" using ok Q(1) by (simp add: snapshot_env_ok_def)
    ultimately show ?thesis using n3 [OF Q(3)] Q(1) by (simp add: files_dir_def)
  qed
  show "fget (abs_path ?M) s3 = None" by (rule nT [OF refl _ vM]) simp
  show "\<exists>s4. atomicWrite (hex n) (abs_path ?M) mt s3 = (Inr (), s4)
      \<and> (\<forall>q. fget q s4 = (if q = abs_path ?M then Some (File mt default_mode) else fget q s3))"
  proof (rule atomicWrite_slot)
    show "fget (tmp_path (hex n) (abs_path ?M)) s3 = None"
      unfolding tmp_as_seg by (rule nT [OF refl _ vT]) simp
    show "fget (abs_path ?M) s3 \<noteq> Some Dir" using nT [OF refl _ vM] by simp
    have "fget (abs_path (snap_dir H i)) s3 = Some Dir"
      using st n3 [OF ef(7)] by (simp add: staged_def files_dir_def)
    then show "is_directory s3 (dirname (tmp_path (hex n) (abs_path ?M)))"
      using dirname_tmp_seg [OF vM _ ef(5)] by (simp add: is_directory_def stat_node_direct snap_dir_def)
  qed
qed

lemma stage_slot:
  assumes ok: "snapshot_env_ok hex H i n s" and st: "staged hex H i n s s2"
    and n3: "\<And>Q. \<forall>x \<in> set Q. valid_seg x \<Longrightarrow> length Q \<noteq> Suc (length (files_dir H i)) \<Longrightarrow> fget (abs_path Q) s3 = fget (abs_path Q) s2"
    and mono: "\<And>q. fget q s2 \<noteq> None \<Longrightarrow> fget q s3 = fget q s2"
    and m3: "fget (abs_path (snap_dir H i @ [''meta.json''])) s3 = None"
    and g4: "\<And>q. q \<noteq> abs_path (snap_dir H i @ [''meta.json'']) \<Longrightarrow> fget q s4 = fget q s3"
  shows "slot_ready (hex (Suc n)) (manifest_path (abs_path H) i) s4" "is_directory s4 (abs_path (op_dir H))"
    and "valid_seg w \<Longrightarrow> fget (abs_path (op_dir H @ [w])) s4 = fget (abs_path (op_dir H @ [w])) s"
proof -
  note ef = env_ok_facts [OF ok]
  let ?O = "op_dir H @ [i @ ''.json'']" and ?M = "snap_dir H i @ [''meta.json'']"
  have vO: "\<forall>x \<in> set ?O. valid_seg x" using ef(4,8) by simp
  show s4: "fget (abs_path (op_dir H @ [w])) s4 = fget (abs_path (op_dir H @ [w])) s" if w: "valid_seg w" for w
  proof -
    let ?Q = "op_dir H @ [w]"
    have v: "\<forall>x \<in> set ?Q. valid_seg x" using ef(8) w by simp
    have "fget (abs_path ?Q) s2 = fget (abs_path ?Q) s"
      by (rule staged_other [OF st v]) (auto simp: op_dir_def snap_dir_def files_dir_def)
    moreover have "fget (abs_path ?Q) s3 = fget (abs_path ?Q) s2"
      by (rule n3 [OF v]) (simp add: op_dir_def snap_dir_def files_dir_def)
    moreover have "abs_path ?Q \<noteq> abs_path ?M"
    proof
      assume "abs_path ?Q = abs_path ?M"
      then have "?Q = ?M"
        using abs_path_inj [of ?Q ?M] v ef(7) by (simp add: valid_seg_def sep_def dot_def dotdot_def)
      then show False by (simp add: op_dir_def snap_dir_def)
    qed
    ultimately show ?thesis using g4 by simp
  qed
  have "is_directory s3 (abs_path (op_dir H))"
    by (rule is_directory_mono [of s2]) (use mono st in \<open>auto simp: staged_def\<close>)
  then show dirs: "is_directory s4 (abs_path (op_dir H))"
    by (rule is_directory_mono [rotated]) (use g4 m3 in metis)
  have "dirname (tmp_path (hex (Suc n)) (abs_path ?O)) = abs_path (op_dir H)"
    by (rule dirname_tmp_seg [OF vO _ ef(5)]) (simp add: op_dir_def)
  moreover have "fget (tmp_path (hex (Suc n)) (abs_path ?O)) s4 = fget (tmp_path (hex (Suc n)) (abs_path ?O)) s"
    unfolding tmp_as_seg by (rule s4 [OF valid_tmp [OF ef(4,5)]])
  moreover have "fget (abs_path ?O) s4 \<noteq> Some Dir" using s4 [OF ef(4)] env_ok_slot(1) [OF ok] by simp
  ultimately show "slot_ready (hex (Suc n)) (manifest_path (abs_path H) i) s4"
    using dirs env_ok_slot(2) [OF ok]
    unfolding snapshot_paths(3) [OF ef(10,3,4)] slot_ready_def tmp_ready_def parent_is_dir_def by metis
qed

lemma snapshot_write_full:
  assumes home: "home = abs_path H" and ok: "snapshot_env_ok hex H i (length (so_targets opts)) s"
    and cp: "\<forall>p \<in> set (so_targets opts). is_copyable s p"
    and dir: "dir = abs_path (files_dir H i)"
    and ens: "ens = expected_entries e dir (so_targets opts) s"
  shows "\<exists>s'. snapshot_write e i hex home opts s = (Inr (i, taken_manifest e i home opts ens), s')
     \<and> readManifest home i s' = Inr (taken_manifest e i home opts ens)
     \<and> (\<forall>(k, p) \<in> set (enumerate 0 (so_targets opts)).
          fget (copy_path dir k p) s' = Some (File (copied (the (fget p s))) default_mode))
     \<and> (\<forall>q. fget q s \<noteq> None \<longrightarrow> q \<noteq> manifest_path home i \<longrightarrow> fget q s' = fget q s)
     \<and> fget (abs_path (snap_dir H i)) s' = Some Dir
     \<and> (\<forall>w. valid_seg w \<longrightarrow> w \<noteq> i @ ''.json'' \<longrightarrow>
          fget (abs_path (op_dir H @ [w])) s' = fget (abs_path (op_dir H @ [w])) s)
     \<and> (no_link s (abs_path (op_dir H)) \<longrightarrow> fget (abs_path (op_dir H)) s' = Some Dir)
     \<and> (\<forall>Q. (\<forall>x \<in> set Q. valid_seg x) \<longrightarrow> Q \<noteq> [] \<longrightarrow> \<not> prefix Q (files_dir H i) \<longrightarrow> \<not> prefix Q (op_dir H) \<longrightarrow>
          \<not> starts_with (abs_path (snap_dir H i)) (abs_path Q) \<longrightarrow> Q \<noteq> op_dir H @ [i @ ''.json''] \<longrightarrow>
          fget (abs_path Q) s' = fget (abs_path Q) s)"
proof -
  let ?ps = "so_targets opts" and ?n = "length (so_targets opts)" and ?M = "snap_dir H i @ [''meta.json'']"
  let ?m = "taken_manifest e i home opts ens"
  note ef = env_ok_facts [OF ok] and pt = snapshot_paths [OF env_ok_facts(10) [OF ok] env_ok_facts(3) [OF ok] env_ok_facts(4) [OF ok]]
  obtain s1 s2 where m: "mkdir_recursive dir s = (Inr (), s1)" "mkdir_recursive (abs_path (op_dir H)) s1 = (Inr (), s2)"
    and st: "staged hex H i ?n s s2" using stage_dirs [OF ok] dir by blast
  obtain s3 where f: "snapshot_files e hex dir 0 ?ps s2 = (Inr ens, s3)"
    and c3: "\<forall>(k, p) \<in> set (enumerate 0 ?ps). fget (copy_path dir k p) s3 = Some (File (copied (the (fget p s))) default_mode)"
    and mono: "\<And>q. fget q s2 \<noteq> None \<Longrightarrow> fget q s3 = fget q s2"
    and n3: "\<And>Q. \<forall>x \<in> set Q. valid_seg x \<Longrightarrow> length Q \<noteq> Suc (length (files_dir H i)) \<Longrightarrow> fget (abs_path Q) s3 = fget (abs_path Q) s2"
    and out3: "\<And>q. \<not> starts_with (abs_path (snap_dir H i)) q \<Longrightarrow> fget q s3 = fget q s2"
    using stage_copies [OF ok st cp dir, of e] unfolding ens by blast
  let ?mt = "json_pretty (JObj [(''operationId'', JStr i),
      (''housekeeperVersion'', JStr (str_or (so_version opts) ''0.2.0'')),
      (''capturedAt'', JStr (e_iso e (e_now e)))]) @ [nl]"
  obtain s4 where w4: "atomicWrite (hex ?n) (abs_path ?M) ?mt s3 = (Inr (), s4)"
    and g4: "\<And>q. fget q s4 = (if q = abs_path ?M then Some (File ?mt default_mode) else fget q s3)"
    using stage_meta(2) [OF ok st n3] by blast
  have m3: "fget (abs_path ?M) s3 = None" by (rule stage_meta(1) [OF ok st n3])
  note sl = stage_slot [OF ok st n3 mono m3, of s4]
  obtain s5 where w5: "write_manifest (hex (Suc ?n)) home i ?m s4 = (Inr (), s5)"
    and r5: "readManifest home i s5 = Inr ?m" and g5: "\<And>q. q \<noteq> manifest_path home i \<Longrightarrow> fget q s5 = fget q s4"
    using write_manifest_ok [OF sl(1) taken_manifest_facts(3) [OF ens, of e i home opts]] g4 home by auto
  have run: "snapshot_write e i hex home opts s = (Inr (i, ?m), s5)"
    using m f w4 w5 unfolding snapshot_write_def Let_def home pt(2,4,5) files_dir_def [symmetric] dir [symmetric]
    by (simp add: bindI_def returnI_def write_manifest_def taken_manifest_def home)
  have g5s: "fget q s5 = fget q s3" if "q \<noteq> manifest_path home i" "q \<noteq> abs_path ?M" for q
    using that g5 g4 by simp
  have keep: "fget q s5 = fget q s" if "fget q s \<noteq> None" "q \<noteq> manifest_path home i" for q
  proof -
    have "q \<noteq> abs_path ?M" using that(1) ok by (auto simp: snapshot_env_ok_def)
    then show ?thesis using g5s that mono [of q] st by (simp add: staged_def)
  qed
  have mO: "abs_path Q \<noteq> manifest_path home i" if "Q \<noteq> op_dir H @ [i @ ''.json'']" "\<forall>x \<in> set Q. valid_seg x" for Q
    using that abs_path_inj [of Q "op_dir H @ [i @ ''.json'']"] ef(4,8) unfolding home pt(3) by auto
  have vM: "\<forall>x \<in> set ?M. valid_seg x" using ef(7) by (simp add: valid_seg_def sep_def dot_def dotdot_def)
  have nM: "abs_path Q \<noteq> abs_path ?M" if "length Q \<noteq> Suc (length (snap_dir H i))" "\<forall>x \<in> set Q. valid_seg x" for Q
    using that abs_path_inj [of Q ?M] vM by auto
  have copies: "fget (copy_path dir k p) s5 = Some (File (copied (the (fget p s))) default_mode)"
    if kp: "(k, p) \<in> set (enumerate 0 ?ps)" for k p
  proof -
    have c: "fget (copy_path dir k p) s3 = Some (File (copied (the (fget p s))) default_mode)" using c3 kp by auto
    moreover have "copy_path dir k p \<noteq> abs_path ?M" using c m3 by auto
    moreover have "k < 10000" using enum_bounds [OF kp] ef(6) by simp
    then have "copy_path dir k p \<noteq> manifest_path home i"
      using copy_path_neq [OF ef(11), of k "op_dir H @ [i @ ''.json'']" p] ef(4,8) unfolding home pt(3) dir
      by (auto simp: op_dir_def snap_dir_def files_dir_def)
    ultimately show ?thesis using g5s by simp
  qed
  have snapd: "fget (abs_path (snap_dir H i)) s5 = Some Dir"
  proof -
    have "fget (abs_path (snap_dir H i)) s5 = fget (abs_path (snap_dir H i)) s3"
      by (rule g5s [OF mO nM]) (use ef(7) in \<open>simp_all add: op_dir_def snap_dir_def\<close>)
    also have "\<dots> = fget (abs_path (snap_dir H i)) s2" by (rule n3 [OF ef(7)]) (simp add: dir_lengths)
    finally show ?thesis using st by (simp add: staged_def)
  qed
  have opd: "fget (abs_path (op_dir H)) s5 = fget (abs_path (op_dir H)) s2"
  proof -
    have "fget (abs_path (op_dir H)) s5 = fget (abs_path (op_dir H)) s3"
      by (rule g5s [OF mO nM]) (use ef(8) in \<open>simp_all add: dir_lengths\<close>)
    also have "\<dots> = fget (abs_path (op_dir H)) s2" by (rule n3 [OF ef(8)]) (simp add: dir_lengths)
    finally show ?thesis .
  qed
  have ops: "fget (abs_path (op_dir H @ [w])) s5 = fget (abs_path (op_dir H @ [w])) s" if "valid_seg w" "w \<noteq> i @ ''.json''" for w
    using g5 [of "abs_path (op_dir H @ [w])"] sl(3) [of w] that g4 unfolding home pt(3) by simp
  have "fget (abs_path (op_dir H)) s5 = Some Dir" if nl: "no_link s (abs_path (op_dir H))"
  proof -
    have "no_link s2 (abs_path (op_dir H))" "is_directory s2 (abs_path (op_dir H))"
      using st nl by (auto simp: staged_def no_link_def)
    then have "fget (abs_path (op_dir H)) s2 = Some Dir"
      using stat_node_direct [OF refl, of "abs_path (op_dir H)" s2] by (simp add: is_directory_def no_link_def)
    then show ?thesis by (simp add: opd)
  qed
  moreover have "fget (abs_path Q) s5 = fget (abs_path Q) s"
    if "\<forall>x \<in> set Q. valid_seg x" "Q \<noteq> []" "\<not> prefix Q (files_dir H i)" "\<not> prefix Q (op_dir H)"
      "\<not> starts_with (abs_path (snap_dir H i)) (abs_path Q)" "Q \<noteq> op_dir H @ [i @ ''.json'']" for Q
  proof -
    have "abs_path Q \<noteq> abs_path ?M" using that(5) by auto
    then have "fget (abs_path Q) s5 = fget (abs_path Q) s3" using g5s [OF mO [OF that(6,1)]] by simp
    then show ?thesis using out3 [OF that(5)] staged_other [OF st that(1-4)] by simp
  qed
  ultimately show ?thesis using run r5 copies keep snapd ops by blast
qed

lemma snapshot_write_ok:
  assumes "home = abs_path H" and "snapshot_env_ok hex H i (length (so_targets opts)) s"
    and "\<forall>p \<in> set (so_targets opts). is_copyable s p"
    and "dir = abs_path (snap_dir H i @ [''files''])"
    and "ens = expected_entries e dir (so_targets opts) s"
  shows "\<exists>s'. snapshot_write e i hex home opts s = (Inr (i, taken_manifest e i home opts ens), s')
     \<and> readManifest home i s' = Inr (taken_manifest e i home opts ens)
     \<and> (\<forall>(k, p) \<in> set (enumerate 0 (so_targets opts)).
          fget (copy_path dir k p) s' = Some (File (copied (the (fget p s))) default_mode))
     \<and> (\<forall>q. fget q s \<noteq> None \<longrightarrow> q \<noteq> manifest_path home i \<longrightarrow> fget q s' = fget q s)"
  using snapshot_write_full [OF assms(1-3) assms(4) [folded files_dir_def] assms(5)] by blast

lemma restores_entry:
  assumes "fget d s = Some (File (copied n) m)"
  shows "restores s (makeOperation (snapshot_entry e k p d n)) d p (copied n)"
  using assms snapshot_entry_facts(1,2) [of e k p d n]
  by (auto simp: restores_def makeOperation_def entry_path_def)

lemma enum_index: "p \<in> set ps \<Longrightarrow> \<exists>k. (k, p) \<in> set (enumerate 0 ps)"
proof -
  assume "p \<in> set ps"
  then obtain k where "k < length ps" "ps ! k = p" by (auto simp: in_set_conv_nth)
  then show ?thesis by (intro exI [of _ k]) (simp add: in_set_enumerate_eq)
qed

lemma rollback_entries:
  assumes cp: "\<And>k p. (k, p) \<in> set (enumerate 0 ps) \<Longrightarrow>
        fget (copy_path dir k p) t = Some (File (copied (the (fget p s))) default_mode) \<and> no_link t p"
    and "distinct ps" and ap: "\<And>k p. (k, p) \<in> set (enumerate 0 ps) \<Longrightarrow> copy_path dir k p \<notin> set ps"
    and run: "rollback_all e (map makeOperation (expected_entries e dir ps s)) t = (Inr u, t')"
  shows "\<forall>p \<in> set ps. \<exists>m. fget p t' = Some (File (copied (the (fget p s))) m)"
proof -
  let ?pl = "map (\<lambda>(k, p). (makeOperation (snapshot_entry e k p (copy_path dir k p) (the (fget p s))),
                copy_path dir k p, p, copied (the (fget p s)))) (enumerate 0 ps)"
  have fst: "map fst ?pl = map makeOperation (expected_entries e dir ps s)"
    by (simp add: expected_entries_def split_def)
  have tg: "map (\<lambda>(op, src, tgt, c). tgt) ?pl = ps"
    by (simp add: enumerate_eq_zip comp_def split_def)
  have a2: "\<forall>(op, src, tgt, c) \<in> set ?pl. restores t op src tgt c \<and> no_link t tgt"
    using cp restores_entry by (auto simp: split_def) 
  have a3: "distinct (map (\<lambda>(op, src, tgt, c). tgt) ?pl)" unfolding tg by (rule assms(2))
  have mem: "tgt \<in> set ps" if "(op, src, tgt, c) \<in> set ?pl" for op src tgt c
    using that enum_bounds by fastforce
  have a4: "\<forall>(op, src, tgt, c) \<in> set ?pl. \<forall>(op', src', tgt', c') \<in> set ?pl. src \<noteq> tgt'"
    using ap enum_bounds by fastforce
  have "rollback_all e (map fst ?pl) t = (Inr u, t')" unfolding fst by (rule run)
  from rollback_all_ok(1) [OF this a2 a3 a4]
  have "\<forall>(k, p) \<in> set (enumerate 0 ps). \<exists>m. fget p t' = Some (File (copied (the (fget p s))) m)"
    by fastforce
  then show ?thesis using enum_index by fastforce
qed

lemma takeSnapshot_run:
  assumes "length (so_targets opts) \<le> MAX_OPERATION_FILES" "sum_sizes s (so_targets opts) = Inr b"
    and "b \<le> MAX_OPERATION_BYTES" "blocked_targets home (cfg_rules (loadConfig s home None)) (so_targets opts) = []"
  shows "takeSnapshot e i hex home opts s = snapshot_write e i hex home opts s"
  using assms by (simp add: takeSnapshot_def Let_def)

lemma copy_fresh:
  assumes "snapshot_env_ok hex H i (length ps) s" "(k, p) \<in> set (enumerate 0 ps)"
  shows "fget (copy_path (abs_path (snap_dir H i @ [''files''])) k q) s = None"
proof -
  have H: "H \<noteq> []" "\<forall>x \<in> set H. valid_seg x" "valid_seg i" "length ps \<le> 50"
    and fr: "\<And>q. starts_with (abs_path (snap_dir H i)) q \<Longrightarrow> fget q s = None"
    using assms(1) by (auto simp: snapshot_env_ok_def MAX_OPERATION_FILES_def)
  have "clean_home (abs_path (snap_dir H i @ [''files''])) (snap_dir H i @ [''files''])"
    using H by (auto simp: clean_home_def snap_dir_def valid_seg_def sep_def dot_def dotdot_def)
  moreover have "k < 10000" using enum_bounds [OF assms(2)] H(4) by simp
  ultimately have "starts_with (copy_zone (abs_path (snap_dir H i @ [''files''])) k)
      (copy_path (abs_path (snap_dir H i @ [''files''])) k q)" by (rule copy_in_zone(1))
  then have "starts_with (abs_path (snap_dir H i)) (copy_path (abs_path (snap_dir H i @ [''files''])) k q)"
    by (auto simp: copy_zone_def starts_with_iff)
  then show ?thesis by (rule fr)
qed

subsection \<open>Properties\<close>


definition sample_opts :: "string list \<Rightarrow> snap_opts" where
  "sample_opts ts = \<lparr>so_targets = ts, so_command = ''clean'', so_mode = ''confirm'', so_consent = [], so_version = []\<rparr>"


text \<open>C13: A snapshot that is not refused is complete: under an unused operation id it succeeds, the
  manifest on disk is the one returned, in status snapshot_taken and with one entry per target
  carrying the digest of the target's bytes, every copy holds those bytes, and no file that
  existed before has changed.\<close>

theorem snapshot_complete:
  assumes "home = abs_path H" "snapshot_env_ok hex H i (length (so_targets opts)) s"
    and "\<forall>p \<in> set (so_targets opts). is_copyable s p"
    and "sum_sizes s (so_targets opts) = Inr b" "b \<le> MAX_OPERATION_BYTES"
    and "blocked_targets home (cfg_rules (loadConfig s home None)) (so_targets opts) = []"
    and "dir = abs_path (snap_dir H i @ [''files''])"
  shows "\<exists>m s'. takeSnapshot e i hex home opts s = (Inr (i, m), s') \<and> readManifest home i s' = Inr m
     \<and> manifest_status m = Some ''snapshot_taken'' \<and> manifest_files m = expected_entries e dir (so_targets opts) s
     \<and> (\<forall>(k, p) \<in> set (enumerate 0 (so_targets opts)).
          fget (copy_path dir k p) s' = Some (File (copied (the (fget p s))) default_mode))
     \<and> (\<forall>q. fget q s \<noteq> None \<longrightarrow> q \<noteq> manifest_path home i \<longrightarrow> fget q s' = fget q s)"
proof -
  have l: "length (so_targets opts) \<le> MAX_OPERATION_FILES" using assms(2) by (simp add: snapshot_env_ok_def)
  note tf = taken_manifest_facts(1,2) [OF refl, of e i home opts e dir "so_targets opts" s]
  from snapshot_write_ok [OF assms(1-3,7) refl, of e] tf show ?thesis
    unfolding takeSnapshot_run [OF l assms(4-6)] by blast
qed

definition one_file :: fs where
  "one_file = [(''/'', Dir), (''/h'', Dir), (''/h/f'', File ''old'' 420)]"

lemma one_file_get: "fget ''/h/f'' one_file = Some (File ''old'' 420)"
  by (simp add: one_file_def fget_def)

lemma one_file_ok: "snapshot_env_ok (\<lambda>k. ''ab'') [''h''] ''op'' 1 one_file"
proof -
  have "abs_path (snap_dir [''h''] ''op'') = ''/h/.claude/housekeeper/snapshots/op''" by code_simp
  then have "\<forall>q. starts_with (abs_path (snap_dir [''h''] ''op'')) q \<longrightarrow> fget q one_file = None"
    by (auto simp: one_file_def fget_def starts_with_iff)
  moreover have "dir_creatable one_file (abs_path (snap_dir [''h''] ''op'' @ [''files'']))"
    and "dir_creatable one_file (abs_path (op_dir [''h'']))"
    and "fget (abs_path (op_dir [''h''] @ [''op'' @ ''.json''])) one_file = None"
    and "fget (tmp_path ''ab'' (abs_path (op_dir [''h''] @ [''op'' @ ''.json'']))) one_file = None"
    by code_simp+
  ultimately show ?thesis
    by (simp add: snapshot_env_ok_def valid_seg_def sep_def dot_def dotdot_def MAX_OPERATION_FILES_def)
qed

lemma one_file_side:
  "''/h'' = abs_path [''h'']" "sum_sizes one_file (so_targets (sample_opts [''/h/f''])) = Inr 3"
  "blocked_targets ''/h'' (cfg_rules (loadConfig one_file ''/h'' None)) (so_targets (sample_opts [''/h/f''])) = []"
  "\<forall>p \<in> set (so_targets (sample_opts [''/h/f''])). is_copyable one_file p"
proof -
  show "''/h'' = abs_path [''h'']" by (simp add: sep_def)
  show "sum_sizes one_file (so_targets (sample_opts [''/h/f''])) = Inr 3" by code_simp
  show "blocked_targets ''/h'' (cfg_rules (loadConfig one_file ''/h'' None)) (so_targets (sample_opts [''/h/f''])) = []"
    by code_simp
  show "\<forall>p \<in> set (so_targets (sample_opts [''/h/f''])). is_copyable one_file p"
    by (simp add: sample_opts_def is_copyable_def one_file_get)
qed

lemma snapshot_complete_witness:
  "\<exists>m s'. takeSnapshot (sample_env 0) ''op'' (\<lambda>k. ''ab'') ''/h'' (sample_opts [''/h/f'']) one_file = (Inr (''op'', m), s')
     \<and> manifest_status m = Some ''snapshot_taken''"
proof -
  have ok: "snapshot_env_ok (\<lambda>k. ''ab'') [''h''] ''op'' (length (so_targets (sample_opts [''/h/f'']))) one_file"
    using one_file_ok by (simp add: sample_opts_def)
  have b: "3 \<le> MAX_OPERATION_BYTES" by (simp add: MAX_OPERATION_BYTES_def)
  from snapshot_complete [OF one_file_side(1) ok one_file_side(4,2) b one_file_side(3) refl] show ?thesis by blast
qed

text \<open>C3: Snapshot and rollback are a round trip. Take a snapshot, let anything happen that leaves the
  copies alone and puts no symbolic link at a target: if restoring the entries of the manifest
  then succeeds, every target is a regular file holding exactly the bytes it held when the
  snapshot was taken (for a target that was a symbolic link, its link text).\<close>

theorem snapshot_rollback_roundtrip:
  assumes "home = abs_path H" "snapshot_env_ok hex H i (length (so_targets opts)) s"
    and "\<forall>p \<in> set (so_targets opts). is_copyable s p" "distinct (so_targets opts)"
    and "takeSnapshot e i hex home opts s = (Inr (j, m), s1)"
    and "dir = abs_path (snap_dir H i @ [''files''])"
    and "\<And>k p. (k, p) \<in> set (enumerate 0 (so_targets opts)) \<Longrightarrow>
            fget (copy_path dir k p) s2 = fget (copy_path dir k p) s1 \<and> no_link s2 p"
    and "rollback_all e (map makeOperation (manifest_files m)) s2 = (Inr u, s3)"
  shows "\<forall>p \<in> set (so_targets opts). \<exists>mode. fget p s3 = Some (File (copied (the (fget p s))) mode)"
proof -
  obtain b where "sum_sizes s (so_targets opts) = Inr b" "b \<le> MAX_OPERATION_BYTES"
    "blocked_targets home (cfg_rules (loadConfig s home None)) (so_targets opts) = []"
    using assms(5) by (auto simp: takeSnapshot_def Let_def split: sum.splits if_splits)
  moreover have "length (so_targets opts) \<le> MAX_OPERATION_FILES" using assms(2) by (simp add: snapshot_env_ok_def)
  ultimately have run: "takeSnapshot e i hex home opts s = snapshot_write e i hex home opts s"
    by (intro takeSnapshot_run)
  obtain s1' where w: "snapshot_write e i hex home opts s
        = (Inr (i, taken_manifest e i home opts (expected_entries e dir (so_targets opts) s)), s1')"
    and c: "\<forall>(k, p) \<in> set (enumerate 0 (so_targets opts)).
        fget (copy_path dir k p) s1' = Some (File (copied (the (fget p s))) default_mode)"
    using snapshot_write_ok [OF assms(1-3,6) refl, of e] by blast
  have eq: "s1' = s1" "m = taken_manifest e i home opts (expected_entries e dir (so_targets opts) s)"
    using assms(5) run w by auto
  have mf: "manifest_files m = expected_entries e dir (so_targets opts) s"
    unfolding eq(2) by (rule taken_manifest_facts(2) [OF refl])
  have ap: "copy_path dir k p \<notin> set (so_targets opts)" if "(k, p) \<in> set (enumerate 0 (so_targets opts))" for k p
    using copy_fresh [OF assms(2) that, of p] assms(3) unfolding assms(6) by (auto simp: is_copyable_def)
  show ?thesis
    by (rule rollback_entries [OF _ assms(4) ap assms(8) [unfolded mf]]) (use assms(7) c eq(1) in auto)
qed

lemma rollback_one_runs:
  assumes "fget src s = Some (File c m)" "fget ''/h/f'' s = Some (File c' m')"
    and "fget ''/h'' s = Some Dir" "fget ''/'' s = Some Dir"
    and "ro_kind op = ''file-restore-from-snapshot''" "ro_source op = Some src" "ro_target op = Some ''/h/f''"
    and "ro_path op = Some ''/h/f''" "ro_before op = Some (JStr (e_sha e c))"
  shows "\<exists>s'. rollback_one e op s = (Inr (), s')"
proof -
  have "mkdirs_up (length ''/h'') ''/h'' = [''/'', ''/h'']" "dirname ''/h/f'' = ''/h''" by code_simp+
  then have mk: "mkdir_recursive (dirname ''/h/f'') s = (Inr (), s)"
    using assms(3,4) by (simp add: mkdir_recursive_def is_directory_def stat_node_direct mkdir_one_def)
  have "\<exists>m2. copy_file src ''/h/f'' s = (Inr (), fput ''/h/f'' (File c m2) s)"
    using assms(1,2) real_path_direct [of "''/h/f''" s] by (simp add: copy_file_def stat_node_direct) blast
  then show ?thesis
    using assms(5-9) mk by (auto simp: rollback_one_def restore_file_def bindI_def liftI_def returnI_def hashFile_def)
qed

lemma snapshot_rollback_roundtrip_witness:
  "\<exists>m s1 s3 mode. takeSnapshot (sample_env 0) ''op'' (\<lambda>k. ''ab'') ''/h'' (sample_opts [''/h/f'']) one_file
       = (Inr (''op'', m), s1)
     \<and> rollback_all (sample_env 0) (map makeOperation (manifest_files m)) (fput ''/h/f'' (File ''gone bad'' 420) s1)
       = (Inr (), s3)
     \<and> fget ''/h/f'' s3 = Some (File ''old'' mode)"
proof -
  let ?o = "sample_opts [''/h/f'']" and ?e = "sample_env 0"
  obtain d where d: "d = abs_path (snap_dir [''h''] ''op'' @ [''files''])" by blast
  let ?c = "copy_path d 0 ''/h/f''" and ?en = "snapshot_entry ?e 0 ''/h/f'' (copy_path d 0 ''/h/f'') (File ''old'' 420)"
  have t: "so_targets ?o = [''/h/f'']" by (simp add: sample_opts_def)
  have ok: "snapshot_env_ok (\<lambda>k. ''ab'') [''h''] ''op'' (length (so_targets ?o)) one_file"
    using one_file_ok by (simp add: t)
  have r: "takeSnapshot ?e ''op'' (\<lambda>k. ''ab'') ''/h'' ?o one_file = snapshot_write ?e ''op'' (\<lambda>k. ''ab'') ''/h'' ?o one_file"
    by (rule takeSnapshot_run [OF _ one_file_side(2) _ one_file_side(3)])
      (simp_all add: t MAX_OPERATION_FILES_def MAX_OPERATION_BYTES_def)
  let ?m = "taken_manifest ?e ''op'' ''/h'' ?o (expected_entries ?e d (so_targets ?o) one_file)"
  obtain s1 where s1: "takeSnapshot ?e ''op'' (\<lambda>k. ''ab'') ''/h'' ?o one_file = (Inr (''op'', ?m), s1)"
    and c1: "fget ?c s1 = Some (File ''old'' default_mode)"
    and k1: "\<forall>q. fget q one_file \<noteq> None \<longrightarrow> q \<noteq> manifest_path ''/h'' ''op'' \<longrightarrow> fget q s1 = fget q one_file"
    using snapshot_write_ok [OF one_file_side(1) ok one_file_side(4) d refl, of ?e] unfolding r
    by (auto simp: t one_file_get copied_def)
  have mf: "manifest_files ?m = [?en]"
    using taken_manifest_facts(2) [OF refl, of ?e "''op''" "''/h''" ?o ?e d "so_targets ?o" one_file]
    by (simp add: expected_entries_def t one_file_get)
  let ?s2 = "fput ''/h/f'' (File ''gone bad'' 420) s1"
  have mp: "manifest_path ''/h'' ''op'' = ''/h/.claude/housekeeper/operations/op.json''" by code_simp
  have ne: "?c \<noteq> ''/h/f''"
    using copy_fresh [of "\<lambda>k. ''ab''" "[''h'']" "''op''" "[''/h/f'']" one_file 0 "''/h/f''" "''/h/f''"] one_file_ok
    by (auto simp: one_file_get d)
  have g: "fget ''/h'' ?s2 = Some Dir" "fget ''/'' ?s2 = Some Dir"
    using k1 by (simp_all add: one_file_def fget_def [of _ "_ # _"] mp)
  have f: "ro_before (makeOperation ?en) = Some (JStr (e_sha ?e ''old''))"
    using snapshot_entry_facts(3) [of ?e 0 "''/h/f''" ?c "File ''old'' 420"] by (simp add: makeOperation_def copied_def)
  have rs: "restores ?s2 (makeOperation ?en) ?c ''/h/f'' ''old''"
    using restores_entry [of ?c ?s2 "File ''old'' 420" default_mode ?e 0 "''/h/f''"] c1 ne by (simp add: copied_def)
  then obtain s3 where s3: "rollback_one ?e (makeOperation ?en) ?s2 = (Inr (), s3)"
    using rollback_one_runs [of ?c ?s2 "''old''" default_mode "''gone bad''" 420 "makeOperation ?en" ?e] c1 ne g f
    by (auto simp: restores_def)
  then have run: "rollback_all ?e (map makeOperation (manifest_files ?m)) ?s2 = (Inr (), s3)"
    unfolding mf by (simp add: bindI_def returnI_def)
  have "\<forall>p \<in> set (so_targets ?o). \<exists>mode. fget p s3 = Some (File (copied (the (fget p one_file))) mode)"
    by (rule snapshot_rollback_roundtrip [OF one_file_side(1) ok one_file_side(4) _ s1 d _ run])
      (use c1 ne in \<open>auto simp: t no_link_def\<close>)
  then obtain mode where "fget ''/h/f'' s3 = Some (File ''old'' mode)" by (auto simp: t one_file_get copied_def)
  with s1 run show ?thesis by blast
qed

end
