(* ===== verification/Rollback_Facts.thy ===== *)
theory Rollback_Facts
  imports Snapshot_Total "HOL-Library.Multiset"
begin

text \<open>
  What a rollback plan promises before it is executed, the order in which the chunks of a stream
  are rolled back, and that an abort is confined to operations that have not been applied.
\<close>

lemma first_drift_None: "first_drift e s st ens = Inr None \<longleftrightarrow> (\<forall>en \<in> set ens. detectDrift e s en st = Inr None)"
  by (induction ens) (auto split: sum.splits option.splits)

lemma emptyPlan_simps [simp]:
  "rp_operations (emptyPlan e h i mp r) = []" "rp_refused (emptyPlan e h i mp r) = r"
  by (simp_all add: emptyPlan_def)

lemma find_none_all: "find P xs = None \<longleftrightarrow> (\<forall>x \<in> set xs. \<not> P x)"
  by (auto simp: find_None_iff)

lemma sorted_two_keys:
  fixes f :: "'a \<Rightarrow> 'b::linorder" and g :: "'a \<Rightarrow> 'c::linorder"
  assumes "sorted (map g ys)" and "\<And>k. sorted (map f (filter (\<lambda>c. g c = k) ys))"
  shows "sorted_wrt (\<lambda>a b. g a \<le> g b \<and> (g a = g b \<longrightarrow> f a \<le> f b)) ys"
  using assms
proof (induction ys)
  case (Cons y ys)
  have "sorted (map f (filter (\<lambda>c. g c = k) ys))" for k
    using Cons.prems(2) [of k] by (auto split: if_splits)
  moreover have "f y \<le> f z" if "z \<in> set ys" "g y = g z" for z
    using Cons.prems(2) [of "g y"] that by auto
  ultimately show ?case using Cons by auto
qed simp

subsection \<open>Abort\<close>

lemma abort_refused:
  assumes "read_json s (rb_manifest_path home i) = Inr m" "m \<noteq> JNull"
    and "manifest_status m \<noteq> Some ''snapshot_taken''" "manifest_status m \<noteq> Some ''planned''"
  shows "abort_body e hex i home s = (Inl (AbortNotAllowedError i (manifest_status m)), s)"
  using assms by (simp add: abort_body_def Let_def bindI_def liftI_def failI_def)

lemma fget_rm_tree_force: "fget p (rm_tree_force d s) = (if subtree_of d p then None else fget p s)"
  by (simp add: rm_tree_force_def)

lemma write_json_back:
  assumes "slot_ready hex p s" "json_plain m"
  shows "\<exists>s'. atomicWrite hex p (json_pretty m @ [nl]) s = (Inr (), s') \<and> read_json s' p = Inr m
           \<and> (\<forall>q. q \<noteq> p \<longrightarrow> fget q s' = fget q s)"
proof -
  obtain t where t: "atomicWrite hex p (json_pretty m @ [nl]) s = (Inr (), t)"
    "\<forall>q. fget q t = (if q = p then Some (File (json_pretty m @ [nl]) default_mode) else fget q s)"
    using atomicWrite_ok [of hex p s "json_pretty m @ [nl]"] assms(1) unfolding slot_ready_def by blast
  have "read_file t p = Inr (json_pretty m @ [nl])" by (rule read_file_direct) (use t(2) in simp)
  then have "read_json t p = Inr m" using json_parse_pretty_nl [OF assms(2)] by (simp add: read_json_def)
  with t show ?thesis by auto
qed

subsection \<open>Properties\<close>



text \<open>The chunks of a stream are rolled back in reverse: the plan is a reordering of the rollbackable
  chunks in which a half-applied chunk comes before every complete one, and within each kind the
  chunk index never increases.\<close>

lemma stream_reverse_order:
  "mset (sort_chunks cs) = mset cs
   \<and> sorted_wrt (\<lambda>a b. if cr_partial a = cr_partial b then cr_index b \<le> cr_index a else cr_partial a)
       (sort_chunks cs)"
proof -
  let ?g = "\<lambda>c. if cr_partial c then 0 else 1 :: nat" and ?f = "\<lambda>c. - cr_index c"
  let ?xs = "sort_key ?f cs"
  have s1: "sorted (map ?g (sort_key ?g ?xs))" by simp
  have s2: "sorted (map ?f (filter (\<lambda>c. ?g c = k) (sort_key ?g ?xs)))" for k
    unfolding sort_key_stable by (rule sorted_filter) simp
  from sorted_two_keys [OF s1 s2] have "sorted_wrt (\<lambda>a b. ?g a \<le> ?g b \<and> (?g a = ?g b \<longrightarrow> ?f a \<le> ?f b)) (sort_chunks cs)"
    by (simp add: sort_chunks_def)
  then have "sorted_wrt (\<lambda>a b. if cr_partial a = cr_partial b then cr_index b \<le> cr_index a else cr_partial a)
       (sort_chunks cs)"
    by (rule sorted_wrt_mono_rel [rotated]) (auto split: if_splits)
  then show ?thesis by (simp add: sort_chunks_def)
qed

text \<open>C33: Aborting is confined to operations that have not touched a user file: for a manifest in any
  status but planned or snapshot_taken it fails and changes nothing; otherwise it removes the
  snapshot tree, leaves the manifest on disk in status aborted, and changes no other file.\<close>

theorem abort_only_before_apply:
  assumes "read_json s (rb_manifest_path home i) = Inr m" "json_plain m" "is_obj m"
    and "slot_ready hex (rb_manifest_path home i)
           (rm_tree_force (path_join [home, ''housekeeper'', ''snapshots'', i]) s)"
  shows "if manifest_status m \<in> {Some ''snapshot_taken'', Some ''planned''}
    then (\<exists>m' s'. abort_body e hex i home s = (Inr m', s') \<and> read_json s' (rb_manifest_path home i) = Inr m'
       \<and> manifest_status m' = Some ''aborted''
       \<and> (\<forall>q. q \<noteq> rb_manifest_path home i \<longrightarrow> fget q s' =
              (if subtree_of (path_join [home, ''housekeeper'', ''snapshots'', i]) q then None else fget q s)))
    else abort_body e hex i home s = (Inl (AbortNotAllowedError i (manifest_status m)), s)"
proof (cases "manifest_status m \<in> {Some ''snapshot_taken'', Some ''planned''}")
  case False
  have "m \<noteq> JNull" using assms(3) by (cases m) auto
  with False abort_refused [OF assms(1)] show ?thesis by simp
next
  case True
  let ?m = "jset ''abortedAt'' (JStr (e_iso e (e_now e))) (jset ''status'' (JStr ''aborted'') m)"
  have pl: "json_plain ?m" using assms(2) by simp
  have st: "manifest_status ?m = Some ''aborted''" using assms(3) by simp
  have nn: "m \<noteq> JNull" using assms(3) by (cases m) auto
  obtain s' where s': "atomicWrite hex (rb_manifest_path home i) (json_pretty ?m @ [nl])
        (rm_tree_force (path_join [home, ''housekeeper'', ''snapshots'', i]) s) = (Inr (), s')"
    "read_json s' (rb_manifest_path home i) = Inr ?m"
    "\<forall>q. q \<noteq> rb_manifest_path home i \<longrightarrow> fget q s'
        = fget q (rm_tree_force (path_join [home, ''housekeeper'', ''snapshots'', i]) s)"
    using write_json_back [OF assms(4) pl] by blast
  have "abort_body e hex i home s = (Inr ?m, s')"
    using True nn assms(1) s'(1) by (auto simp: abort_body_def Let_def bindI_def liftI_def returnI_def)
  then show ?thesis using True s'(2,3) st by (auto simp: fget_rm_tree_force)
qed

lemma abort_only_before_apply_witness:
  "abort_body (sample_env 0) ''ab'' ''op'' ''/h''
     [(''/h/housekeeper/operations/op.json'', File (json_pretty (JObj [(''status'', JStr ''verified'')]) @ [nl]) 420),
      (''/h/housekeeper/operations'', Dir)]
   = (Inl (AbortNotAllowedError ''op'' (Some ''verified'')),
      [(''/h/housekeeper/operations/op.json'', File (json_pretty (JObj [(''status'', JStr ''verified'')]) @ [nl]) 420),
       (''/h/housekeeper/operations'', Dir)])"
proof -
  let ?m = "JObj [(''status'', JStr ''verified'')]"
  let ?s = "[(''/h/housekeeper/operations/op.json'', File (json_pretty ?m @ [nl]) 420), (''/h/housekeeper/operations'', Dir)]"
  have mp: "rb_manifest_path ''/h'' ''op'' = ''/h/housekeeper/operations/op.json''"
    "path_join [''/h'', ''housekeeper'', ''snapshots'', ''op''] = ''/h/housekeeper/snapshots/op''"
    "dirname (tmp_path ''ab'' ''/h/housekeeper/operations/op.json'') = ''/h/housekeeper/operations''"
    "dirname ''/h/housekeeper/operations/op.json.tmp.ab'' = ''/h/housekeeper/operations''" by code_simp+
  have g: "fget ''/h/housekeeper/operations/op.json'' ?s = Some (File (json_pretty ?m @ [nl]) 420)"
    "fget ''/h/housekeeper/operations'' ?s = Some Dir" "fget ''/h/housekeeper/operations/op.json.tmp.ab'' ?s = None"
    by (simp_all add: fget_def)
  have r: "read_json ?s (rb_manifest_path ''/h'' ''op'') = Inr ?m"
    using read_file_direct [OF g(1)] json_parse_pretty_nl [of ?m] by (simp add: read_json_def mp)
  have "slot_ready ''ab'' (rb_manifest_path ''/h'' ''op'') (rm_tree_force ''/h/housekeeper/snapshots/op'' ?s)"
  proof -
    have "\<not> subtree_of ''/h/housekeeper/snapshots/op'' ''/h/housekeeper/operations/op.json''"
      "\<not> subtree_of ''/h/housekeeper/snapshots/op'' ''/h/housekeeper/operations''" by code_simp+
    then show ?thesis
      by (simp add: slot_ready_def tmp_ready_def mp parent_is_dir_def is_directory_def stat_node_direct
          tmp_path_def fget_rm_tree_force g)
  qed
  from abort_only_before_apply [OF r _ _ this [folded mp(2)], of "sample_env 0"] show ?thesis
    by (simp add: manifest_status_def)
qed

end
