(* ===== verification/Patch.thy ===== *)
theory Patch
  imports Snapshot_Facts
begin

text \<open>
  The json-rewrite mutation (applyPatch and _jsonRewriteHandler of scripts/lib/snapshot.mjs,
  hasJsonComments of scripts/lib/audit.mjs): the remove, set and append patches on a JSON value,
  the three hooks preApply, apply and rollback. Edits of text with comments are made by the
  package jsonc-parser, which is not part of the program: a parameter jsonc of the hooks, giving
  the edited text, or None when it throws.
\<close>

subsection \<open>Comments\<close>

fun scan_comments :: "bool \<Rightarrow> bool \<Rightarrow> string \<Rightarrow> bool" where
  "scan_comments inString esc [] = False"
| "scan_comments inString esc (c # cs) =
     (if esc then scan_comments inString False cs
      else if inString then
        (if c = bslash then scan_comments True True cs
         else if c = quote then scan_comments False False cs
         else scan_comments True False cs)
      else if c = quote then scan_comments True False cs
      else if c = CHR ''/'' \<and> (take 1 cs = ''/'' \<or> take 1 cs = ''*'') then True
      else scan_comments False False cs)"

definition hasJsonComments :: "string \<Rightarrow> bool" where
  "hasJsonComments text = (if length text < 2 then False else scan_comments False False text)"

subsection \<open>applyPatch\<close>

datatype key = KStr string | KNum int

record patch =
  pt_op :: string
  pt_path :: "key list"
  pt_value :: json

fun key_text :: "key \<Rightarrow> string" where
  "key_text (KStr s) = s"
| "key_text (KNum i) = show_int i"

definition array_index :: "key \<Rightarrow> int option" where
  \<comment> \<open>the element a property key of an array names, if it is an index\<close>
  "array_index k =
     (case k of
        KNum i \<Rightarrow> if 0 \<le> i then Some i else None
      | KStr s \<Rightarrow> if s \<noteq> [] \<and> list_all is_digit s \<and> show_nat (read_nat s) = s
                  then Some (int (read_nat s)) else None)"

fun container :: "json \<Rightarrow> bool" where
  \<comment> \<open>cursor != null && typeof cursor === "object"\<close>
  "container (JObj kvs) = True"
| "container (JArr xs) = True"
| "container _ = False"

fun get_child :: "json \<Rightarrow> key \<Rightarrow> json option" where
  "get_child (JObj kvs) k = map_of kvs (key_text k)"
| "get_child (JArr xs) k =
     (case array_index k of
        Some i \<Rightarrow> if nat i < length xs then Some (xs ! nat i) else None
      | None \<Rightarrow> None)"
| "get_child _ k = None"

definition pad_to :: "nat \<Rightarrow> json list \<Rightarrow> json list" where
  \<comment> \<open>growing an array leaves holes, shown as null\<close>
  "pad_to n xs = xs @ replicate (n - length xs) JNull"

fun put_child :: "json \<Rightarrow> key \<Rightarrow> json \<Rightarrow> err + json" where
  \<comment> \<open>cursor[k] = v; a non-index property of an array is not part of its JSON\<close>
  "put_child (JObj kvs) k v = Inr (JObj (AList.update (key_text k) v kvs))"
| "put_child (JArr xs) k v =
     (case array_index k of
        Some i \<Rightarrow> Inr (JArr ((pad_to (Suc (nat i)) xs)[nat i := v]))
      | None \<Rightarrow>
          if key_text k = ''length''
          then (case v of JNum n \<Rightarrow> if 0 \<le> n then Inr (JArr (take (nat n) (pad_to (nat n) xs)))
                                   else Inl (TypeError ''length'')
                | _ \<Rightarrow> Inl (TypeError ''length''))
          else Inr (JArr xs))"
| "put_child _ k v = Inl (TypeError ''property of a primitive'')"

fun delete_child :: "json \<Rightarrow> key \<Rightarrow> err + json" where
  "delete_child (JArr xs) (KNum i) =
     Inr (JArr (if 0 \<le> i \<and> nat i < length xs then take (nat i) xs @ drop (Suc (nat i)) xs else xs))"
| "delete_child (JArr xs) (KStr s) =
     (case array_index (KStr s) of
        Some i \<Rightarrow> Inr (JArr (if nat i < length xs then xs[nat i := JNull] else xs))
      | None \<Rightarrow> if s = ''length'' then Inl (TypeError ''length'') else Inr (JArr xs))"
| "delete_child (JObj kvs) k = Inr (JObj (AList.delete (key_text k) kvs))"
| "delete_child j k = Inr j"

definition bindE :: "'e + 'a \<Rightarrow> ('a \<Rightarrow> 'e + 'b) \<Rightarrow> 'e + 'b" where
  "bindE x f = (case x of Inl e \<Rightarrow> Inl e | Inr v \<Rightarrow> f v)"

lemma bindE_simps [simp]: "bindE (Inl e) f = Inl e" "bindE (Inr v) f = f v"
  by (simp_all add: bindE_def)

lemma bindE_eq_Inr: "bindE x f = Inr y \<longleftrightarrow> (\<exists>v. x = Inr v \<and> f v = Inr y)"
  by (cases x) auto

fun remove_path :: "json \<Rightarrow> key list \<Rightarrow> err + json" where
  "remove_path j [] = Inr j"
| "remove_path j [k] = delete_child j k"
| "remove_path j (k # k' # ks) =
     (case get_child j k of
        None \<Rightarrow> Inr j
      | Some c \<Rightarrow> bindE (remove_path c (k' # ks)) (put_child j k))"

fun set_path :: "json \<Rightarrow> key list \<Rightarrow> json \<Rightarrow> err + json" where
  "set_path j [] v = Inr v"
| "set_path j [k] v = put_child j k v"
| "set_path j (k # k' # ks) v =
     (let c = (case get_child j k of Some x \<Rightarrow> if container x then x else JObj [] | None \<Rightarrow> JObj [])
      in bindE (set_path c (k' # ks) v) (put_child j k))"

fun append_path :: "json \<Rightarrow> key list \<Rightarrow> json \<Rightarrow> err + json" where
  "append_path (JArr xs) [] v = Inr (JArr (xs @ [v]))"
| "append_path j [] v = Inl (TypeError ''applyPatch append: target is not an array'')"
| "append_path j (k # ks) v =
     (case get_child j k of
        None \<Rightarrow> Inl (TypeError ''applyPatch append: path not navigable'')
      | Some c \<Rightarrow> bindE (append_path c ks v) (put_child j k))"

definition applyPatch :: "json \<Rightarrow> patch option \<Rightarrow> err + json" where
  "applyPatch obj p =
     (case p of
        None \<Rightarrow> Inl (TypeError ''applyPatch: patch must be an object'')
      | Some pt \<Rightarrow>
          if pt_op pt = ''remove'' then remove_path obj (pt_path pt)
          else if pt_op pt = ''set'' then set_path obj (pt_path pt) (pt_value pt)
          else if pt_op pt = ''append'' then append_path obj (pt_path pt) (pt_value pt)
          else Inl (TypeError (''applyPatch: unknown op '' @ pt_op pt)))"

subsection \<open>Text with comments\<close>

type_synonym jsonc_edit = "string \<Rightarrow> key list \<Rightarrow> json option \<Rightarrow> string option"

definition jsoncPatchPath :: "patch option \<Rightarrow> (key list \<times> json option) option" where
  "jsoncPatchPath p =
     (case p of
        None \<Rightarrow> None
      | Some pt \<Rightarrow>
          if pt_op pt = ''remove'' then Some (pt_path pt, None)
          else if pt_op pt = ''set'' then Some (pt_path pt, Some (pt_value pt))
          else None)"

definition applyJsoncPatch :: "jsonc_edit \<Rightarrow> string \<Rightarrow> patch option \<Rightarrow> err + string" where
  "applyJsoncPatch jsonc source p =
     (case jsoncPatchPath p of
        None \<Rightarrow> Inl (TypeError ''applyJsoncPatch: op is not supported for JSONC files'')
      | Some (path, v) \<Rightarrow> (case jsonc source path v of
                            None \<Rightarrow> Inl (TypeError ''jsonc-parser'') | Some t \<Rightarrow> Inr t))"

subsection \<open>The hooks of json-rewrite\<close>

datatype pre_result = Planned nat | Refusal string \<comment> \<open>plannedBytes, or the reason\<close>

record rewrite_op =
  rw_target :: string
  rw_patch :: "patch option"

definition probe_patch :: patch where
  "probe_patch = \<lparr>pt_op = ''remove'', pt_path = [KStr ''__jsonc_probe__''], pt_value = JNull\<rparr>"

definition preApply_jsonc :: "jsonc_edit \<Rightarrow> string \<Rightarrow> patch option \<Rightarrow> pre_result" where
  "preApply_jsonc jsonc source p =
     (if \<not> hasJsonComments source then Refusal ''settings-shape-unknown''
      else (case applyJsoncPatch jsonc source (Some probe_patch) of
          Inl x \<Rightarrow> Refusal ''settings-jsonc-rewrite-failed''
        | Inr probeOut \<Rightarrow>
          if probeOut \<noteq> source then Refusal ''settings-jsonc-rewrite-failed''
          else (case applyJsoncPatch jsonc source p of
              Inl x \<Rightarrow> Refusal ''patch-produces-invalid-json''
            | Inr once \<Rightarrow>
              (case applyJsoncPatch jsonc once p of
                 Inl x \<Rightarrow> Refusal ''patch-not-idempotent''
               | Inr twice \<Rightarrow>
                 if once \<noteq> twice then Refusal ''patch-not-idempotent''
                 else Planned (length once)))))"

definition preApply_json :: "json \<Rightarrow> patch option \<Rightarrow> pre_result" where
  "preApply_json parsed p =
     (case applyPatch parsed p of
        Inl x \<Rightarrow> Refusal ''patch-produces-invalid-json''
      | Inr first \<Rightarrow>
        (if json_parse (json_pretty first) = None then Refusal ''patch-produces-invalid-json''
         else (case applyPatch first p of
            Inl x \<Rightarrow> Refusal ''patch-not-idempotent''
          | Inr second \<Rightarrow>
            if json_stringify first \<noteq> json_stringify second then Refusal ''patch-not-idempotent''
            else Planned (length (json_pretty first)))))"

definition preApply :: "jsonc_edit \<Rightarrow> rewrite_op \<Rightarrow> fs \<Rightarrow> err + pre_result" where
  "preApply jsonc op s =
     (case read_file s (rw_target op) of
        Inl x \<Rightarrow> Inl x
      | Inr source \<Rightarrow>
          (case json_parse source of
             None \<Rightarrow> Inr (preApply_jsonc jsonc source (rw_patch op))
           | Some parsed \<Rightarrow> Inr (preApply_json parsed (rw_patch op))))"

definition rewrite_output :: "jsonc_edit \<Rightarrow> rewrite_op \<Rightarrow> string \<Rightarrow> err + string" where
  "rewrite_output jsonc op source =
     (case json_parse source of
        None \<Rightarrow>
          if hasJsonComments source then applyJsoncPatch jsonc source (rw_patch op)
          else Inl (SyntaxError (rw_target op))
      | Some parsed \<Rightarrow>
          bindE (applyPatch parsed (rw_patch op)) (\<lambda>r. Inr (json_pretty r @ [nl])))"

definition rewrite_apply :: "jsonc_edit \<Rightarrow> string \<Rightarrow> rewrite_op \<Rightarrow> string io" where
  "rewrite_apply jsonc hex op s =
     (case read_file s (rw_target op) of
        Inl x \<Rightarrow> (Inl x, s)
      | Inr source \<Rightarrow>
          (case rewrite_output jsonc op source of
             Inl x \<Rightarrow> (Inl x, s)
           | Inr out \<Rightarrow> bindI (atomicWrite hex (rw_target op) out) (\<lambda>_. returnI out) s))"

definition rewrite_rollback :: "rewrite_op \<Rightarrow> string \<Rightarrow> unit io" where
  "rewrite_rollback op snapshotPath =
     bindI (mkdir_recursive (dirname (rw_target op))) (\<lambda>_. copy_file snapshotPath (rw_target op))"

subsection \<open>Patches that can be applied twice\<close>

lemma update_again: "AList.update k v (AList.update k w al) = AList.update k v al"
  by (induction al) auto

lemma update_same: "map_of al k = Some v \<Longrightarrow> AList.update k v al = al"
  by (induction al) auto

lemma delete_again: "AList.delete k (AList.delete k al) = AList.delete k al"
  by (simp add: AList.delete_eq)

lemma pad_to_idem: "n \<le> length xs \<Longrightarrow> pad_to n xs = xs"
  by (simp add: pad_to_def)

lemma length_pad_to [simp]: "length (pad_to n xs) = max n (length xs)"
  by (simp add: pad_to_def)

lemma put_child_twice: "put_child j k v = Inr j' \<Longrightarrow> put_child j' k v = Inr j'"
proof (induction j k v rule: put_child.induct)
  case (2 xs k v)
  show ?case
  proof (cases "array_index k")
    case (Some i)
    with 2 have "j' = JArr ((pad_to (Suc (nat i)) xs)[nat i := v])" by simp
    with Some show ?thesis by (simp add: pad_to_idem)
  next
    case None
    with 2 show ?thesis
      by (auto split: json.splits if_splits simp: pad_to_idem min_def)
  qed
qed (auto simp: update_again)

lemma put_get:
  assumes "put_child j k c = Inr j'" and "container c"
  shows "get_child j' k = Some c \<or> j' = j \<and> get_child j k = None"
  using assms
proof (induction j k c rule: put_child.induct)
  case (2 xs k v)
  then show ?case
    by (cases "array_index k") (auto split: json.splits if_splits simp: nth_list_update)
qed (auto simp: update_conv')

lemma put_child_container: "put_child j k v = Inr j' \<Longrightarrow> container j'"
  by (induction j k v rule: put_child.induct) (auto split: option.splits if_splits json.splits)

lemma set_path_container: "set_path j (k # ks) v = Inr j' \<Longrightarrow> container j'"
  by (cases ks) (auto simp: Let_def bindE_eq_Inr dest: put_child_container)

lemma set_path_idem: "set_path j ks v = Inr j' \<Longrightarrow> set_path j' ks v = Inr j'"
proof (induction j ks v arbitrary: j' rule: set_path.induct)
  case (2 j k v)
  then show ?case using put_child_twice by simp
next
  case (3 j k k' ks v)
  define c where "c = (case get_child j k of Some x \<Rightarrow> if container x then x else JObj [] | None \<Rightarrow> JObj [])"
  from 3(2) obtain c2 where c2: "set_path c (k' # ks) v = Inr c2" "put_child j k c2 = Inr j'"
    by (auto simp: c_def Let_def bindE_eq_Inr)
  have cc: "container c2" using set_path_container [OF c2(1)] .
  have ih: "set_path c2 (k' # ks) v = Inr c2"
    using 3(1) [OF c_def] c2(1) by simp
  from put_get [OF c2(2) cc] show ?case
  proof
    assume "get_child j' k = Some c2"
    with cc ih put_child_twice [OF c2(2)] show ?case by (simp add: Let_def)
  next
    assume "j' = j \<and> get_child j k = None"
    with 3(2) show ?case by simp
  qed
qed auto

lemma put_get_same:
  "get_child j k = Some c \<Longrightarrow> put_child j k d = Inr j' \<Longrightarrow> get_child j' k = Some d"
proof (induction j k d rule: put_child.induct)
  case (2 xs k v)
  then show ?case by (cases "array_index k") (auto split: if_splits)
qed (auto simp: update_conv')

lemma put_child_self: "get_child j k = Some c \<Longrightarrow> put_child j k c = Inr j"
proof (induction j k c rule: put_child.induct)
  case (2 xs k v)
  then show ?case by (cases "array_index k") (auto split: if_splits simp: pad_to_idem)
qed (auto simp: update_same)

definition names_member :: "key list \<Rightarrow> bool" where
  \<comment> \<open>the path ends in a string key: what it removes is a member, or leaves a hole\<close>
  "names_member ks = (ks = [] \<or> (\<exists>s. last ks = KStr s))"

lemma delete_child_twice: "delete_child j (KStr s) = Inr j' \<Longrightarrow> delete_child j' (KStr s) = Inr j'"
  by (cases j) (auto simp: delete_again split: option.splits if_splits)

lemma remove_path_idem: "remove_path j ks = Inr j' \<Longrightarrow> names_member ks \<Longrightarrow> remove_path j' ks = Inr j'"
proof (induction j ks arbitrary: j' rule: remove_path.induct)
  case (2 j k)
  then show ?case using delete_child_twice by (auto simp: names_member_def)
next
  case (3 j k k' ks)
  show ?case
  proof (cases "get_child j k")
    case None
    with 3 show ?thesis by simp
  next
    case (Some c)
    with 3(2) obtain c2 where c2: "remove_path c (k' # ks) = Inr c2" "put_child j k c2 = Inr j'"
      by (auto simp: bindE_eq_Inr)
    have "remove_path c2 (k' # ks) = Inr c2"
      using 3(1) [OF Some c2(1)] 3(3) by (simp add: names_member_def)
    with put_get_same [OF Some c2(2)] put_child_twice [OF c2(2)] show ?thesis by simp
  qed
qed simp

lemma put_child_frame:
  "put_child (JObj kvs) k v = Inr j' \<Longrightarrow> m \<noteq> key_text k \<Longrightarrow> jget m j' = map_of kvs m"
  by (auto simp: update_conv')

lemma patch_frame:
  \<comment> \<open>a patch below the member k of an object leaves every other member alone\<close>
  assumes "applyPatch (JObj kvs) (Some pt) = Inr j'" and "pt_path pt = k # ks" and "m \<noteq> key_text k"
  shows "jget m j' = map_of kvs m"
proof -
  have r: "remove_path (JObj kvs) (k # ks) = Inr x \<Longrightarrow> jget m x = map_of kvs m" for x
    using assms(3) put_child_frame [of kvs k _ x m]
    by (cases ks) (auto simp: delete_conv' bindE_eq_Inr split: option.splits)
  have s: "set_path (JObj kvs) (k # ks) v = Inr x \<Longrightarrow> jget m x = map_of kvs m" for x v
    using assms(3) put_child_frame [of kvs k _ x m]
    by (cases ks) (auto simp: bindE_eq_Inr Let_def update_conv' split: option.splits)
  have a: "append_path (JObj kvs) (k # ks) v = Inr x \<Longrightarrow> jget m x = map_of kvs m" for x v
    using assms(3) put_child_frame [of kvs k _ x m]
    by (auto simp: bindE_eq_Inr split: option.splits)
  show ?thesis using assms(1,2) r s a by (auto simp: applyPatch_def split: if_splits)
qed

subsection \<open>What an accepted preApply promises\<close>

lemma preApply_json_planned:
  assumes "preApply_json parsed p = Planned n"
  shows "\<exists>r. applyPatch parsed p = Inr r \<and> n = length (json_pretty r)
           \<and> (\<exists>r2. applyPatch r p = Inr r2 \<and> json_stringify r2 = json_stringify r)"
  using assms by (auto simp: preApply_json_def split: sum.splits if_splits)

lemma rewrite_output_planned:
  assumes "preApply jsonc op s = Inr (Planned n)" and "read_file s (rw_target op) = Inr source"
    and "json_parse source = Some parsed"
  shows "\<exists>r. rewrite_output jsonc op source = Inr (json_pretty r @ [nl]) \<and> n = length (json_pretty r)
           \<and> applyPatch parsed (rw_patch op) = Inr r"
  using assms preApply_json_planned [of parsed "rw_patch op" n]
  by (auto simp: preApply_def rewrite_output_def)

lemma rewrite_stable:
  \<comment> \<open>a second rewrite of the file the first one wrote changes no byte\<close>
  assumes "preApply_json parsed (rw_patch op) = Planned n"
    and "applyPatch parsed (rw_patch op) = Inr r" and "json_plain r"
    and "\<forall>r2. applyPatch r (rw_patch op) = Inr r2 \<longrightarrow> json_plain r2"
  shows "rewrite_output jsonc op (json_pretty r @ [nl]) = Inr (json_pretty r @ [nl])"
proof -
  obtain r2 where r2: "applyPatch r (rw_patch op) = Inr r2" "json_stringify r2 = json_stringify r"
    using preApply_json_planned [OF assms(1)] assms(2) by auto
  then have "r2 = r" using json_stringify_inj assms(3,4) by blast
  with r2 assms(3) show ?thesis by (simp add: rewrite_output_def)
qed

subsection \<open>Properties\<close>

text \<open>The two patch operations the program generates are idempotent: a set, and a remove whose path
  ends in a member name, applied to their own result change nothing, on every document.\<close>

lemma patch_idempotent:
  assumes "applyPatch j (Some p) = Inr r" and "pt_op p = ''set'' \<or> pt_op p = ''remove'' \<and> names_member (pt_path p)"
  shows "applyPatch r (Some p) = Inr r"
  using assms set_path_idem remove_path_idem by (auto simp: applyPatch_def)

lemma patch_idempotent_witness:
  "applyPatch (JObj [(''a'', JObj [])]) (Some \<lparr>pt_op = ''remove'', pt_path = [KStr ''a'', KStr ''b''], pt_value = JNull\<rparr>)
   = Inr (JObj [(''a'', JObj [])])"
  by (rule patch_idempotent [of "JObj [(''a'', JObj [(''b'', JNum 1)])]"])
    (simp_all add: applyPatch_def names_member_def)

text \<open>A patch below one member of an object leaves every other member exactly as it was.\<close>

lemma patch_keeps_others:
  assumes "applyPatch (JObj kvs) (Some p) = Inr j" and "pt_path p = k # ks" and "m \<noteq> key_text k"
  shows "jget m j = map_of kvs m"
  by (rule patch_frame [OF assms])

lemma patch_keeps_others_witness:
  "jget ''b'' (JObj [(''a'', JNum 2), (''b'', JNum 7)]) = Some (JNum 7)"
  using patch_keeps_others [of "[(''a'', JNum 1), (''b'', JNum 7)]"
      "\<lparr>pt_op = ''set'', pt_path = [KStr ''a''], pt_value = JNum 2\<rparr>" _ "KStr ''a''" "[]" "''b''"]
  by (simp add: applyPatch_def)



end
