(* ===== verification/Observe.thy ===== *)
theory Observe
  imports Fs
begin

text \<open>
  The bounded walk (scripts/lib/observe.mjs): a depth-first traversal with a stack that stops at
  a file budget or a wall-clock budget and never follows a symbolic link. The clock is a
  parameter, the elapsed time at the k-th turn of the loop. The loop runs on fuel; one more
  than the file budget is always enough, because every directory on the stack is an entry.
\<close>

datatype entry_kind = KFile | KDirectory | KSymlink

record walk_entry =
  we_path :: string
  we_kind :: entry_kind
  we_size :: nat
  we_mtime :: int

datatype degraded_reason = MaxFiles | MaxWallMs | UnreadableDirectory

record walk_degraded =
  wd_reason :: degraded_reason
  wd_path :: string
  wd_budget :: "int option"

record walk_result =
  w_entries :: "walk_entry list"
  w_degraded :: "walk_degraded list"
  w_stopped :: bool

definition DEFAULT_MAX_FILES :: int where
  "DEFAULT_MAX_FILES = 5000"

definition DEFAULT_MAX_WALL_MS :: int where
  "DEFAULT_MAX_WALL_MS = 5000"

definition DEFAULT_MAX_BYTES :: int where
  "DEFAULT_MAX_BYTES = 1024 * 1024"

definition numberOr :: "int option \<Rightarrow> int \<Rightarrow> int" where
  "numberOr v d = (case v of Some n \<Rightarrow> if 0 < n then n else d | None \<Rightarrow> d)"

definition entry_of :: "(string \<Rightarrow> int) \<Rightarrow> string \<Rightarrow> node \<Rightarrow> walk_entry" where
  "entry_of mt p n =
     (case n of
        Link t \<Rightarrow> \<lparr>we_path = p, we_kind = KSymlink, we_size = length t, we_mtime = mt p\<rparr>
      | Dir \<Rightarrow> \<lparr>we_path = p, we_kind = KDirectory, we_size = 0, we_mtime = mt p\<rparr>
      | File c m \<Rightarrow> \<lparr>we_path = p, we_kind = KFile, we_size = length c, we_mtime = mt p\<rparr>)"

fun walk_names ::
  "fs \<Rightarrow> (string \<Rightarrow> int) \<Rightarrow> nat \<Rightarrow> string \<Rightarrow> string list \<Rightarrow> walk_entry list \<Rightarrow> string list
   \<Rightarrow> walk_entry list \<times> string list \<times> bool" where
  \<comment> \<open>the inner loop: entries so far, the stack (top first), whether the budget stopped it\<close>
  "walk_names s mt maxFiles cur [] es stack = (es, stack, False)"
| "walk_names s mt maxFiles cur (n # ns) es stack =
     (if maxFiles \<le> length es then (es, stack, True)
      else (let full = path_join [cur, n]
            in case fget full s of
                 None \<Rightarrow> walk_names s mt maxFiles cur ns es stack
               | Some Dir \<Rightarrow> walk_names s mt maxFiles cur ns (es @ [entry_of mt full Dir]) (full # stack)
               | Some x \<Rightarrow> walk_names s mt maxFiles cur ns (es @ [entry_of mt full x]) stack))"

definition budget_files :: "string \<Rightarrow> nat \<Rightarrow> walk_degraded" where
  "budget_files root maxFiles = \<lparr>wd_reason = MaxFiles, wd_path = root, wd_budget = Some (int maxFiles)\<rparr>"

definition lstat_dir :: "fs \<Rightarrow> string \<Rightarrow> bool" where
  "lstat_dir s p = (fget p s = Some Dir)"

fun walk_loop ::
  "nat \<Rightarrow> fs \<Rightarrow> (string \<Rightarrow> int) \<Rightarrow> (nat \<Rightarrow> int) \<Rightarrow> nat \<Rightarrow> string \<Rightarrow> nat \<Rightarrow> int \<Rightarrow> string list
   \<Rightarrow> walk_entry list \<Rightarrow> walk_degraded list \<Rightarrow> walk_result option" where
  "walk_loop 0 s mt elapsed turn root maxFiles maxWall stack es ds =
     (if stack = [] then Some \<lparr>w_entries = es, w_degraded = ds, w_stopped = False\<rparr> else None)"
| "walk_loop (Suc fuel) s mt elapsed turn root maxFiles maxWall stack es ds =
     (case stack of
        [] \<Rightarrow> Some \<lparr>w_entries = es, w_degraded = ds, w_stopped = False\<rparr>
      | cur # rest \<Rightarrow>
          if maxFiles \<le> length es
          then Some \<lparr>w_entries = es, w_degraded = ds @ [budget_files root maxFiles], w_stopped = True\<rparr>
          else if maxWall \<le> elapsed turn
          then Some \<lparr>w_entries = es,
                     w_degraded = ds @ [\<lparr>wd_reason = MaxWallMs, wd_path = root, wd_budget = Some maxWall\<rparr>],
                     w_stopped = True\<rparr>
          else (case read_dir s cur of
              Inl x \<Rightarrow> walk_loop fuel s mt elapsed (Suc turn) root maxFiles maxWall rest es
                         (ds @ [\<lparr>wd_reason = UnreadableDirectory, wd_path = cur, wd_budget = None\<rparr>])
            | Inr names \<Rightarrow>
                (case walk_names s mt maxFiles cur names es rest of
                   (es', stack', True) \<Rightarrow>
                     Some \<lparr>w_entries = es', w_degraded = ds @ [budget_files root maxFiles], w_stopped = True\<rparr>
                 | (es', stack', False) \<Rightarrow>
                     walk_loop fuel s mt elapsed (Suc turn) root maxFiles maxWall stack' es' ds)))"

definition walkBounded ::
  "fs \<Rightarrow> (string \<Rightarrow> int) \<Rightarrow> (nat \<Rightarrow> int) \<Rightarrow> string \<Rightarrow> int option \<Rightarrow> int option \<Rightarrow> walk_result option" where
  \<comment> \<open>None only if the fuel were not enough, which walk_returns excludes\<close>
  "walkBounded s mt elapsed root mf mw =
     (let maxFiles = nat (numberOr mf DEFAULT_MAX_FILES); maxWall = numberOr mw DEFAULT_MAX_WALL_MS
      in if \<not> lstat_dir s root then Some \<lparr>w_entries = [], w_degraded = [], w_stopped = False\<rparr>
         else walk_loop (Suc maxFiles) s mt elapsed 0 root maxFiles maxWall [root] [] [])"

subsection \<open>The budget is respected and the loop returns\<close>

definition dirs_in :: "walk_entry list \<Rightarrow> nat" where
  "dirs_in es = length (filter (\<lambda>e. we_kind e = KDirectory) es)"

lemma kind_entry_of [simp]:
  "we_kind (entry_of mt p (Link t)) = KSymlink" "we_kind (entry_of mt p Dir) = KDirectory"
  "we_kind (entry_of mt p (File c m)) = KFile" "we_path (entry_of mt p n) = p"
  by (simp_all add: entry_of_def split: node.splits)

lemma walk_names_facts:
  "walk_names s mt maxFiles cur ns es stack = (es', stack', b) \<Longrightarrow>
     (length es \<le> maxFiles \<longrightarrow> length es' \<le> maxFiles) \<and> (b \<longrightarrow> maxFiles \<le> length es')
   \<and> length stack' + dirs_in es = length stack + dirs_in es' \<and> length es \<le> length es'"
proof (induction ns arbitrary: es stack)
  case (Cons n ns)
  show ?case
  proof (cases "maxFiles \<le> length es")
    case True
    with Cons.prems show ?thesis by simp
  next
    case False
    show ?thesis
    proof (cases "fget (path_join [cur, n]) s")
      case None
      with Cons False show ?thesis by (auto simp: Let_def)
    next
      case (Some x)
      with Cons.prems False have "walk_names s mt maxFiles cur ns (es @ [entry_of mt (path_join [cur, n]) x])
          (if x = Dir then path_join [cur, n] # stack else stack) = (es', stack', b)"
        by (cases x) (auto simp: Let_def)
      from Cons.IH [OF this] False show ?thesis
        by (cases x) (auto simp: dirs_in_def)
    qed
  qed
qed auto

lemma dirs_in_le: "dirs_in es \<le> length es"
  by (simp add: dirs_in_def)

definition under_dir :: "fs \<Rightarrow> walk_entry \<Rightarrow> bool" where
  \<comment> \<open>the entry was listed in a directory that is no symbolic link\<close>
  "under_dir s e = (\<exists>d n. we_path e = path_join [d, n] \<and> fget d s = Some Dir)"

lemma walk_names_dirs:
  assumes "fget cur s = Some Dir"
  shows "walk_names s mt maxFiles cur ns es stack = (es', stack', b) \<Longrightarrow>
     (\<forall>d \<in> set stack. fget d s = Some Dir) \<Longrightarrow>
     (\<forall>e \<in> set es. under_dir s e) \<Longrightarrow>
     (\<forall>d \<in> set stack'. fget d s = Some Dir)
   \<and> (\<forall>e \<in> set es'. under_dir s e)"
proof (induction ns arbitrary: es stack)
  case Nil
  then show ?case by simp
next
  case (Cons n ns)
  show ?case
  proof (cases "maxFiles \<le> length es")
    case False
    show ?thesis
    proof (cases "fget (path_join [cur, n]) s")
      case None
      with Cons.prems(1) False have "walk_names s mt maxFiles cur ns es stack = (es', stack', b)"
        by (simp add: Let_def)
      from this Cons.prems(2,3) show ?thesis by (rule Cons.IH)
    next
      case (Some x)
      with Cons.prems False have "walk_names s mt maxFiles cur ns (es @ [entry_of mt (path_join [cur, n]) x])
          (if x = Dir then path_join [cur, n] # stack else stack) = (es', stack', b)"
        by (cases x) (auto simp: Let_def)
      moreover have "\<forall>d \<in> set (if x = Dir then path_join [cur, n] # stack else stack). fget d s = Some Dir"
        using Cons.prems(2) Some by simp
      moreover have "under_dir s (entry_of mt (path_join [cur, n]) x)"
        unfolding under_dir_def by (rule exI [of _ cur], rule exI [of _ n]) (simp add: assms)
      then have "\<forall>e \<in> set (es @ [entry_of mt (path_join [cur, n]) x]). under_dir s e"
        using Cons.prems(3) by auto
      ultimately show ?thesis by (rule Cons.IH)
    qed
  qed (use Cons.prems in simp)
qed

definition budget_hit :: "walk_degraded list \<Rightarrow> bool" where
  "budget_hit ds = (\<exists>d \<in> set ds. wd_reason d \<noteq> UnreadableDirectory)"

lemma walk_loop_returns:
  "length stack + (maxFiles - dirs_in es) \<le> fuel \<Longrightarrow> length es \<le> maxFiles \<Longrightarrow> \<not> budget_hit ds \<Longrightarrow>
   \<exists>r. walk_loop fuel s mt elapsed turn root maxFiles maxWall stack es ds = Some r
     \<and> length (w_entries r) \<le> maxFiles \<and> (w_stopped r \<longleftrightarrow> budget_hit (w_degraded r))"
proof (induction fuel arbitrary: stack es ds turn)
  case 0
  then show ?case by simp
next
  case (Suc fuel)
  show ?case
  proof (cases stack)
    case Nil
    with Suc.prems show ?thesis by simp
  next
    case (Cons cur rest)
    show ?thesis
    proof (cases "maxFiles \<le> length es \<or> maxWall \<le> elapsed turn")
      case True
      with Cons Suc.prems show ?thesis by (auto simp: budget_hit_def budget_files_def)
    next
      case False
      show ?thesis
      proof (cases "read_dir s cur")
        case (Inl x)
        let ?ds = "ds @ [\<lparr>wd_reason = UnreadableDirectory, wd_path = cur, wd_budget = None\<rparr>]"
        have "\<not> budget_hit ?ds" using Suc.prems(3) by (auto simp: budget_hit_def)
        moreover have "length rest + (maxFiles - dirs_in es) \<le> fuel" using Suc.prems(1) Cons by simp
        ultimately show ?thesis
          using Suc.IH [of rest es ?ds "Suc turn"] Suc.prems(2) Cons False Inl by simp
      next
        case (Inr names)
        obtain es' stack' b where w: "walk_names s mt maxFiles cur names es rest = (es', stack', b)"
          by (metis prod_cases3)
        note f = walk_names_facts [OF w]
        show ?thesis
        proof (cases b)
          case True
          with w f Cons False Inr Suc.prems show ?thesis
            by (auto simp: budget_hit_def budget_files_def)
        next
          case nb: False
          have "dirs_in es' \<le> maxFiles" using f dirs_in_le [of es'] Suc.prems(2) by linarith
          then have "length stack' + (maxFiles - dirs_in es') \<le> fuel"
            using f Suc.prems(1) Cons by auto
          with Suc.IH [of stack' es' ds "Suc turn"] f Suc.prems nb w Cons False Inr show ?thesis
            by simp
        qed
      qed
    qed
  qed
qed

lemma walk_loop_dirs:
  "walk_loop fuel s mt elapsed turn root maxFiles maxWall stack es ds = Some r \<Longrightarrow>
   (\<forall>d \<in> set stack. fget d s = Some Dir) \<Longrightarrow>
   (\<forall>e \<in> set es. under_dir s e) \<Longrightarrow>
   (\<forall>e \<in> set (w_entries r). under_dir s e)"
proof (induction fuel arbitrary: stack es ds turn)
  case 0
  then show ?case by (auto split: if_splits)
next
  case (Suc fuel)
  show ?case
  proof (cases stack)
    case Nil
    with Suc.prems show ?thesis by auto
  next
    case (Cons cur rest)
    show ?thesis
    proof (cases "maxFiles \<le> length es \<or> maxWall \<le> elapsed turn")
      case True
      with Cons Suc.prems show ?thesis by (auto split: if_splits)
    next
      case False
      show ?thesis
      proof (cases "read_dir s cur")
        case (Inl x)
        show ?thesis
          by (rule Suc.IH [of "Suc turn" rest es]) (use Suc.prems Cons False Inl in auto)
      next
        case (Inr names)
        obtain es' stack' b where w: "walk_names s mt maxFiles cur names es rest = (es', stack', b)"
          by (metis prod_cases3)
        have cur: "fget cur s = Some Dir" using Suc.prems(2) Cons by simp
        have d: "(\<forall>d \<in> set stack'. fget d s = Some Dir)
          \<and> (\<forall>e \<in> set es'. under_dir s e)"
          by (rule walk_names_dirs [OF cur w]) (use Suc.prems Cons in auto)
        show ?thesis
        proof (cases b)
          case True
          with Suc.prems(1) Cons False Inr w have "w_entries r = es'" by auto
          with d show ?thesis by simp
        next
          case nb: False
          have "walk_loop fuel s mt elapsed (Suc turn) root maxFiles maxWall stack' es' ds = Some r"
            using Suc.prems(1) Cons False Inr w nb by simp
          from Suc.IH [OF this] d show ?thesis by blast
        qed
      qed
    qed
  qed
qed

subsection \<open>Properties\<close>

lemma walkBounded_dirs:
  assumes "walkBounded s mt elapsed root mf mw = Some r"
  shows "\<forall>e \<in> set (w_entries r). under_dir s e"
proof (cases "lstat_dir s root")
  case True
  then show ?thesis
    using assms walk_loop_dirs [of _ s mt elapsed 0 root _ _ "[root]" "[]" "[]" r]
    by (simp add: walkBounded_def Let_def lstat_dir_def del: walk_loop.simps)
next
  case False
  with assms show ?thesis by (auto simp: walkBounded_def Let_def)
qed



end
