(* ===== verification/Audit_Core.thy ===== *)
theory Audit_Core
  imports Surface Stance Policy Observe Patch Learning
begin

text \<open>
  The audit pipeline (scripts/lib/audit.mjs) apart from the single detectors: scopes, the
  assembly of a finding from a detector output, safe-mode limits, blocked actions, the stance
  counts, boundaries, the primary finding and the probe catalog.
\<close>

subsection \<open>Scopes\<close>

definition settings_detectors :: "string list" where
  "settings_detectors =
     [''settings.invalid_json'', ''settings.jsonc_detected'', ''settings.hook_path_dangling'',
      ''settings.hook_command_shell_ambiguous'', ''settings.mcp_command_missing'',
      ''hooks.config_dangling'']"

definition plugin_detectors :: "string list" where
  "plugin_detectors =
     [''plugin.expected_orphan'', ''plugin.cache_unreferenced'', ''plugin.duplicate_registration'',
      ''plugin.cache_size'', ''plugin.unused_past_grace'', ''settings.hook_path_dangling'',
      ''settings.hook_command_shell_ambiguous'']"

definition registry_detectors :: "string list" where
  "registry_detectors =
     [''registry.local_skill_shadow'', ''registry.local_command_identical'',
      ''registry.local_command_diverged'', ''registry.broken_frontmatter'',
      ''registry.command_dangling'', ''registry.skills_entry_dangling'']"

definition housekeeper_detectors :: "string list" where
  "housekeeper_detectors =
     [''housekeeper.interrupted_operation'', ''housekeeper.config_invalid'',
      ''housekeeper.operations_unreadable'']"

definition SCOPE_TO_DETECTORS :: "(string \<times> string list) list" where
  "SCOPE_TO_DETECTORS =
     [(''settings'', settings_detectors), (''plugins'', plugin_detectors),
      (''registry'', registry_detectors), (''housekeeper'', housekeeper_detectors)]"

definition ALWAYS_ON_DETECTORS :: "string list" where
  "ALWAYS_ON_DETECTORS =
     [''housekeeper.interrupted_operation'', ''housekeeper.config_invalid'',
      ''housekeeper.operations_unreadable'', ''housekeeper.stale_lock'',
      ''plugin.cache_referenced_by_hook'', ''home.not_found'', ''home.scan_budget_hit'', ''home.clean'']"

definition KNOWN_DETECTORS :: "string list" where
  "KNOWN_DETECTORS = concat (map snd SCOPE_TO_DETECTORS) @ ALWAYS_ON_DETECTORS"

definition selectedDetectors :: "string \<Rightarrow> string list option" where
  \<comment> \<open>None: the error Unknown scope\<close>
  "selectedDetectors scope =
     (if scope = ''all'' then Some (ALWAYS_ON_DETECTORS @ concat (map snd SCOPE_TO_DETECTORS))
      else map_option (\<lambda>ids. ids @ ALWAYS_ON_DETECTORS) (map_of SCOPE_TO_DETECTORS scope))"

record audit_limits =
  al_maxFiles :: int
  al_maxBytes :: int
  al_maxWallMs :: int

definition pickScanLimits :: "int option \<Rightarrow> int option \<Rightarrow> int option \<Rightarrow> audit_limits" where
  "pickScanLimits mf mb mw =
     \<lparr>al_maxFiles = opt_or mf DEFAULT_MAX_FILES, al_maxBytes = opt_or mb DEFAULT_MAX_BYTES,
      al_maxWallMs = opt_or mw DEFAULT_MAX_WALL_MS\<rparr>"

subsection \<open>Detector outputs\<close>

record raw =
  w_id :: string
  w_class :: finding_class
  w_claim :: "claim_level option"
  w_target :: string
  w_cacheHint :: bool             \<comment> \<open>surfaceHints.isPluginCacheVersionDir\<close>
  w_surface :: "surface option"
  w_structural :: "string list"
  w_freshness :: "string list"
  w_reversibility :: "string list"
  w_missing :: "string list"
  w_summary :: string
  w_next :: string
  w_blocked :: "string list option"
  w_force :: "stance option"
  w_hardenable :: bool
  w_cleanable :: bool
  w_history :: "bool option"

definition raw_of ::
  "string \<Rightarrow> finding_class \<Rightarrow> string \<Rightarrow> string list \<Rightarrow> string list \<Rightarrow> string \<Rightarrow> string \<Rightarrow> string list \<Rightarrow> raw" where
  \<comment> \<open>the members every detector literal has\<close>
  "raw_of i cl target str miss summ step blocked =
     \<lparr>w_id = i, w_class = cl, w_claim = None, w_target = target, w_cacheHint = False, w_surface = None,
      w_structural = str, w_freshness = [], w_reversibility = [], w_missing = miss,
      w_summary = summ, w_next = step, w_blocked = Some blocked, w_force = None,
      w_hardenable = False, w_cleanable = False, w_history = None\<rparr>"

definition push :: "string list \<Rightarrow> raw option \<Rightarrow> raw list" where
  "push selected r = (case r of None \<Rightarrow> [] | Some x \<Rightarrow> if List.member selected (w_id x) then [x] else [])"

definition pushAll :: "string list \<Rightarrow> raw list \<Rightarrow> raw list" where
  "pushAll selected rs = concat (map (\<lambda>r. push selected (Some r)) rs)"

subsection \<open>Finding assembly\<close>

definition SAFE_MODE_LIMIT_BY_ID :: "(string \<times> string) list" where
  "SAFE_MODE_LIMIT_BY_ID =
     [(''settings.hook_path_dangling'', ''safe-mode-no-loader-key''),
      (''settings.hook_command_shell_ambiguous'', ''safe-mode-no-shell-parse''),
      (''settings.mcp_command_missing'', ''safe-mode-no-mcp-start''),
      (''plugin.expected_orphan'', ''safe-mode-no-active-session-key''),
      (''plugin.cache_unreferenced'', ''safe-mode-no-active-session-key''),
      (''plugin.duplicate_registration'', ''safe-mode-no-loader-key''),
      (''plugin.cache_size'', ''safe-mode-no-loader-key''),
      (''registry.local_skill_shadow'', ''safe-mode-no-loader-key''),
      (''registry.local_command_identical'', ''safe-mode-no-loader-key''),
      (''registry.local_command_diverged'', ''safe-mode-no-loader-key''),
      (''registry.broken_frontmatter'', ''safe-mode-no-loader-key''),
      (''home.scan_budget_hit'', ''safe-mode-scan-budget''),
      (''home.clean'', ''safe-mode-no-loader-key''),
      (''plugin.cache_referenced_by_hook'', ''safe-mode-no-loader-key''),
      (''plugin.unused_past_grace'', ''safe-mode-no-shell-history'')]"

definition applySafeModeLimits :: "surface \<Rightarrow> mode \<Rightarrow> string \<Rightarrow> surface" where
  "applySafeModeLimits sf m i =
     (if m \<noteq> Safe then sf
      else (case map_of SAFE_MODE_LIMIT_BY_ID i of
              None \<Rightarrow> sf
            | Some limit \<Rightarrow> if List.member (limits sf) limit then sf
                            else sf\<lparr>limits := limits sf @ [limit]\<rparr>))"

definition defaultBlockedActions :: "string \<Rightarrow> stance \<Rightarrow> string list" where
  "defaultBlockedActions i st =
     (if st = Block then [''mutate-without-consent'', ''claim-fixed'']
      else if st = Protect then []
      else if st = Prepare then [''mutate-without-consent'', ''claim-fixed'']
      else if st = Probe then [''mutate-without-consent'', ''claim-fixed'']
      else if starts_with ''plugin.'' i then [''call unused'', ''delete'', ''quarantine'']
      else [])"

record probe_meta =
  pb_reference :: string
  pb_class :: string
  pb_mayExecute :: string
  pb_consent :: string

definition probe_entry :: "string \<Rightarrow> string \<Rightarrow> string \<Rightarrow> string \<Rightarrow> probe_meta" where
  "probe_entry r c m k = \<lparr>pb_reference = r, pb_class = c, pb_mayExecute = m, pb_consent = k\<rparr>"

definition PROBE_CATALOG :: "probe_meta list" where
  "PROBE_CATALOG =
     [probe_entry ''/hooks'' ''loader'' ''Claude session load, hook registry load'' ''medium'',
      probe_entry ''/doctor'' ''loader'' ''Claude session load'' ''medium'',
      probe_entry ''/mcp'' ''loader'' ''may start or contact MCP depending behavior'' ''high'',
      probe_entry ''/skills'' ''loader'' ''Claude session load, skill registry load'' ''medium'',
      probe_entry ''claude --debug hooks'' ''behavioral'' ''may run hooks'' ''high'',
      probe_entry ''claude --debug mcp'' ''behavioral'' ''may start MCP servers'' ''high'']"

definition catalog :: "string \<Rightarrow> probe_meta option" where
  "catalog r = find (\<lambda>p. pb_reference p = r) PROBE_CATALOG"

definition pickProbeMetadata :: "finding \<Rightarrow> probe_meta option" where
  "pickProbeMetadata f =
     (if f_id f = ''settings.hook_command_shell_ambiguous'' then catalog ''claude --debug hooks''
      else if f_id f = ''settings.mcp_command_missing'' then catalog ''/mcp''
      else (let stepText = f_nextAllowedStep f @ '' '' @ opt_or (f_missingKey f) [] @ '' '' @ f_why f
            in find (\<lambda>p. contains (pb_reference p) stepText) PROBE_CATALOG))"

definition finding_stance :: "raw \<Rightarrow> surface \<Rightarrow> policy_match list \<Rightarrow> mode \<Rightarrow> stance_payload" where
  \<comment> \<open>the decideStance call of buildFinding\<close>
  "finding_stance r sf matches m =
     decideStance \<lparr>a_surface = Some sf, a_freshness = Some (w_freshness r), a_conflicting = False,
        a_missingKeys = w_missing r, a_matches = matches, a_mode = Some m,
        a_findingClass = Some (w_class r), a_consentGranted = False\<rparr>"

definition buildFinding ::
  "raw \<Rightarrow> string \<Rightarrow> mode \<Rightarrow> (string \<Rightarrow> policy_match list) \<Rightarrow> (string \<times> nat) list \<Rightarrow> finding" where
  "buildFinding r home m policyMatchesFor markers =
     (let baseSurface = (case w_surface r of Some x \<Rightarrow> x
            | None \<Rightarrow> classifySurface (w_target r)
                        (no_hints\<lparr>h_home := Some home, h_isPluginCacheVersionDir := w_cacheHint r\<rparr>));
          sf = applySafeModeLimits baseSurface m (w_id r);
          ev = makeEvidenceSet (Some (w_structural r)) None None None (Some (w_freshness r))
                 (Some (w_reversibility r)) (Some (w_missing r));
          matches = (if w_target r = [] then [] else policyMatchesFor (w_target r));
          st = finding_stance r sf matches m;
          forced = opt_or (w_force r) (p_stance st);
          stanceValue = (if forced = Repair then Prepare else forced);
          blocked = opt_or (w_blocked r) (defaultBlockedActions (w_id r) stanceValue);
          base = makeFinding (w_id r) (Some (w_class r))
                   (Some (opt_or (w_claim r) (if stanceValue = Inform then ClaimObservation else ClaimFinding)))
                   (Some stanceValue) (w_summary r) (Some sf) (Some ev)
                   (str_or (w_next r) (str_or (p_nextAllowedStep st) ''none'')) (Some blocked);
          f = base\<lparr>f_why := p_why st, f_missingKey := p_missingKey st, f_notAllowed := p_notAllowed st,
                   f_userDecisionNeeded := p_userDecisionNeeded st, f_targetPath := w_target r,
                   f_policyMatches := matches\<rparr>
      in f\<lparr>f_proposedProbe := map_option pb_reference (pickProbeMetadata f),
           f_hardenable := w_hardenable r, f_cleanable := w_cleanable r, f_historyAvailable := w_history r,
           f_falsePositiveSeen :=
             (case map_of markers (w_id r @ ''|'' @ w_target r) of
                Some n \<Rightarrow> if n = 0 then None else Some n | None \<Rightarrow> None)\<rparr>)"

subsection \<open>Report members\<close>

definition countStances :: "finding list \<Rightarrow> stance \<Rightarrow> nat" where
  "countStances fs st = length (filter (\<lambda>f. f_stance f = st) fs)"

definition pickBoundaryType :: "finding \<Rightarrow> string" where
  "pickBoundaryType f =
     (let sf = f_surface f
      in if scopeClass sf = SectorBoundary \<or> scopeClass sf = ParentContainsBoundary then ''sector-boundary''
         else if sensitivityClass sf = SecretAdjacent \<or> sensitivityClass sf = SecretContent
         then ''secret-adjacent'' else ''protected'')"

definition collectBoundaries :: "finding list \<Rightarrow> boundary list" where
  "collectBoundaries fs =
     map (\<lambda>f. \<lparr>b_type = pickBoundaryType f, b_path = f_targetPath f,
               b_reason = str_or (f_why f) ''boundary'', b_findingId = f_id f\<rparr>)
       (filter (\<lambda>f. f_stance f = Protect) fs)"

definition PRIMARY_PRIORITY :: "stance list" where
  "PRIMARY_PRIORITY = [Block, Prepare, Probe, Review, Protect, Watch, Inform]"

fun first_with :: "stance list \<Rightarrow> finding list \<Rightarrow> finding option" where
  "first_with [] fs = None"
| "first_with (st # sts) fs =
     (case find (\<lambda>f. f_stance f = st) fs of Some f \<Rightarrow> Some f | None \<Rightarrow> first_with sts fs)"

definition pickPrimary :: "finding list \<Rightarrow> finding option" where
  "pickPrimary fs =
     (if fs = [] then None
      else (case first_with PRIMARY_PRIORITY fs of Some f \<Rightarrow> Some f | None \<Rightarrow> Some (hd fs)))"

definition report_of ::
  "env \<Rightarrow> string \<Rightarrow> mode \<Rightarrow> finding list \<Rightarrow> degraded_entry list \<Rightarrow> report" where
  \<comment> \<open>the makeReport call of assembleReport and earlyReport\<close>
  "report_of e home m fs ds =
     makeReport SCHEMA_VERSION (Some m) home (e_iso e (e_now e)) (map_option f_id (pickPrimary fs))
       (Some (countStances fs)) (Some fs) (Some (collectBoundaries fs)) (Some ds)"

end
