(* ===== verification/Detectors.thy ===== *)
theory Detectors
  imports Audit_Core
begin

text \<open>
  The detectors of scripts/lib/audit.mjs and the primitives they share: reading settings and the
  plugin registry, walking the command and skill directories, finding absolute paths in hook
  commands, the sector boundary, and assembleReport over all of them. Modification times, the
  user's home directory, the history variable and the text of engine error messages are
  parameters.
\<close>

subsection \<open>Environment and context\<close>

record audit_env =
  ae_env :: env
  ae_mtime :: "string \<Rightarrow> int option"     \<comment> \<open>statSync(p).mtimeMs, None when it throws\<close>
  ae_errmsg :: "err \<Rightarrow> string"           \<comment> \<open>error.message\<close>
  ae_elapsed :: "nat \<Rightarrow> int"             \<comment> \<open>the clock of the bounded walk\<close>
  ae_homedir :: string
  ae_historyVar :: string                \<comment> \<open>HOUSEKEEPER_HISTORY_FILE, empty when unset\<close>

record audit_opts =
  ao_scope :: string
  ao_mode :: mode
  ao_configPath :: "string option"
  ao_maxFiles :: "int option"
  ao_maxBytes :: "int option"
  ao_maxWallMs :: "int option"
  ao_historyFile :: string

record jread =
  jr_ok :: bool
  jr_value :: json
  jr_raw :: string
  jr_error :: string

record plugin_entry =
  pe_key :: string
  pe_name :: string
  pe_scope :: string
  pe_project :: string
  pe_install :: string

record resource =
  re_name :: string
  re_path :: string
  re_plugin :: string

record ops_probe =
  op_path :: string
  op_exists :: bool
  op_unreadable :: bool
  op_names :: "string list"
  op_error :: string

record ctx =
  cx_fs :: fs
  cx_env :: audit_env
  cx_home :: string
  cx_mode :: mode
  cx_settings :: jread
  cx_settingsFile :: string
  cx_config :: config
  cx_plugins :: "plugin_entry list"
  cx_skills :: "resource list"          \<comment> \<open>plugin-provided, in insertion order\<close>
  cx_commands :: "resource list"
  cx_projectsRoot :: string
  cx_projects :: walk_result
  cx_ops :: ops_probe
  cx_degraded :: "degraded_entry list"
  cx_markers :: "(string \<times> nat) list"
  cx_applied :: "json list"
  cx_historyFile :: string

subsection \<open>File primitives\<close>

definition audit_readJson :: "audit_env \<Rightarrow> fs \<Rightarrow> string \<Rightarrow> jread" where
  "audit_readJson ae s file =
     (if \<not> existsSync s file then \<lparr>jr_ok = True, jr_value = JNull, jr_raw = [], jr_error = []\<rparr>
      else (case read_file s file of
          Inl x \<Rightarrow> \<lparr>jr_ok = False, jr_value = JNull, jr_raw = [], jr_error = ae_errmsg ae x\<rparr>
        | Inr raw \<Rightarrow>
            (case json_parse raw of
               Some v \<Rightarrow> \<lparr>jr_ok = True, jr_value = v, jr_raw = raw, jr_error = []\<rparr>
             | None \<Rightarrow> \<lparr>jr_ok = False, jr_value = JNull, jr_raw = raw,
                        jr_error = ae_errmsg ae (SyntaxError file)\<rparr>)))"

definition isSectorBoundaryPath :: "string \<Rightarrow> string \<Rightarrow> bool" where
  "isSectorBoundaryPath home target =
     (if target = [] then False
      else (let norm = normalize target; croot = normalize (path_join [home, ''credentials''])
            in (home \<noteq> [] \<and> (norm = croot \<or> starts_with (croot @ [sep]) norm))
               \<or> starts_with ''.env'' (basename norm)
               \<or> ''credentials'' \<in> set (split_on sep norm) \<or> ''secrets'' \<in> set (split_on sep norm)))"

definition readdirSafe :: "fs \<Rightarrow> string \<Rightarrow> string list" where
  "readdirSafe s d = (case read_dir s d of Inl x \<Rightarrow> [] | Inr ns \<Rightarrow> ns)"

definition readText :: "ctx \<Rightarrow> string \<Rightarrow> string" where
  "readText cx file =
     (if cx_mode cx = Safe \<and> isSectorBoundaryPath (cx_home cx) file then []
      else (case read_file (cx_fs cx) file of Inl x \<Rightarrow> [] | Inr t \<Rightarrow> t))"

definition audit_hashFile :: "ctx \<Rightarrow> string \<Rightarrow> err + string" where
  "audit_hashFile cx file =
     (if cx_mode cx = Safe \<and> isSectorBoundaryPath (cx_home cx) file then Inr []
      else (case read_file (cx_fs cx) file of
              Inl x \<Rightarrow> Inl x | Inr t \<Rightarrow> Inr (e_sha (ae_env (cx_env cx)) t)))"

definition mtimeMs :: "audit_env \<Rightarrow> string \<Rightarrow> int" where
  "mtimeMs ae p = opt_or (ae_mtime ae p) (e_now (ae_env ae))"

fun walk_tree :: "nat \<Rightarrow> fs \<Rightarrow> string \<Rightarrow> string list" where
  \<comment> \<open>walk: the files of a directory, then its subdirectories, last pushed first; the fuel
      bounds the nesting\<close>
  "walk_tree 0 s d = []"
| "walk_tree (Suc n) s d =
     (let kids = map (\<lambda>nm. path_join [d, nm]) (readdirSafe s d)
      in filter (\<lambda>p. \<not> is_directory s p) kids
         @ concat (map (walk_tree n s) (rev (filter (is_directory s) kids))))"

definition walk_fuel :: "fs \<Rightarrow> nat" where
  "walk_fuel s = Suc (fold (\<lambda>kv m. max (length (fst kv)) m) s 0)"

definition walk :: "fs \<Rightarrow> string \<Rightarrow> string list" where
  "walk s root = (if existsSync s root then walk_tree (walk_fuel s) s root else [])"

definition file_size :: "fs \<Rightarrow> string \<Rightarrow> nat" where
  "file_size s p = (case stat_node s p of None \<Rightarrow> 0 | Some n \<Rightarrow> node_size n)"

definition dirSize :: "fs \<Rightarrow> string \<Rightarrow> nat" where
  "dirSize s root = sum_list (map (file_size s) (walk s root))"

definition tenths :: "nat \<Rightarrow> nat \<Rightarrow> string" where
  \<comment> \<open>(bytes / unit).toFixed(1) for a power of two unit\<close>
  "tenths bytes unit =
     (let n = (bytes * 20 + unit) div (2 * unit)
      in show_nat (n div 10) @ ''.'' @ show_nat (n mod 10))"

definition formatBytes :: "nat \<Rightarrow> string" where
  "formatBytes bytes =
     (if bytes < 1024 then show_nat bytes @ '' B''
      else if bytes < 1024 * 1024 then tenths bytes 1024 @ '' KiB''
      else tenths bytes (1024 * 1024) @ '' MiB'')"

definition path_relative :: "string \<Rightarrow> string \<Rightarrow> string" where
  \<comment> \<open>path.relative(d, p) for p below d\<close>
  "path_relative d p = (if starts_with (d @ [sep]) p then drop (Suc (length d)) p else p)"

definition collectSkills :: "fs \<Rightarrow> string \<Rightarrow> (string \<times> string) list" where
  "collectSkills s dir =
     (if \<not> existsSync s dir then []
      else filter (\<lambda>(n, p). existsSync s p)
             (map (\<lambda>n. (n, path_join [dir, n, ''SKILL.md''])) (readdirSafe s dir)))"

definition collectCommands :: "fs \<Rightarrow> string \<Rightarrow> (string \<times> string) list" where
  "collectCommands s dir =
     (if \<not> existsSync s dir then []
      else map (\<lambda>f. (let r = path_relative dir f in if ends_with ''.md'' r then take (length r - 3) r else r, f))
             (filter (ends_with ''.md'') (walk s dir)))"

definition listCacheVersionDirs :: "fs \<Rightarrow> string \<Rightarrow> string list" where
  "listCacheVersionDirs s root =
     (if \<not> existsSync s root then []
      else (let subdirs = (\<lambda>d. filter (is_directory s) (map (\<lambda>n. path_join [d, n]) (readdirSafe s d)))
            in concat (map (\<lambda>market. concat (map subdirs (subdirs market))) (subdirs root))))"

subsection \<open>Hook commands\<close>

fun hook_commands :: "json \<Rightarrow> string list" where
  "hook_commands (JArr xs) = concat (map hook_commands xs)"
| "hook_commands (JObj kvs) =
     (case jstr (map_of kvs ''command'') of Some c \<Rightarrow> [c] | None \<Rightarrow> [])
     @ concat (map (\<lambda>kv. hook_commands (snd kv)) kvs)"
| "hook_commands _ = []"

definition collectHookCommands :: "json \<Rightarrow> string list" where
  "collectHookCommands v = (case jget ''hooks'' v of None \<Rightarrow> [] | Some h \<Rightarrow> hook_commands h)"

definition path_char :: "char \<Rightarrow> bool" where
  \<comment> \<open>the complement of the class: white space, quotes, backtick, |, ;, &, )\<close>
  "path_char c = (\<not> is_space c \<and> c \<noteq> CHR 0x27 \<and> c \<noteq> quote \<and> c \<noteq> CHR 0x60 \<and> c \<noteq> CHR ''|''
                  \<and> c \<noteq> CHR '';'' \<and> c \<noteq> CHR ''&'' \<and> c \<noteq> CHR '')'')"

function extractAbsolutePaths :: "string \<Rightarrow> string list" where
  "extractAbsolutePaths [] = []"
| "extractAbsolutePaths (c # cs) =
     (if c = sep \<and> takeWhile path_char cs \<noteq> []
      then (c # takeWhile path_char cs) # extractAbsolutePaths (dropWhile path_char cs)
      else extractAbsolutePaths cs)"
  by pat_completeness auto

termination
  by (relation "measure length") (auto simp: le_imp_less_Suc length_dropWhile_le)

fun dollar_var :: "string \<Rightarrow> bool" where
  \<comment> \<open>/\$\{?[A-Z_]/\<close>
  "dollar_var [] = False"
| "dollar_var (c # cs) =
     (let t = (if starts_with [CHR 0x7B] cs then tl cs else cs);
          up = (\<lambda>u. u \<noteq> [] \<and> (is_upper (hd u) \<or> hd u = CHR ''_''))
      in c = CHR ''$'' \<and> up t \<or> dollar_var cs)"

fun dollar_paren :: "string \<Rightarrow> bool" where
  \<comment> \<open>/\$\([^)]+\)/\<close>
  "dollar_paren [] = False"
| "dollar_paren (c # cs) =
     (c = CHR ''$'' \<and> starts_with ''('' cs
        \<and> (let body = takeWhile (\<lambda>x. x \<noteq> CHR '')'') (tl cs)
           in body \<noteq> [] \<and> dropWhile (\<lambda>x. x \<noteq> CHR '')'') (tl cs) \<noteq> [])
      \<or> dollar_paren cs)"

definition backticked :: "string \<Rightarrow> bool" where
  \<comment> \<open>/`[^`]+`/: some text between two consecutive backticks\<close>
  "backticked s = list_ex (\<lambda>w. w \<noteq> []) (butlast (tl (split_on (CHR 0x60) s)))"

definition looksShellAmbiguous :: "string \<Rightarrow> bool" where
  "looksShellAmbiguous c = (dollar_var c \<or> backticked c \<or> dollar_paren c)"

definition mentionsPluginCache :: "string \<Rightarrow> bool" where
  "mentionsPluginCache c = (contains ''plugins/cache'' c \<or> contains ''CLAUDE_PLUGIN_ROOT'' c)"

definition isPluginCacheCommand :: "string \<Rightarrow> bool" where
  "isPluginCacheCommand c = contains ''/plugins/cache/'' c"

fun nub :: "'a list \<Rightarrow> 'a list" where
  \<comment> \<open>first occurrences, as a Set built in order\<close>
  "nub [] = []"
| "nub (x # xs) = x # filter (\<lambda>y. y \<noteq> x) (nub xs)"

lemma set_nub [simp]: "set (nub xs) = set xs"
  by (induction xs) auto

lemma distinct_nub [simp]: "distinct (nub xs)"
  by (induction xs) auto

subsection \<open>Settings detectors\<close>

definition settings_live :: "ctx \<Rightarrow> bool" where
  \<comment> \<open>context.settings.ok && context.settings.value\<close>
  "settings_live cx = (jr_ok (cx_settings cx) \<and> truthy (Some (jr_value (cx_settings cx))))"

definition detectSettingsInvalidJson :: "ctx \<Rightarrow> raw option" where
  "detectSettingsInvalidJson cx =
     (let st = cx_settings cx
      in if jr_ok st then None
         else if jr_raw st \<noteq> [] \<and> hasJsonComments (jr_raw st) then None
         else Some ((raw_of ''settings.invalid_json'' Integrity (cx_settingsFile cx)
                 [''parser error: '' @ jr_error st]
                 [''valid settings required before hook or MCP inference'']
                 ''settings.json is invalid JSON'' ''generate patch preview or edit manually''
                 [''dependent hook and MCP inference''])\<lparr>w_hardenable := True\<rparr>))"

definition detectSettingsJsoncDetected :: "ctx \<Rightarrow> raw option" where
  "detectSettingsJsoncDetected cx =
     (let st = cx_settings cx
      in if jr_ok st then None
         else if jr_raw st = [] then None
         else if \<not> hasJsonComments (jr_raw st) then None
         else Some ((raw_of ''settings.jsonc_detected'' Orientation (cx_settingsFile cx)
                 [''settings.json failed strict JSON parse'',
                  ''raw text contains `//` or `/*` comments outside string context'',
                  ''Claude Code may accept this file; Housekeeper cannot safely round-trip comments through a rewrite'']
                 [''pinned Claude Code citation that settings.json accepts JSONC'']
                 ''settings.json appears to use JSONC comments (not supported by Housekeeper rewrite)''
                 ''strip comments manually before invoking harden, or wait for v0.4 JSONC support''
                 [''mutate settings via harden'', ''round-trip comments through snapshot''])
                \<lparr>w_claim := Some ClaimObservation, w_force := Some Inform,
                 w_surface := Some (surface_lit AuthoredConfig UserOwned KnownLoadBearing PrivatePath
                                      Inert SnapshotPossible InScope High)\<rparr>))"

definition dangling_paths :: "fs \<Rightarrow> string list \<Rightarrow> string list" where
  "dangling_paths s cmds =
     nub (concat (map (\<lambda>c. if looksShellAmbiguous c then []
                           else filter (\<lambda>p. isPluginCacheCommand p \<and> \<not> existsSync s p)
                                  (extractAbsolutePaths c)) cmds))"

definition detectHookPathDangling :: "ctx \<Rightarrow> raw list" where
  "detectHookPathDangling cx =
     (if \<not> settings_live cx then []
      else map (\<lambda>candidate.
             (raw_of ''settings.hook_path_dangling'' Integrity (cx_settingsFile cx)
                [''settings parsed'', ''hook command contains an absolute path that does not exist'']
                [''live /hooks view'', ''hook verification'']
                ''settings hook references a missing direct executable path''
                ''generate a patch preview only''
                [''mutate settings'', ''delete plugin cache'', ''claim fixed''])\<lparr>w_hardenable := True\<rparr>)
           (dangling_paths (cx_fs cx) (collectHookCommands (jr_value (cx_settings cx)))))"

definition detectHookCommandShellAmbiguous :: "ctx \<Rightarrow> raw list" where
  "detectHookCommandShellAmbiguous cx =
     (if \<not> settings_live cx then []
      else map (\<lambda>command.
             (raw_of ''settings.hook_command_shell_ambiguous'' Integrity (cx_settingsFile cx)
                [''settings parsed'', ''command string references plugin cache text'']
                [''shell parse certainty'', ''consented hook debug trace'']
                ''hook command contains a plugin-cache-looking path inside shell syntax''
                ''run a live hook debug probe after consent''
                [''patch command string'', ''call hook broken with certainty'', ''claim fixed''])
               \<lparr>w_surface := Some (surface_lit ExecutableSurface UserOwned PossiblyLoadBearing PrivatePath
                                     ShellExpansionRisk SnapshotPossible InScope Medium)\<rparr>)
           (nub (filter (\<lambda>c. looksShellAmbiguous c \<and> mentionsPluginCache c)
                   (collectHookCommands (jr_value (cx_settings cx))))))"

definition obj_entries :: "json \<Rightarrow> (string \<times> json) list" where
  \<comment> \<open>Object.entries\<close>
  "obj_entries j = (case j of JObj kvs \<Rightarrow> kvs
     | JArr xs \<Rightarrow> map (\<lambda>(i, x). (show_nat i, x)) (enumerate 0 xs) | _ \<Rightarrow> [])"

definition broken_mcp :: "ctx \<Rightarrow> json \<Rightarrow> string option" where
  \<comment> \<open>the missing absolute command of one server\<close>
  "broken_mcp cx server =
     (case jstr (jget ''command'' server) of
        None \<Rightarrow> None
      | Some c \<Rightarrow>
          if \<not> starts_with ''/'' c then None
          else if cx_mode cx = Safe \<and> isSectorBoundaryPath (cx_home cx) c then None
          else if existsSync (cx_fs cx) c then None else Some c)"

definition detectMcpCommandMissing :: "ctx \<Rightarrow> raw list" where
  "detectMcpCommandMissing cx =
     (if \<not> jr_ok (cx_settings cx) \<or> \<not> truthy (jget ''mcpServers'' (jr_value (cx_settings cx))) then []
      else List.map_filter (\<lambda>(name, server).
             map_option (\<lambda>command.
               (raw_of ''settings.mcp_command_missing'' Integrity (cx_settingsFile cx)
                  [''settings parsed'', ''mcpServers.'' @ name @ ''.command does not exist: '' @ command]
                  [''MCP server start verification'']
                  (''MCP server \"'' @ name @ ''\" references a missing absolute command path'')
                  ''generate a patch preview; do not start the server''
                  [''start MCP server'', ''claim fixed''])\<lparr>w_hardenable := True\<rparr>)
             (broken_mcp cx server))
           (obj_entries (the (jget ''mcpServers'' (jr_value (cx_settings cx))))))"

fun missing_cwds :: "fs \<Rightarrow> json \<Rightarrow> string list" where
  "missing_cwds s (JArr xs) = concat (map (missing_cwds s) xs)"
| "missing_cwds s (JObj kvs) =
     (case jstr (map_of kvs ''cwd'') of
        Some d \<Rightarrow> if starts_with ''/'' d \<and> \<not> existsSync s d then [d] else []
      | None \<Rightarrow> [])
     @ concat (map (\<lambda>kv. missing_cwds s (snd kv)) kvs)"
| "missing_cwds s _ = []"

definition detectHooksConfigDangling :: "ctx \<Rightarrow> raw list" where
  "detectHooksConfigDangling cx =
     (if \<not> settings_live cx then []
      else (case jget ''hooks'' (jr_value (cx_settings cx)) of
          None \<Rightarrow> []
        | Some tree \<Rightarrow>
            map (\<lambda>cwd.
               (raw_of ''hooks.config_dangling'' Integrity (cx_settingsFile cx)
                  [''settings parsed'', ''hook entry has a cwd that does not exist: '' @ cwd]
                  [''live /hooks view'']
                  (''settings hook has a missing cwd reference: '' @ cwd)
                  ''run harden to patch out the dangling hook entry''
                  [''claim hook is functional'', ''claim fixed''])\<lparr>w_hardenable := True\<rparr>)
              (nub (missing_cwds (cx_fs cx) tree))))"

end
