(* ===== verification/Plugin_Detectors.thy ===== *)
theory Plugin_Detectors
  imports Detectors
begin

text \<open>
  The plugin and registry detectors of scripts/lib/audit.mjs: cache versions no registry entry
  references, duplicate registrations, cache size, plugins unused past the grace window, and the
  local commands and skills that shadow, diverge from or lack a plugin.
\<close>

subsection \<open>The plugin registry\<close>

definition field :: "json \<Rightarrow> string \<Rightarrow> string option" where
  \<comment> \<open>a member of a registry record; the registry's members are strings\<close>
  "field r k = jstr (jget k r)"

definition field_or :: "json \<Rightarrow> string \<Rightarrow> string \<Rightarrow> string" where
  "field_or r k d = opt_str_or (field r k) d"

definition cache_path :: "string \<Rightarrow> string \<Rightarrow> string \<Rightarrow> string \<Rightarrow> string" where
  "cache_path home market name version = path_join [home, ''plugins'', ''cache'', market, name, version]"

definition entry_of_record :: "string \<Rightarrow> string \<Rightarrow> string \<Rightarrow> string \<Rightarrow> string \<Rightarrow> json \<Rightarrow> plugin_entry" where
  \<comment> \<open>{ key, scope, ...record, installPath }: a member of the record overrides the computed one\<close>
  "entry_of_record home key scope market name r =
     \<lparr>pe_key = opt_or (field r ''key'') key, pe_name = opt_or (field r ''name'') [],
      pe_scope = opt_or (field r ''scope'') scope, pe_project = opt_or (field r ''projectPath'') [],
      pe_install = field_or r ''installPath'' (cache_path home market name (field_or r ''version'' ''unknown''))\<rparr>"

definition split_key :: "string \<Rightarrow> string \<times> string" where
  \<comment> \<open>name and marketplace of name@marketplace, split at the last @\<close>
  "split_key key =
     (let at = CHR ''@''; m = rev (takeWhile (\<lambda>c. c \<noteq> at) (rev key));
          n = rev (drop 1 (dropWhile (\<lambda>c. c \<noteq> at) (rev key)))
      in if at \<in> set key \<and> n \<noteq> [] then (n, m) else (key, ''unknown''))"

definition flattenPluginEntries :: "json \<Rightarrow> string \<Rightarrow> err + plugin_entry list" where
  "flattenPluginEntries installed home =
     (case jget ''plugins'' installed of
        None \<Rightarrow> Inr []
      | Some (JArr rs) \<Rightarrow>
          Inr (map (\<lambda>r. (let market = field_or r ''marketplace'' ''unknown''; name = field_or r ''name'' ''unknown''
                         in entry_of_record home (market @ ''/'' @ name) (field_or r ''scope'' ''user'') market name r))
                (filter container rs))
      | Some (JObj kvs) \<Rightarrow>
          (let groups = List.map_filter (\<lambda>(k, v). map_option (Pair k) (jarr (Some v))) kvs
           in if list_ex (\<lambda>kr. list_ex (\<lambda>r. r = JNull) (snd kr)) groups
              then Inl (TypeError ''record is null'')
              else Inr (concat (map (\<lambda>(k, rs). (let (name, market) = split_key k
                          in map (entry_of_record home k [] market name) rs)) groups)))
      | _ \<Rightarrow> Inr [])"

definition plugin_resources ::
  "fs \<Rightarrow> (fs \<Rightarrow> string \<Rightarrow> (string \<times> string) list) \<Rightarrow> string \<Rightarrow> plugin_entry list \<Rightarrow> resource list" where
  \<comment> \<open>one half of collectPluginResources: what the installed plugins provide in a subdirectory\<close>
  "plugin_resources s collect sub es =
     concat (map (\<lambda>e. if pe_install e = [] \<or> \<not> existsSync s (pe_install e) then []
                      else map (\<lambda>(n, p). \<lparr>re_name = n, re_path = p, re_plugin = pe_key e\<rparr>)
                             (collect s (path_join [pe_install e, sub]))) es)"

definition providers :: "resource list \<Rightarrow> string \<Rightarrow> resource list" where
  "providers rs n = filter (\<lambda>r. re_name r = n) rs"

definition pluginsFor :: "resource list \<Rightarrow> string \<Rightarrow> string" where
  "pluginsFor rs n = join_with '', '' (map re_plugin (providers rs n))"

subsection \<open>Cache detectors\<close>

definition PLUGIN_ORPHAN_GRACE_MS :: int where
  "PLUGIN_ORPHAN_GRACE_MS = 7 * 24 * 60 * 60 * 1000"

definition PLUGIN_PRUNE_GRACE_DAYS :: int where
  "PLUGIN_PRUNE_GRACE_DAYS = 30"

definition cache_root :: "ctx \<Rightarrow> string" where
  "cache_root cx = path_join [cx_home cx, ''plugins'', ''cache'']"

definition cx_now :: "ctx \<Rightarrow> int" where
  "cx_now cx = e_now (ae_env (cx_env cx))"

definition pluginCacheOrphans :: "ctx \<Rightarrow> (string \<times> bool) list" where
  "pluginCacheOrphans cx =
     map (\<lambda>d. (d, cx_now cx - mtimeMs (cx_env cx) d \<le> PLUGIN_ORPHAN_GRACE_MS))
       (filter (\<lambda>d. d \<notin> set (map pe_install (cx_plugins cx)))
          (listCacheVersionDirs (cx_fs cx) (cache_root cx)))"

definition detectPluginExpectedOrphan :: "ctx \<Rightarrow> raw list" where
  "detectPluginExpectedOrphan cx =
     map (\<lambda>(p, g). (raw_of ''plugin.expected_orphan'' Hygiene p
            [''installed registry parsed'', ''version not referenced by installed registry'']
            [''live active-session reference check'']
            ''old plugin cache version appears to be an expected orphan'' ''no action now''
            [''call unused'', ''quarantine'', ''delete''])
          \<lparr>w_cacheHint := True, w_freshness := [''within-grace-period'']\<rparr>)
       (filter snd (pluginCacheOrphans cx))"

definition detectPluginCacheUnreferenced :: "ctx \<Rightarrow> raw list" where
  "detectPluginCacheUnreferenced cx =
     map (\<lambda>(p, g). (raw_of ''plugin.cache_unreferenced'' Hygiene p
            [''installed registry parsed'', ''version directory is outside known references'']
            [''active session, process reference, or retention policy evidence'', ''behavioral-key'']
            ''plugin cache version is not referenced by known registry evidence''
            ''run freshness probe or review manually''
            [''call unused'', ''delete'', ''quarantine without Housekeeper rollback proof''])
          \<lparr>w_cacheHint := True\<rparr>)
       (filter (\<lambda>pg. \<not> snd pg) (pluginCacheOrphans cx))"

definition detectPluginCacheReferencedByHook :: "ctx \<Rightarrow> raw list" where
  "detectPluginCacheReferencedByHook cx =
     (let cmds = collectHookCommands (jr_value (cx_settings cx))
      in if \<not> settings_live cx \<or> cmds = [] then []
         else List.map_filter (\<lambda>d.
            (let n = length (filter (contains d) cmds)
             in if n = 0 then None
                else Some ((raw_of ''plugin.cache_referenced_by_hook'' Contamination d
                   [''plugin cache version directory referenced by a settings hook command'',
                    ''referenced by '' @ show_nat n @ '' hook command(s)'']
                   []
                   ''plugin cache version is referenced by a settings hook; cleaning would break the hook''
                   ''remove the hook or pin a different plugin version before cleaning this cache''
                   [''delete cache version'', ''call unused''])
                 \<lparr>w_claim := Some ClaimFinding, w_cacheHint := True, w_force := Some Protect\<rparr>)))
           (listCacheVersionDirs (cx_fs cx) (cache_root cx)))"

definition scope_text :: "plugin_entry \<Rightarrow> string" where
  "scope_text e = str_or (pe_scope e) ''unknown'' @ '':'' @ pe_project e"

definition detectPluginDuplicateRegistration :: "ctx \<Rightarrow> raw list" where
  "detectPluginDuplicateRegistration cx =
     List.map_filter (\<lambda>key.
       (let es = filter (\<lambda>e. pe_key e = key) (cx_plugins cx); scopes = nub (map scope_text es)
        in if 1 < length es \<or> 1 < length scopes
           then Some (raw_of ''plugin.duplicate_registration'' Divergence
                  (path_join [cx_home cx, ''plugins'', ''installed_plugins.json''])
                  [key @ '' has '' @ show_nat (length es) @ '' registrations across ''
                     @ show_nat (length scopes) @ '' scope(s)'']
                  [''user-intent''] (key @ '' is registered in multiple scopes'')
                  ''review intent before any change''
                  [''mutate registry without intent confirmation''])
           else None))
      (nub (map pe_key (cx_plugins cx)))"

definition cache_group :: "string \<Rightarrow> string \<Rightarrow> string option" where
  \<comment> \<open>market/plugin of a version directory\<close>
  "cache_group root d =
     (case split_on sep (path_relative root d) of
        a # b # rest \<Rightarrow> Some (a @ ''/'' @ b) | _ \<Rightarrow> None)"

definition detectPluginCacheSize :: "ctx \<Rightarrow> raw option" where
  "detectPluginCacheSize cx =
     (let root = cache_root cx; dirs = listCacheVersionDirs (cx_fs cx) root;
          sizes = map (\<lambda>d. (d, dirSize (cx_fs cx) d)) dirs;
          tot = sum_list (map snd sizes);
          keys = nub (List.map_filter (\<lambda>dz. cache_group root (fst dz)) sizes);
          groups = map (\<lambda>k. (let zs = filter (\<lambda>dz. cache_group root (fst dz) = Some k) sizes
                             in (k, sum_list (map snd zs), length zs))) keys;
          tops = map (\<lambda>(k, b, n). ''largest: '' @ k @ '' ('' @ formatBytes b @ '' across '' @ show_nat n
                           @ (if n = 1 then '' version)'' else '' versions)''))
                  (take 3 (sort_key (\<lambda>(k, b, n). - int b) groups))
      in if dirs = [] then None
         else Some ((raw_of ''plugin.cache_size'' Orientation root
                ([''plugin cache contains '' @ show_nat (length dirs) @ '' version directories'',
                  ''total size '' @ formatBytes tot] @ tops)
                []
                (''plugin cache uses '' @ formatBytes tot @ '' across '' @ show_nat (length dirs)
                   @ '' version directories'')
                ''none'' [])\<lparr>w_claim := Some ClaimObservation\<rparr>))"

subsection \<open>Registry detectors\<close>

definition detectLocalSkillShadow :: "ctx \<Rightarrow> raw list" where
  "detectLocalSkillShadow cx =
     List.map_filter (\<lambda>(n, p).
        if providers (cx_skills cx) n = [] then None
        else Some (raw_of ''registry.local_skill_shadow'' Shadow p
               [''local skill name matches plugin-provided skill from '' @ pluginsFor (cx_skills cx) n]
               [''user-intent''] (n @ '' shadows plugin skill'')
               ''decide whether the override is intentional'' [''overwrite local edits'']))
      (collectSkills (cx_fs cx) (path_join [cx_home cx, ''skills'']))"

fun some_same_hash :: "ctx \<Rightarrow> string \<Rightarrow> resource list \<Rightarrow> err + bool" where
  \<comment> \<open>pluginCommands.some((c) => hashFile(c.path) === localHash)\<close>
  "some_same_hash cx h [] = Inr False"
| "some_same_hash cx h (r # rs) =
     bindE (audit_hashFile cx (re_path r)) (\<lambda>k. if k = h then Inr True else some_same_hash cx h rs)"

definition identity_raw :: "bool \<Rightarrow> string \<Rightarrow> string \<Rightarrow> raw" where
  "identity_raw identical n p =
     (if identical
      then raw_of ''registry.local_command_identical'' Shadow p
             [''local command is byte-identical to plugin version'']
             [''user-intent''] (n @ '' is byte-identical to plugin version'')
             ''show source, target, and precedence; await user intent'' [''overwrite local edits'']
      else raw_of ''registry.local_command_diverged'' Divergence p
             [''local command has diverged from plugin version'']
             [''user-intent''] (n @ '' has diverged from plugin version'')
             ''show both versions and let the user decide'' [''overwrite local edits''])"

fun identity_findings :: "ctx \<Rightarrow> bool \<Rightarrow> (string \<times> string) list \<Rightarrow> err + raw list" where
  "identity_findings cx identical [] = Inr []"
| "identity_findings cx identical ((n, p) # cs) =
     (let pcs = providers (cx_commands cx) n; rest = identity_findings cx identical cs
      in if pcs = [] then rest
         else bindE (audit_hashFile cx p) (\<lambda>h. bindE (some_same_hash cx h pcs) (\<lambda>same.
              bindE rest (\<lambda>rs. Inr (if identical = same then identity_raw identical n p # rs else rs)))))"

definition localCommandIdentityFindings :: "ctx \<Rightarrow> bool \<Rightarrow> err + raw list" where
  "localCommandIdentityFindings cx identical =
     identity_findings cx identical (collectCommands (cx_fs cx) (path_join [cx_home cx, ''commands'']))"

definition fm_key_char :: "char \<Rightarrow> bool" where
  "fm_key_char c = (is_alnum c \<or> c = CHR ''_'' \<or> c = CHR ''-'')"

definition is_quote :: "char \<Rightarrow> bool" where
  "is_quote c = (c = quote \<or> c = CHR 0x27)"

definition strip_quotes :: "string \<Rightarrow> string" where
  \<comment> \<open>v.replace(/^["']|["']$/g, "")\<close>
  "strip_quotes v =
     (let a = (if v \<noteq> [] \<and> is_quote (hd v) then tl v else v)
      in if a \<noteq> [] \<and> is_quote (last a) then butlast a else a)"

definition fm_line :: "string \<Rightarrow> (string \<times> string) option" where
  \<comment> \<open>/^([A-Za-z0-9_-]+):\s*(.*)$/\<close>
  "fm_line l =
     (let k = takeWhile fm_key_char l; r = dropWhile fm_key_char l
      in if k = [] \<or> \<not> starts_with '':'' r then None
         else (let v = dropWhile is_space (tl r)
               in if CHR 0x0D \<in> set v then None else Some (k, strip_quotes v)))"

definition parseFrontmatter :: "string \<Rightarrow> (string \<times> string) list option" where
  \<comment> \<open>the members, later lines first\<close>
  "parseFrontmatter text =
     (if \<not> starts_with (''---'' @ [nl]) text then None
      else (case index_of (nl # ''---'') (drop 4 text) of
              None \<Rightarrow> None
            | Some i \<Rightarrow> Some (rev (List.map_filter fm_line (split_on nl (take i (drop 4 text)))))))"

definition broken_frontmatter :: "bool \<Rightarrow> string \<Rightarrow> bool" where
  "broken_frontmatter skill text =
     (case parseFrontmatter text of
        None \<Rightarrow> True
      | Some kvs \<Rightarrow> opt_or (map_of kvs (if skill then ''name'' else ''description'')) [] = [])"

definition detectRegistryBrokenFrontmatter :: "ctx \<Rightarrow> raw list" where
  "detectRegistryBrokenFrontmatter cx =
     List.map_filter (\<lambda>(skill, n, p).
        if \<not> broken_frontmatter skill (readText cx p) then None
        else Some (raw_of ''registry.broken_frontmatter'' Integrity p
               [n @ '' has missing or incomplete YAML frontmatter''] [''valid frontmatter for loader'']
               (n @ '' has missing or incomplete YAML frontmatter'') ''generate a patch preview''
               [''overwrite without backup'']))
      (map (Pair True) (collectSkills (cx_fs cx) (path_join [cx_home cx, ''skills'']))
       @ map (Pair False) (collectCommands (cx_fs cx) (path_join [cx_home cx, ''commands''])))"

definition detectRegistryCommandDangling :: "ctx \<Rightarrow> raw list" where
  "detectRegistryCommandDangling cx =
     List.map_filter (\<lambda>(n, p).
        if providers (cx_commands cx) n \<noteq> [] then None
        else Some ((raw_of ''registry.command_dangling'' Hygiene p
               [''local command file has no corresponding installed plugin'', ''file: '' @ p]
               [''user-intent for the dangling command file'']
               (''command \"'' @ n @ ''\" has no backing plugin and may be orphaned'')
               ''review whether the file was left by an uninstalled plugin, then run clean''
               [''delete without user confirmation''])\<lparr>w_cleanable := True\<rparr>))
      (collectCommands (cx_fs cx) (path_join [cx_home cx, ''commands'']))"

definition detectSkillsEntryDangling :: "ctx \<Rightarrow> raw list" where
  "detectSkillsEntryDangling cx =
     (let dir = path_join [cx_home cx, ''skills'']
      in if \<not> existsSync (cx_fs cx) dir then []
         else List.map_filter (\<lambda>en.
           (let d = path_join [dir, en]
            in if \<not> is_directory (cx_fs cx) d \<or> existsSync (cx_fs cx) (path_join [d, ''SKILL.md'']) then None
               else Some ((raw_of ''registry.skills_entry_dangling'' Hygiene d
                  [''skill directory exists but SKILL.md is missing: '' @ d]
                  [''user-intent for the orphan skill directory'']
                  (''skill directory \"'' @ en @ ''\" has no SKILL.md and is orphaned'')
                  ''review whether the directory was left by a partial install, then run clean''
                  [''delete without user confirmation''])\<lparr>w_cleanable := True\<rparr>)))
          (readdirSafe (cx_fs cx) dir))"

subsection \<open>Unused plugins\<close>

definition countLearningActivity :: "string \<Rightarrow> ctx \<Rightarrow> err + nat" where
  \<comment> \<open>a record that is null makes entry.ts throw\<close>
  "countLearningActivity install cx =
     (let since = cx_now cx - PLUGIN_PRUNE_GRACE_DAYS * DAY_MS
      in if list_ex (\<lambda>en. en = JNull) (cx_applied cx) then Inl (TypeError ''entry is null'')
         else Inr (length (filter (\<lambda>en. recent (ae_env (cx_env cx)) since en
                \<and> list_ex (\<lambda>t. case jstr (Some t) of None \<Rightarrow> False | Some p \<Rightarrow> starts_with install p)
                    (opt_or (jarr (jget ''targets'' en)) [])) (cx_applied cx))))"

definition history_candidates :: "ctx \<Rightarrow> string list" where
  "history_candidates cx =
     (let ov = str_or (cx_historyFile cx) (ae_historyVar (cx_env cx)); h = ae_homedir (cx_env cx)
      in if ov \<noteq> [] then [ov] else [path_join [h, ''.zsh_history''], path_join [h, ''.bash_history'']])"

definition scanShellHistory :: "string \<Rightarrow> ctx \<Rightarrow> int" where
  "scanShellHistory pluginKey cx =
     (if cx_mode cx = Safe then -1
      else (case List.map_filter (\<lambda>f. case read_file (cx_fs cx) f of Inl x \<Rightarrow> None | Inr t \<Rightarrow> Some t)
                   (history_candidates cx) of
              [] \<Rightarrow> -1
            | t # ts \<Rightarrow> int (length (filter (\<lambda>l. contains (to_lower pluginKey) (to_lower l)) (split_on nl t)))))"

definition unused_raw :: "plugin_entry \<Rightarrow> int \<Rightarrow> bool \<Rightarrow> raw" where
  "unused_raw en daysOld available =
     (let grace = show_int PLUGIN_PRUNE_GRACE_DAYS
      in (raw_of ''plugin.unused_past_grace'' Hygiene (pe_install en)
            [''plugin installed at '' @ pe_install en,
             ''installed approximately '' @ show_int daysOld @ '' days ago'',
             ''no clean/harden activity in last '' @ grace @ '' days'',
             (if available then ''no slash-command invocation found in shell history''
              else ''shell history not readable; activity signal degraded'')]
            [''live evidence the user does not want this plugin'',
             ''telemetry of plugin use beyond shell history'']
            (''plugin '' @ str_or (pe_key en) (str_or (pe_name en) (pe_install en))
               @ '' has not been active in '' @ show_int daysOld @ '' days'')
            ''review and consider `claude plugin uninstall` manually''
            [''uninstall plugin automatically'', ''call plugin not wanted''])
          \<lparr>w_claim := Some ClaimObservation, w_freshness := [''grace window: '' @ grace @ ''d''],
           w_surface := Some (surface_lit ClaudeAppData ClaudeManaged PossiblyLoadBearing PrivatePath
                                Inert SnapshotPossible InScope Medium),
           w_force := Some Inform, w_history := Some available\<rparr>)"

fun unused_plugins :: "ctx \<Rightarrow> plugin_entry list \<Rightarrow> err + raw list" where
  \<comment> \<open>context.config never has a pruneGraceDays member (loadConfig returns file, rules, error),
      so the window is always the default\<close>
  "unused_plugins cx [] = Inr []"
| "unused_plugins cx (en # ens) =
     (let age = cx_now cx - mtimeMs (cx_env cx) (pe_install en);
          hits = scanShellHistory (str_or (pe_key en) (pe_name en)) cx;
          rest = unused_plugins cx ens
      in if pe_install en = [] \<or> \<not> existsSync (cx_fs cx) (pe_install en) then rest
         else if age < PLUGIN_PRUNE_GRACE_DAYS * DAY_MS then rest
         else bindE (countLearningActivity (pe_install en) cx) (\<lambda>n.
              if 0 < n \<or> 0 < hits then rest
              else bindE rest (\<lambda>rs. Inr (unused_raw en (age div DAY_MS) (hits \<noteq> -1) # rs))))"

definition detectPluginUnusedPastGrace :: "ctx \<Rightarrow> err + raw list" where
  "detectPluginUnusedPastGrace cx = unused_plugins cx (cx_plugins cx)"

end
