(* ===== verification/Report.thy ===== *)
theory Report
  imports Plugin_Detectors
begin

text \<open>
  The detectors of Housekeeper's own state, loadContext and assembleReport
  (scripts/lib/audit.mjs): the whole audit as one function from the file system to a report.
\<close>

subsection \<open>Housekeeper's own state\<close>

definition hk_surface :: "rollback_class \<Rightarrow> surface" where
  "hk_surface rb = surface_lit HousekeeperOwnedSurf HousekeeperOwned NotLoadBearing PrivatePath
                     Inert rb InScope High"

definition op_status_text :: "json \<Rightarrow> string" where
  \<comment> \<open>parsed.value.status || "unknown"\<close>
  "op_status_text m = (if truthy (jget ''status'' m) then js_text (jget ''status'' m) else ''unknown'')"

record open_op =
  oo_file :: string
  oo_id :: string
  oo_status :: string
  oo_legacy :: bool

definition open_operation :: "ctx \<Rightarrow> string \<Rightarrow> open_op option" where
  \<comment> \<open>one turn of the loop over the operations directory\<close>
  "open_operation cx name =
     (if \<not> ends_with ''.json'' name then None
      else (let file = path_join [op_path (cx_ops cx), name]; r = audit_readJson (cx_env cx) (cx_fs cx) file;
                v = jr_value r; legacy = jget ''schemaVersion'' v \<noteq> Some (JStr ''0.2'')
            in if \<not> jr_ok r \<or> \<not> truthy (Some v) then None
               else if \<not> legacy \<and> (case jstr (jget ''status'' v) of None \<Rightarrow> False
                      | Some st \<Rightarrow> List.member [''verified'', ''rolled_back'', ''aborted''] st) then None
               else Some \<lparr>oo_file = file, oo_id = basename_ext file ''.json'',
                          oo_status = (if legacy then ''planned'' else op_status_text v), oo_legacy = legacy\<rparr>))"

definition interrupted_raw :: "open_op \<Rightarrow> raw" where
  "interrupted_raw o1 =
     (let i = oo_id o1; st = oo_status o1; preApply = (st = ''snapshot_taken'' \<or> st = ''planned'')
      in (raw_of ''housekeeper.interrupted_operation'' Integrity (oo_file o1)
            (if oo_legacy o1
             then [''operation id '' @ i @ '' exists'', ''manifest schemaVersion is legacy'', ''status assumed planned'']
             else [''operation id '' @ i @ '' exists'', ''manifest status is '' @ st])
            [''recovery decision for interrupted operation'']
            (if oo_legacy o1
             then ''Found legacy operation manifest (pre-v0.2); status assumed planned for '' @ i
             else ''Housekeeper operation '' @ i @ '' is interrupted with status '' @ st)
            (''rollback '' @ i @ (if preApply then '' --abort'' else []))
            [''start new mutation operation'', ''overwrite operation manifest'', ''hide Housekeeper self-failure''])
          \<lparr>w_surface := Some (hk_surface ManifestBacked),
           w_reversibility := [''manifest-present-but-incomplete''], w_force := Some Block\<rparr>)"

definition detectInterruptedOperation :: "ctx \<Rightarrow> raw option" where
  "detectInterruptedOperation cx =
     (if \<not> op_exists (cx_ops cx) \<or> op_unreadable (cx_ops cx) then None
      else (case List.map_filter (open_operation cx) (op_names (cx_ops cx)) of
              [] \<Rightarrow> None | o1 # os \<Rightarrow> Some (interrupted_raw o1)))"

definition detectHousekeeperConfigInvalid :: "ctx \<Rightarrow> raw option" where
  "detectHousekeeperConfigInvalid cx =
     (case cfg_error (cx_config cx) of
        None \<Rightarrow> None
      | Some er \<Rightarrow>
          (let file = opt_str_or (cfg_file (cx_config cx)) (path_join [cx_home cx, ''housekeeper'', ''config.json''])
           in if er = [] then None
              else Some ((raw_of ''housekeeper.config_invalid'' Orientation file
                 [''Housekeeper config at '' @ file @ '' could not be parsed'', ''parser error: '' @ er,
                  ''audit continued with default policy (no doNotTouch rules)'']
                 [''valid Housekeeper policy'']
                 ''Housekeeper config is invalid JSON; running with defaults''
                 ''edit the config manually or remove it to restore defaults''
                 [''overwrite config without user review''])
               \<lparr>w_claim := Some ClaimObservation, w_surface := Some (hk_surface SnapshotPossible),
                w_force := Some Inform\<rparr>)))"

definition detectHousekeeperOperationsUnreadable :: "ctx \<Rightarrow> raw option" where
  "detectHousekeeperOperationsUnreadable cx =
     (let o1 = cx_ops cx
      in if \<not> op_unreadable o1 then None
         else Some ((raw_of ''housekeeper.operations_unreadable'' Orientation (op_path o1)
              [''operations directory exists at '' @ op_path o1,
               ''directory is not readable: '' @ str_or (op_error o1) ''unknown error'',
               ''interrupted-operation detector skipped due to read failure'']
              [''operations manifest readability''] ''Housekeeper operations directory is unreadable''
              ''fix permissions or report the environment damage''
              [''assume no interrupted operation'', ''start a new mutation''])
            \<lparr>w_claim := Some ClaimObservation, w_surface := Some (hk_surface ManifestBacked),
             w_force := Some Inform\<rparr>))"

definition stale_lock_raw :: "string \<Rightarrow> string list \<Rightarrow> raw" where
  "stale_lock_raw lp evidence =
     (raw_of ''housekeeper.stale_lock'' Orientation lp evidence []
        ''stale Housekeeper lockfile detected; previous clean/rollback never completed''
        ''verify no other clean/rollback is running, then remove the lockfile manually''
        [''start a new clean operation'', ''start a new rollback operation''])
      \<lparr>w_claim := Some ClaimObservation, w_force := Some Inform\<rparr>"

definition detectHousekeeperStaleLock :: "ctx \<Rightarrow> err + raw option" where
  "detectHousekeeperStaleLock cx =
     (let lp = path_join [cx_home cx, ''housekeeper'', ''lock'']; s = cx_fs cx; e = ae_env (cx_env cx)
      in if \<not> existsSync s lp then Inr None
         else (case read_json s lp of
             Inl x \<Rightarrow> Inr (Some (stale_lock_raw lp [''lockfile present but unreadable'']))
           | Inr m \<Rightarrow>
               if m = JNull then Inl (TypeError ''manifest is null'')
               else (case jstr (jget ''stalenessAt'' m) of
                   None \<Rightarrow> Inr (Some (stale_lock_raw lp [''lockfile present but unreadable'']))
                 | Some t \<Rightarrow>
                     if (case e_date e t of Some ms \<Rightarrow> e_now e < ms | None \<Rightarrow> False) then Inr None
                     else Inr (Some (stale_lock_raw lp
                            [''lockfile started at '' @ js_text (jget ''startedAt'' m),
                             ''staleness window passed at '' @ t,
                             ''originating pid: '' @ js_text (jget ''pid'' m) @ '' on '' @ js_text (jget ''hostname'' m)])))))"

definition detectHomeNotFound :: "string \<Rightarrow> raw" where
  "detectHomeNotFound home =
     (raw_of ''home.not_found'' Integrity home
        [''requested home does not exist or is not a directory: '' @ home]
        [''accessible Claude home directory''] ''Claude home directory was not found''
        ''verify --home value or create the directory before re-running''
        [''dependent inference'', ''settings parsing'', ''plugin scan'', ''operations scan''])
      \<lparr>w_surface := Some (surface_lit ExternalReference UserOwned LoadUnknown SensUnknown Inert
                            NotApplicable InScope High), w_force := Some Block\<rparr>"

fun reason_text :: "degraded_reason \<Rightarrow> string" where
  "reason_text MaxFiles = ''max-files''"
| "reason_text MaxWallMs = ''max-wall-ms''"
| "reason_text UnreadableDirectory = ''unreadable-directory''"

definition budget_text :: "walk_degraded \<Rightarrow> string option" where
  "budget_text d =
     map_option (\<lambda>n. (if wd_reason d = MaxWallMs then ''maxWallMs='' else ''maxFiles='') @ show_int n) (wd_budget d)"

definition detectScanBudget :: "ctx \<Rightarrow> raw option" where
  "detectScanBudget cx =
     (let scan = cx_projects cx; reasons = nub (map (\<lambda>d. reason_text (wd_reason d)) (w_degraded scan));
          budgets = nub (List.map_filter budget_text (w_degraded scan))
      in if \<not> w_stopped scan then None
         else Some ((raw_of ''home.scan_budget_hit'' Orientation (cx_projectsRoot cx)
             ([''bounded scan stopped after '' @ show_nat (length (w_entries scan)) @ '' entries'',
               ''budget hit: '' @ str_or (join_with '', '' reasons) ''scan-degraded'']
              @ map (\<lambda>b. ''limit: '' @ b) budgets)
             [''full-traversal of remaining project history'']
             (''bounded scan stopped early at '' @ cx_projectsRoot cx)
             ''rerun with explicit larger budget or narrower scope''
             [''summarize scan as complete'', ''propose action from partial project-history evidence''])
           \<lparr>w_claim := Some ClaimObservation,
            w_surface := Some (surface_lit ClaudeAppData ClaudeManaged NotLoadBearing PrivatePath Inert
                                 NotApplicable InScope High)\<rparr>))"

definition detectHomeClean :: "ctx \<Rightarrow> raw" where
  "detectHomeClean cx =
     (raw_of ''home.clean'' Orientation (cx_home cx)
        [''settings parsed'', ''plugin registry parsed'', ''hook direct paths exist'']
        [''live Claude probes were not run in safe mode''] ''no first-wedge issues found'' ''none''
        [''claim healthy''])
      \<lparr>w_claim := Some ClaimObservation,
       w_surface := Some (surface_lit AuthoredConfig UserOwned KnownLoadBearing PrivatePath Inert
                            SnapshotPossible InScope Medium)\<rparr>"

subsection \<open>loadContext\<close>

definition marker_key :: "json \<Rightarrow> string option" where
  "marker_key m =
     (case (jstr (jget ''targetDetector'' m), jstr (jget ''targetPath'' m)) of
        (Some d, Some p) \<Rightarrow> Some (d @ ''|'' @ p) | _ \<Rightarrow> None)"

definition loadFalsePositiveMarkers :: "fs \<Rightarrow> string \<Rightarrow> err + (string \<times> nat) list" where
  "loadFalsePositiveMarkers s home =
     (let file = path_join [home, ''housekeeper'', ''learning'', ''state.json'']
      in if \<not> existsSync s file then Inr []
         else (case read_json s file of
             Inl x \<Rightarrow> Inr []
           | Inr p \<Rightarrow>
               if p = JNull then Inl (TypeError ''parsed is null'')
               else (let ms = opt_or (jarr (jget ''falsePositives'' p)) []
                     in if list_ex (\<lambda>m. m = JNull) ms then Inl (TypeError ''marker is null'')
                        else Inr (tally [] (List.map_filter marker_key ms)))))"

definition loadAppliedEntries :: "fs \<Rightarrow> string \<Rightarrow> json list" where
  "loadAppliedEntries s home =
     (case read_file s (path_join [home, ''housekeeper'', ''learning'', ''applied.jsonl'']) of
        Inl x \<Rightarrow> [] | Inr text \<Rightarrow> parse_jsonl text)"

definition err_code :: "err \<Rightarrow> string" where
  "err_code x = (case x of ENOTDIR p \<Rightarrow> ''ENOTDIR'' | ENOENT p \<Rightarrow> ''ENOENT'' | EISDIR p \<Rightarrow> ''EISDIR''
     | EEXIST p \<Rightarrow> ''EEXIST'' | _ \<Rightarrow> ''unknown'')"

definition probeOperationsDir :: "fs \<Rightarrow> string \<Rightarrow> ops_probe" where
  "probeOperationsDir s home =
     (let p = path_join [home, ''housekeeper'', ''operations'']
      in if \<not> existsSync s p
         then \<lparr>op_path = p, op_exists = False, op_unreadable = False, op_names = [], op_error = []\<rparr>
         else (case read_dir s p of
             Inr ns \<Rightarrow> \<lparr>op_path = p, op_exists = True, op_unreadable = False, op_names = ns, op_error = []\<rparr>
           | Inl x \<Rightarrow> \<lparr>op_path = p, op_exists = True, op_unreadable = True, op_names = [], op_error = err_code x\<rparr>))"

definition degraded_of :: "walk_degraded \<Rightarrow> degraded_entry" where
  "degraded_of d = \<lparr>d_reason = reason_text (wd_reason d), d_path = wd_path d, d_budget = budget_text d,
                    d_effect = None, d_nextStep = None\<rparr>"

definition loadContext :: "audit_env \<Rightarrow> string \<Rightarrow> audit_opts \<Rightarrow> fs \<Rightarrow> err + ctx" where
  "loadContext ae home opts s =
     (let limits = pickScanLimits (ao_maxFiles opts) (ao_maxBytes opts) (ao_maxWallMs opts);
          settingsFile = path_join [home, ''settings.json''];
          installed = audit_readJson ae s (path_join [home, ''plugins'', ''installed_plugins.json'']);
          projectsRoot = path_join [home, ''projects''];
          scan = (case walkBounded s (mtimeMs ae) (ae_elapsed ae) projectsRoot
                         (Some (al_maxFiles limits)) (Some (al_maxWallMs limits)) of
                    Some r \<Rightarrow> r | None \<Rightarrow> \<lparr>w_entries = [], w_degraded = [], w_stopped = False\<rparr>);
          ops = probeOperationsDir s home
      in bindE (flattenPluginEntries (jr_value installed) home) (\<lambda>es.
         bindE (loadFalsePositiveMarkers s home) (\<lambda>markers.
           Inr \<lparr>cx_fs = s, cx_env = ae, cx_home = home, cx_mode = ao_mode opts,
                cx_settings = audit_readJson ae s settingsFile, cx_settingsFile = settingsFile,
                cx_config = loadConfig s home (ao_configPath opts), cx_plugins = es,
                cx_skills = plugin_resources s collectSkills ''skills'' es,
                cx_commands = plugin_resources s collectCommands ''commands'' es,
                cx_projectsRoot = projectsRoot, cx_projects = scan, cx_ops = ops,
                cx_degraded = map degraded_of (w_degraded scan) @
                  (if op_unreadable ops
                   then [\<lparr>d_reason = ''operations-unreadable'', d_path = op_path ops, d_budget = None,
                          d_effect = Some ''interrupted-operation detector skipped'',
                          d_nextStep = Some ''fix permissions on the operations directory''\<rparr>]
                   else []),
                cx_markers = markers, cx_applied = loadAppliedEntries s home,
                cx_historyFile = ao_historyFile opts\<rparr>)))"

definition collectPolicyMatches :: "string \<Rightarrow> ctx \<Rightarrow> policy_match list" where
  "collectPolicyMatches targetPath cx =
     map (\<lambda>r. \<lparr>pm_type = DoNotTouch, pm_pattern = opt_or (rule_path r) [], pm_path = targetPath,
               pm_reason = str_or (rule_reason r) ''do-not-touch rule'',
               pm_scope = str_or (rule_scope r) ''user'', pm_effect = ''stance protect, action none''\<rparr>)
       (filter (rule_hits (cx_home cx) targetPath) (cfg_rules (cx_config cx)))"

subsection \<open>assembleReport\<close>

definition detector_outputs :: "string list \<Rightarrow> ctx \<Rightarrow> err + raw list" where
  "detector_outputs sel cx =
     bindE (detectHousekeeperStaleLock cx) (\<lambda>lockOut.
     bindE (detectPluginUnusedPastGrace cx) (\<lambda>unused.
     bindE (localCommandIdentityFindings cx True) (\<lambda>identical.
     bindE (localCommandIdentityFindings cx False) (\<lambda>diverged.
       (let out = push sel (detectHousekeeperConfigInvalid cx)
            @ push sel (detectHousekeeperOperationsUnreadable cx)
            @ push sel lockOut
            @ push sel (detectSettingsInvalidJson cx)
            @ push sel (detectSettingsJsoncDetected cx)
            @ pushAll sel (detectHookPathDangling cx)
            @ pushAll sel (detectHookCommandShellAmbiguous cx)
            @ pushAll sel (detectMcpCommandMissing cx)
            @ pushAll sel (detectHooksConfigDangling cx)
            @ pushAll sel (detectPluginExpectedOrphan cx)
            @ pushAll sel (detectPluginCacheUnreferenced cx)
            @ pushAll sel (detectPluginCacheReferencedByHook cx)
            @ pushAll sel (detectPluginDuplicateRegistration cx)
            @ push sel (detectPluginCacheSize cx)
            @ pushAll sel unused
            @ pushAll sel (detectLocalSkillShadow cx)
            @ pushAll sel identical
            @ pushAll sel diverged
            @ pushAll sel (detectRegistryBrokenFrontmatter cx)
            @ pushAll sel (detectRegistryCommandDangling cx)
            @ pushAll sel (detectSkillsEntryDangling cx)
            @ push sel (detectInterruptedOperation cx)
            @ push sel (detectScanBudget cx)
        in Inr (if out = [] then push sel (Some (detectHomeClean cx)) else out))))))"

definition earlyReport :: "env \<Rightarrow> string \<Rightarrow> mode \<Rightarrow> raw list \<Rightarrow> report" where
  "earlyReport e home m outs =
     report_of e home m (map (\<lambda>r. buildFinding r home m (\<lambda>t. []) []) outs) []"

definition assembleReport :: "audit_env \<Rightarrow> string \<Rightarrow> audit_opts \<Rightarrow> fs \<Rightarrow> err + report" where
  "assembleReport ae home opts s =
     (case selectedDetectors (str_or (ao_scope opts) ''all'') of
        None \<Rightarrow> Inl (TypeError ''Unknown scope'')
      | Some sel \<Rightarrow>
          if \<not> existsSync s home \<or> \<not> is_directory s home
          then Inr (earlyReport (ae_env ae) home (ao_mode opts) [detectHomeNotFound home])
          else bindE (loadContext ae home opts s) (\<lambda>cx.
               bindE (detector_outputs sel cx) (\<lambda>outs.
                 Inr (report_of (ae_env ae) home (ao_mode opts)
                   (map (\<lambda>r. buildFinding r home (ao_mode opts) (\<lambda>t. collectPolicyMatches t cx) (cx_markers cx)) outs)
                   (cx_degraded cx)))))"

end
