(* ===== verification/Audit_Facts.thy ===== *)
theory Audit_Facts
  imports Report
begin

text \<open>
  What an audit report promises: policy and secrecy reach every finding, every finding belongs to
  the selected scope, the summary counts the findings, the primary finding has the highest
  priority present, and a missing home is one block finding.
\<close>

subsection \<open>Findings\<close>

lemma f_stance_buildFinding:
  "f_stance (buildFinding r home m pol mk) =
     (let st = opt_or (w_force r) (p_stance (finding_stance r
         (applySafeModeLimits (case w_surface r of Some x \<Rightarrow> x
            | None \<Rightarrow> classifySurface (w_target r)
                 (no_hints\<lparr>h_home := Some home, h_isPluginCacheVersionDir := w_cacheHint r\<rparr>)) m (w_id r))
         (if w_target r = [] then [] else pol (w_target r)) m))
      in if st = Repair then Prepare else st)"
  by (simp add: buildFinding_def Let_def makeFinding_def)

lemma buildFinding_id [simp]: "f_id (buildFinding r home m pol mk) = w_id r"
  and buildFinding_target [simp]: "f_targetPath (buildFinding r home m pol mk) = w_target r"
  by (simp_all add: buildFinding_def Let_def makeFinding_def)

lemma not_repair [simp]: "f_stance (buildFinding r home m pol mk) \<noteq> Repair"
  by (simp add: f_stance_buildFinding Let_def)

lemma applySafeModeLimits_keeps [simp]:
  "surfaceClass (applySafeModeLimits sf m i) = surfaceClass sf"
  "ownerClass (applySafeModeLimits sf m i) = ownerClass sf"
  "sensitivityClass (applySafeModeLimits sf m i) = sensitivityClass sf"
  "rollbackClass (applySafeModeLimits sf m i) = rollbackClass sf"
  "scopeClass (applySafeModeLimits sf m i) = scopeClass sf"
  "executionClass (applySafeModeLimits sf m i) = executionClass sf"
  "loadBearingClass (applySafeModeLimits sf m i) = loadBearingClass sf"
  by (simp_all add: applySafeModeLimits_def split: option.splits)

subsection \<open>Policy and secrets\<close>

lemma abs_path_not_Nil: "P \<noteq> [] \<Longrightarrow> abs_path P \<noteq> []"
  by (cases P) auto

lemma rule_hits_subtree:
  assumes "\<forall>s \<in> set (P @ Q). valid_seg s" "P \<noteq> []" "last P \<noteq> ''*''" "last P \<noteq> ''**''"
    and "rule_path r = Some (abs_path P)"
  shows "rule_hits home (abs_path (P @ Q)) r"
  using match_plain [of P "P @ Q" home] assms abs_path_not_Nil [of P]
  by (auto simp: rule_hits_def simp del: abs_path_append)

lemma segs_at_single: "segs_at [x] ps \<longleftrightarrow> x \<in> set ps"
proof (induction ps)
  case (Cons p ps)
  then show ?case by auto
qed simp

lemma segments_of_clean:
  assumes "\<forall>s \<in> set Q. valid_seg s" "x \<noteq> []"
  shows "segmentsContain (abs_path Q) [x] \<longleftrightarrow> x \<in> set Q"
  using assms(2) by (simp add: segmentsContain_def split_abs_path [OF assms(1)] segs_at_single)

lemma segs_at_head: "segs_at (x # xs) ps \<Longrightarrow> x \<in> set ps"
proof (induction ps)
  case (Cons p ps)
  then show ?case by auto
qed simp

lemma stripTrailingSep_abs:
  assumes "\<forall>s \<in> set Q. valid_seg s" "Q \<noteq> []"
  shows "stripTrailingSep (abs_path Q) = abs_path Q"
  using abs_path_no_trail [OF assms] by (simp add: stripTrailingSep_def)

lemma classify_secret:
  assumes Q: "\<forall>s \<in> set Q. valid_seg s" "Q \<noteq> []" "''housekeeper'' \<notin> set Q"
    and sec: "isSecretPath (basename (abs_path Q)) (abs_path Q)"
  shows "surfaceClass (classifySurface (abs_path Q) hints) = SecretAdjacentSurf"
    and "ownerClass (classifySurface (abs_path Q) hints) = UserOwned"
    and "rollbackClass (classifySurface (abs_path Q) hints) = RollbackUnknown"
    and "scopeClass (classifySurface (abs_path Q) hints) = ProtectedScope"
proof -
  have hk: "\<not> segmentsContain (abs_path Q) (''housekeeper'' # xs)" for xs
    using Q(3) segs_at_head [of "''housekeeper''" xs "[] # Q"]
    by (auto simp: segmentsContain_def split_abs_path [OF Q(1)])
  have c: "\<exists>se. classifySurface (abs_path Q) hints
       = surface_lit SecretAdjacentSurf UserOwned LoadUnknown se Inert RollbackUnknown ProtectedScope Medium"
    unfolding classifySurface_def Let_def normalize_abs_path [OF Q(1,2)] stripTrailingSep_abs [OF Q(1,2)]
    using hk [of "[''operations'']"] hk [of "[]"] hk [of "[''snapshots'']"] sec
    by auto
  then show "surfaceClass (classifySurface (abs_path Q) hints) = SecretAdjacentSurf"
    and "ownerClass (classifySurface (abs_path Q) hints) = UserOwned"
    and "rollbackClass (classifySurface (abs_path Q) hints) = RollbackUnknown"
    and "scopeClass (classifySurface (abs_path Q) hints) = ProtectedScope"
    by auto
qed

lemma secret_stance:
  assumes "surfaceClass sf = SecretAdjacentSurf" "ownerClass sf = UserOwned"
    and "rollbackClass sf = RollbackUnknown" "scopeClass sf = ProtectedScope"
  shows "p_stance (finding_stance r sf ms m) = Protect"
  using assms by (simp add: finding_stance_def decideStance_spec spec_stance_def stance_table_def Let_def)

lemma dnt_stance:
  assumes "\<exists>x \<in> set ms. pm_type x = DoNotTouch"
  shows "p_stance (finding_stance r sf ms m) = Protect"
  using assms by (simp add: finding_stance_def decideStance_spec spec_stance_def stance_table_def Let_def)

subsection \<open>The report\<close>

lemma push_ids: "x \<in> set (push sel r) \<Longrightarrow> w_id x \<in> set sel"
  by (auto simp: push_def split: option.splits if_splits)

lemma pushAll_ids: "x \<in> set (pushAll sel rs) \<Longrightarrow> w_id x \<in> set sel"
  by (auto simp: pushAll_def dest: push_ids)

lemma bindE_Inr: "bindE x f = Inr y \<Longrightarrow> (\<And>v. x = Inr v \<Longrightarrow> f v = Inr y \<Longrightarrow> P) \<Longrightarrow> P"
  by (auto simp: bindE_eq_Inr)

lemma home_clean_id [simp]: "w_id (detectHomeClean cx) = ''home.clean''"
  by (simp add: detectHomeClean_def raw_of_def)

lemma home_not_found_id [simp]: "w_id (detectHomeNotFound h) = ''home.not_found''"
  by (simp add: detectHomeNotFound_def raw_of_def)

lemma outputs_ids:
  assumes "detector_outputs sel cx = Inr outs" and "''home.clean'' \<in> set sel"
  shows "outs \<noteq> [] \<and> (\<forall>x \<in> set outs. w_id x \<in> set sel)"
proof -
  let ?ok = "\<lambda>l. \<forall>x \<in> set l. w_id x \<in> set sel"
  have app: "?ok l \<Longrightarrow> ?ok l' \<Longrightarrow> ?ok (l @ l')" for l l' by auto
  have p1: "?ok (push sel r)" for r using push_ids by blast
  have p2: "?ok (pushAll sel rs)" for rs using pushAll_ids by blast
  have cl: "push sel (Some (detectHomeClean cx)) = [detectHomeClean cx]"
    using assms(2) by (simp add: push_def)
  have fin: "(let out = l in Inr (if out = [] then push sel (Some (detectHomeClean cx)) else out)) = Inr outs
      \<Longrightarrow> ?ok l \<Longrightarrow> ?thesis" for l
    using assms(2) cl by (auto simp: Let_def split: if_splits)
  show ?thesis
    using assms(1) unfolding detector_outputs_def
    apply (elim bindE_Inr)
    apply (erule fin)
    apply (intro app p1 p2)
    done
qed

lemma always_on_selected:
  "selectedDetectors sc = Some sel \<Longrightarrow> i \<in> set ALWAYS_ON_DETECTORS \<Longrightarrow> i \<in> set sel"
  by (auto simp: selectedDetectors_def split: if_splits)

lemma report_findings [simp]:
  "r_findings (report_of e home m fs ds) = fs"
  "r_stanceSummary (report_of e home m fs ds) = countStances fs"
  "r_filesChanged (report_of e home m fs ds) = False"
  "r_boundaries (report_of e home m fs ds) = collectBoundaries fs"
  by (simp_all add: report_of_def makeReport_def)

lemma report_shape:
  assumes "assembleReport ae home opts s = Inr rep"
  obtains sel outs pol mk ds where "selectedDetectors (str_or (ao_scope opts) ''all'') = Some sel"
    and "rep = report_of (ae_env ae) home (ao_mode opts)
               (map (\<lambda>r. buildFinding r home (ao_mode opts) pol mk) outs) ds"
    and "outs \<noteq> []" and "\<forall>x \<in> set outs. w_id x \<in> set sel"
proof -
  obtain sel where sel: "selectedDetectors (str_or (ao_scope opts) ''all'') = Some sel"
    using assms by (auto simp: assembleReport_def split: option.splits)
  have hc: "''home.clean'' \<in> set sel" "''home.not_found'' \<in> set sel"
    by (rule always_on_selected [OF sel]; simp add: ALWAYS_ON_DETECTORS_def)+
  show ?thesis
  proof (cases "\<not> existsSync s home \<or> \<not> is_directory s home")
    case True
    then have "rep = earlyReport (ae_env ae) home (ao_mode opts) [detectHomeNotFound home]"
      using assms sel by (auto simp: assembleReport_def)
    then show ?thesis
      using that [OF sel, of "\<lambda>t. []" "[]" "[detectHomeNotFound home]" "[]"] hc
      by (simp add: earlyReport_def)
  next
    case False
    obtain cx outs where o: "detector_outputs sel cx = Inr outs"
      and r: "rep = report_of (ae_env ae) home (ao_mode opts)
         (map (\<lambda>r. buildFinding r home (ao_mode opts) (\<lambda>t. collectPolicyMatches t cx) (cx_markers cx)) outs)
         (cx_degraded cx)"
      using assms sel False by (auto simp: assembleReport_def bindE_eq_Inr)
    show ?thesis
      using that [OF sel r] outputs_ids [OF o hc(1)] by blast
  qed
qed

lemma counts_sum:
  "\<forall>f \<in> set fs. f_stance f \<in> set STANCE_KEYS \<Longrightarrow> sum_list (map (countStances fs) STANCE_KEYS) = length fs"
proof (induction fs)
  case Nil
  then show ?case by (simp add: countStances_def STANCE_KEYS_def)
next
  case (Cons f fs)
  then show ?case by (cases "f_stance f") (auto simp: countStances_def STANCE_KEYS_def)
qed

lemma all_keys: "st \<in> set STANCE_KEYS"
  by (cases st) (simp_all add: STANCE_KEYS_def)

fun rank_in :: "stance list \<Rightarrow> stance \<Rightarrow> nat" where
  "rank_in [] st = 0"
| "rank_in (x # xs) st = (if x = st then 0 else Suc (rank_in xs st))"

lemma first_with_rank:
  "\<exists>f \<in> set fs. f_stance f \<in> set sts \<Longrightarrow>
   \<exists>f \<in> set fs. first_with sts fs = Some f \<and> (\<forall>g \<in> set fs. rank_in sts (f_stance f) \<le> rank_in sts (f_stance g))"
proof (induction sts)
  case (Cons st sts)
  show ?case
  proof (cases "find (\<lambda>f. f_stance f = st) fs")
    case None
    then have no: "\<forall>g \<in> set fs. f_stance g \<noteq> st" by (auto simp: find_None_iff)
    then obtain f where "f \<in> set fs" "first_with sts fs = Some f"
      "\<forall>g \<in> set fs. rank_in sts (f_stance f) \<le> rank_in sts (f_stance g)"
      using Cons by auto
    then show ?thesis using no None by (intro bexI [of _ f]) auto
  next
    case (Some f)
    then have "f \<in> set fs" "f_stance f = st" by (auto simp: find_Some_iff)
    with Some show ?thesis by (intro bexI [of _ f]) auto
  qed
qed simp

lemma pickPrimary_rank:
  assumes "fs \<noteq> []" and "\<forall>f \<in> set fs. f_stance f \<noteq> Repair"
  shows "\<exists>f \<in> set fs. pickPrimary fs = Some f
    \<and> (\<forall>g \<in> set fs. rank_in PRIMARY_PRIORITY (f_stance f) \<le> rank_in PRIMARY_PRIORITY (f_stance g))"
proof -
  have "f_stance (hd fs) \<in> set PRIMARY_PRIORITY"
    using assms by (cases "f_stance (hd fs)") (auto simp: PRIMARY_PRIORITY_def)
  then have "\<exists>f \<in> set fs. f_stance f \<in> set PRIMARY_PRIORITY" using assms(1) by auto
  from first_with_rank [OF this] show ?thesis using assms(1) by (auto simp: pickPrimary_def)
qed

lemma selected_not_Nil:
  assumes "selectedDetectors sc = Some sel" and "i \<in> set sel"
  shows "i \<noteq> []"
  using assms
  by (auto simp: selectedDetectors_def SCOPE_TO_DETECTORS_def ALWAYS_ON_DETECTORS_def settings_detectors_def
      plugin_detectors_def registry_detectors_def housekeeper_detectors_def split: if_splits)

subsection \<open>Properties\<close>


definition demo_env :: audit_env where
  "demo_env = \<lparr>ae_env = sample_env 0, ae_mtime = (\<lambda>p. None), ae_errmsg = (\<lambda>x. []),
     ae_elapsed = (\<lambda>n. 0), ae_homedir = ''/u'', ae_historyVar = []\<rparr>"

definition demo_cx :: ctx where
  \<comment> \<open>a context whose configuration protects /h/skills\<close>
  "demo_cx = \<lparr>cx_fs = [], cx_env = demo_env, cx_home = ''/h'', cx_mode = Diagnose,
     cx_settings = \<lparr>jr_ok = True, jr_value = JNull, jr_raw = [], jr_error = []\<rparr>, cx_settingsFile = [],
     cx_config = \<lparr>cfg_file = None, cfg_rules = [\<lparr>rule_check = None, rule_path = Some ''/h/skills'',
        rule_reason = ''mine'', rule_scope = ''user''\<rparr>], cfg_error = None\<rparr>,
     cx_plugins = [], cx_skills = [], cx_commands = [], cx_projectsRoot = [],
     cx_projects = \<lparr>w_entries = [], w_degraded = [], w_stopped = False\<rparr>,
     cx_ops = \<lparr>op_path = [], op_exists = False, op_unreadable = False, op_names = [], op_error = []\<rparr>,
     cx_degraded = [], cx_markers = [], cx_applied = [], cx_historyFile = []\<rparr>"




text \<open>C12: Every report the audit returns is well formed: it has at least one finding, each of a
  detector the selected scope contains and none of stance repair; the stance summary adds up to
  the number of findings; the primary finding is the id of a finding of the highest priority
  present; and the report claims no changed file.\<close>

theorem report_wellformed:
  assumes "assembleReport ae home opts s = Inr rep"
  shows "r_findings rep \<noteq> [] \<and> \<not> r_filesChanged rep
    \<and> (\<exists>sel. selectedDetectors (str_or (ao_scope opts) ''all'') = Some sel
         \<and> (\<forall>f \<in> set (r_findings rep). f_id f \<in> set sel \<and> f_stance f \<noteq> Repair))
    \<and> sum_list (map (r_stanceSummary rep) STANCE_KEYS) = length (r_findings rep)
    \<and> (\<exists>f \<in> set (r_findings rep). r_primary rep = Some (f_id f)
         \<and> (\<forall>g \<in> set (r_findings rep).
              rank_in PRIMARY_PRIORITY (f_stance f) \<le> rank_in PRIMARY_PRIORITY (f_stance g)))"
proof -
  obtain sel outs pol mk ds where sel: "selectedDetectors (str_or (ao_scope opts) ''all'') = Some sel"
    and rep: "rep = report_of (ae_env ae) home (ao_mode opts)
               (map (\<lambda>r. buildFinding r home (ao_mode opts) pol mk) outs) ds"
    and ne: "outs \<noteq> []" and ids: "\<forall>x \<in> set outs. w_id x \<in> set sel"
    by (rule report_shape [OF assms])
  let ?fs = "map (\<lambda>r. buildFinding r home (ao_mode opts) pol mk) outs"
  have nr: "\<forall>f \<in> set ?fs. f_stance f \<noteq> Repair" by simp
  have fsne: "?fs \<noteq> []" using ne by simp
  obtain f where f: "f \<in> set ?fs" "pickPrimary ?fs = Some f"
    "\<forall>g \<in> set ?fs. rank_in PRIMARY_PRIORITY (f_stance f) \<le> rank_in PRIMARY_PRIORITY (f_stance g)"
    using pickPrimary_rank [OF fsne nr] by blast
  have "f_id f \<in> set sel" using f(1) ids by auto
  then have "f_id f \<noteq> []" by (rule selected_not_Nil [OF sel])
  then have "r_primary rep = Some (f_id f)"
    using f(2) by (simp add: rep report_of_def makeReport_def)
  moreover have "sum_list (map (countStances ?fs) STANCE_KEYS) = length ?fs"
    by (rule counts_sum) (simp only: all_keys, simp)
  moreover have "\<forall>f \<in> set ?fs. f_id f \<in> set sel \<and> f_stance f \<noteq> Repair" using ids by simp
  ultimately show ?thesis
    unfolding rep report_findings using sel ne f(1,3) by (intro conjI) (simp, simp, blast, assumption, blast)
qed

definition demo_opts :: audit_opts where
  "demo_opts = \<lparr>ao_scope = ''settings'', ao_mode = Diagnose, ao_configPath = None, ao_maxFiles = None,
     ao_maxBytes = None, ao_maxWallMs = None, ao_historyFile = []\<rparr>"

lemma missing_home_report:
  assumes "\<not> existsSync s home"
  shows "assembleReport ae home demo_opts s = Inr (earlyReport (ae_env ae) home Diagnose [detectHomeNotFound home])"
  using assms by (simp add: assembleReport_def demo_opts_def selectedDetectors_def SCOPE_TO_DETECTORS_def str_or_def)

lemma report_wellformed_witness:
  "r_primary (earlyReport (ae_env demo_env) ''/h'' Diagnose [detectHomeNotFound ''/h'']) = Some ''home.not_found''"
proof -
  have "\<not> existsSync [] ''/h''" by code_simp
  from report_wellformed [OF missing_home_report [OF this, of demo_env]] show ?thesis
    by (auto simp: earlyReport_def)
qed

text \<open>A home that is missing or not a directory never crashes the audit and never yields a
  finding about its contents: for every scope the audit knows, the report is exactly one block
  finding home.not_found, and an unknown scope is an error before anything is read.\<close>

lemma missing_home_blocks:
  "(if selectedDetectors (str_or (ao_scope opts) ''all'') = None
    then \<exists>x. assembleReport ae home opts s = Inl x
    else existsSync s home \<and> is_directory s home
       \<or> (\<exists>rep f. assembleReport ae home opts s = Inr rep \<and> r_findings rep = [f] \<and> f_stance f = Block
            \<and> f_id f = ''home.not_found'' \<and> r_primary rep = Some ''home.not_found''))"
proof (cases "selectedDetectors (str_or (ao_scope opts) ''all'')")
  case None
  then show ?thesis by (simp add: assembleReport_def)
next
  case (Some sel)
  let ?rep = "earlyReport (ae_env ae) home (ao_mode opts) [detectHomeNotFound home]"
  let ?f = "buildFinding (detectHomeNotFound home) home (ao_mode opts) (\<lambda>t. []) []"
  have st: "f_stance ?f = Block"
    by (simp add: f_stance_buildFinding detectHomeNotFound_def raw_of_def)
  then have "r_findings ?rep = [?f] \<and> f_stance ?f = Block \<and> f_id ?f = ''home.not_found''
      \<and> r_primary ?rep = Some ''home.not_found''"
    by (simp add: earlyReport_def report_of_def makeReport_def pickPrimary_def PRIMARY_PRIORITY_def)
  then show ?thesis
    using Some by (auto simp: assembleReport_def)
qed

end
