(* ===== verification/Clean.thy ===== *)
theory Clean
  imports Report Snapshot
begin

text \<open>
  The clean planner (scripts/lib/clean-plan.mjs): the refusal classifier, the composition of a
  plan from a fresh audit report, batch plans and the re-validation of a plan. A plan lists the
  operations that may run and the structured refusals of everything else. Operation ids, random
  suffixes and the clock are parameters.
\<close>

subsection \<open>Enums and limits\<close>

datatype mutation_kind = DirRmtree | FileUnlink | FileReplace | JsonFragmentEdit

definition MUTATION_KINDS :: "mutation_kind list" where
  "MUTATION_KINDS = [DirRmtree, FileUnlink, FileReplace, JsonFragmentEdit]"

fun kind_text :: "mutation_kind \<Rightarrow> string" where
  "kind_text DirRmtree = ''dir-rmtree''"
| "kind_text FileUnlink = ''file-unlink''"
| "kind_text FileReplace = ''file-replace''"
| "kind_text JsonFragmentEdit = ''json-fragment-edit''"

definition STREAM_CHUNK_SIZE :: nat where
  "STREAM_CHUNK_SIZE = MAX_OPERATION_FILES"

definition BATCH_DEFAULT_CAP :: int where
  "BATCH_DEFAULT_CAP = 10"

definition BATCH_MAX_PAIRS :: int where
  "BATCH_MAX_PAIRS = 50"

definition BATCH_AGGREGATE_FILE_LIMIT :: nat where
  "BATCH_AGGREGATE_FILE_LIMIT = MAX_OPERATION_FILES"

definition BATCH_AGGREGATE_BYTE_LIMIT :: nat where
  "BATCH_AGGREGATE_BYTE_LIMIT = MAX_OPERATION_BYTES"

definition CLEANABLE_DETECTORS_V02 :: "string list" where
  "CLEANABLE_DETECTORS_V02 =
     [''plugin.cache_unreferenced'', ''housekeeper.stale_lock'', ''registry.local_command_identical'',
      ''registry.command_dangling'', ''registry.skills_entry_dangling'']"

definition FILE_UNLINK_DETECTORS_V02 :: "string list" where
  "FILE_UNLINK_DETECTORS_V02 =
     [''housekeeper.stale_lock'', ''registry.local_command_identical'', ''registry.command_dangling'']"

subsection \<open>Probes of the file system\<close>

definition isSectorBoundary :: "string \<Rightarrow> string \<Rightarrow> bool" where
  "isSectorBoundary targetPath home =
     (let norm = map (\<lambda>c. if c = bslash then sep else c) targetPath;
          credRoot = path_join [home, ''credentials'']; base = basename norm
      in norm = credRoot \<or> starts_with (credRoot @ [sep]) norm
         \<or> base = ''.env'' \<or> starts_with ''.env.'' base
         \<or> ''credentials'' \<in> set (split_on sep norm) \<or> ''secrets'' \<in> set (split_on sep norm))"

fun stance_text :: "stance \<Rightarrow> string" where
  "stance_text Inform = ''inform''" | "stance_text Watch = ''watch''"
| "stance_text Review = ''review''" | "stance_text Probe = ''probe''"
| "stance_text Protect = ''protect''" | "stance_text Prepare = ''prepare''"
| "stance_text Repair = ''repair''" | "stance_text Block = ''block''"

definition report_digest_text :: "report \<Rightarrow> string" where
  "report_digest_text rep =
     json_stringify (JArr (map (\<lambda>f. JObj [(''id'', JStr (f_id f)), (''targetPath'', JStr (f_targetPath f)),
                                          (''stance'', JStr (stance_text (f_stance f)))]) (r_findings rep)))"

definition hashReport :: "env \<Rightarrow> report \<Rightarrow> string" where
  "hashReport e rep = e_sha e (report_digest_text rep)"

definition safeHashFile :: "env \<Rightarrow> fs \<Rightarrow> string \<Rightarrow> string" where
  "safeHashFile e s p = (case read_file s p of Inl x \<Rightarrow> [] | Inr c \<Rightarrow> e_sha e c)"

fun walk_entries :: "nat \<Rightarrow> fs \<Rightarrow> string \<Rightarrow> string list" where
  \<comment> \<open>the stack loop of walkDir: the files and links of a directory, then its directories, last
      pushed first; a link is recorded and not entered; the fuel bounds the nesting\<close>
  "walk_entries 0 s d = []"
| "walk_entries (Suc n) s d =
     (let kids = map (\<lambda>nm. path_join [d, nm]) (readdirSafe s d)
      in filter (\<lambda>p. fget p s \<noteq> Some Dir) kids
         @ concat (map (walk_entries n s) (rev (filter (\<lambda>p. fget p s = Some Dir) kids))))"

definition walkDir :: "fs \<Rightarrow> string \<Rightarrow> string list" where
  "walkDir s d = walk_entries (walk_fuel s) s d"

definition lstat_size :: "fs \<Rightarrow> string \<Rightarrow> nat" where
  "lstat_size s p = (case fget p s of None \<Rightarrow> 0 | Some n \<Rightarrow> node_size n)"

definition estimateBytes :: "fs \<Rightarrow> string list \<Rightarrow> nat" where
  "estimateBytes s ps = sum_list (map (lstat_size s) ps)"

definition declares_mcp :: "json \<Rightarrow> bool" where
  "declares_mcp parsed =
     (case jget ''mcpServers'' parsed of
        Some (JObj kvs) \<Rightarrow> kvs \<noteq> [] | Some (JArr xs) \<Rightarrow> xs \<noteq> [] | _ \<Rightarrow> False)"

definition hasMcpServer :: "fs \<Rightarrow> string \<Rightarrow> bool" where
  "hasMcpServer s targetPath =
     list_ex (\<lambda>p. existsSync s p \<and> (case read_json s p of Inl x \<Rightarrow> False | Inr j \<Rightarrow> declares_mcp j))
       [path_join [targetPath, ''.claude-plugin'', ''plugin.json''], path_join [targetPath, ''.mcp.json'']]"

definition path_arg :: "json option \<Rightarrow> string \<Rightarrow> err + string" where
  \<comment> \<open>v || d as an argument of path.join, which throws unless it gets a string\<close>
  "path_arg v d = (if \<not> truthy v then Inr d
                   else (case v of Some (JStr t) \<Rightarrow> Inr t | _ \<Rightarrow> Inl (TypeError ''path'')))"

definition record_install_path :: "string \<Rightarrow> json \<Rightarrow> err + string" where
  "record_install_path home r =
     (if truthy (jget ''installPath'' r) then path_arg (jget ''installPath'' r) []
      else bindE (path_arg (jget ''marketplace'' r) ''unknown'') (\<lambda>a.
           bindE (path_arg (jget ''name'' r) ''unknown'') (\<lambda>b.
           bindE (path_arg (jget ''version'' r) ''unknown'') (\<lambda>c.
             Inr (path_join [home, ''plugins'', ''cache'', a, b, c])))))"

definition strip_md :: "string \<Rightarrow> string" where
  "strip_md p = (if ends_with ''.md'' p then take (length p - 3) p else p)"

definition command_matches :: "env \<Rightarrow> fs \<Rightarrow> string \<Rightarrow> string \<Rightarrow> string \<Rightarrow> string \<Rightarrow> bool" where
  "command_matches e s commandsDir commandName wantHash file =
     (ends_with ''.md'' file \<and> strip_md (drop (length commandsDir + 1) file) = commandName
      \<and> safeHashFile e s file = wantHash)"

fun any_record_matches :: "env \<Rightarrow> fs \<Rightarrow> string \<Rightarrow> string \<Rightarrow> string \<Rightarrow> json list \<Rightarrow> err + bool" where
  "any_record_matches e s home commandName wantHash [] = Inr False"
| "any_record_matches e s home commandName wantHash (r # rs) =
     (case r of
        JObj kvs \<Rightarrow>
          bindE (record_install_path home r) (\<lambda>ip.
            (let cd = path_join [ip, ''commands'']
             in if existsSync s cd \<and> list_ex (command_matches e s cd commandName wantHash) (walkDir s cd)
                then Inr True
                else any_record_matches e s home commandName wantHash rs))
      | JArr xs \<Rightarrow>
          (let cd = path_join [home, ''plugins'', ''cache'', ''unknown'', ''unknown'', ''unknown'', ''commands'']
           in if existsSync s cd \<and> list_ex (command_matches e s cd commandName wantHash) (walkDir s cd)
              then Inr True
              else any_record_matches e s home commandName wantHash rs)
      | _ \<Rightarrow> any_record_matches e s home commandName wantHash rs)"

definition anyPluginCommandMatchesHash :: "env \<Rightarrow> fs \<Rightarrow> string \<Rightarrow> string \<Rightarrow> string \<Rightarrow> err + bool" where
  "anyPluginCommandMatchesHash e s home commandName wantHash =
     (if wantHash = [] then Inr False
      else (case read_json s (path_join [home, ''plugins'', ''installed_plugins.json'']) of
              Inl x \<Rightarrow> Inr False
            | Inr installed \<Rightarrow>
                any_record_matches e s home commandName wantHash (opt_or (jarr (jget ''plugins'' installed)) [])))"

definition lock_is_fresh :: "env \<Rightarrow> fs \<Rightarrow> string \<Rightarrow> bool" where
  \<comment> \<open>the pre-check of a stale_lock finding: the lockfile parses and its window is still open\<close>
  "lock_is_fresh e s p =
     (existsSync s p \<and>
      (case read_json s p of
         Inl x \<Rightarrow> False
       | Inr m \<Rightarrow> m \<noteq> JNull \<and> (case staleness_ms e m of None \<Rightarrow> False | Some t \<Rightarrow> e_now e < t)))"

subsection \<open>The classifier\<close>

definition NEXT_STEP_BY_REASON :: "(string \<times> string) list" where
  "NEXT_STEP_BY_REASON =
     [
      (''plan-state-error'',
        ''Run `claude-housekeeper rollback <opId>` on the interrupted operation, then re-run `clean`.''),
      (''protected-path'',
        ''Remove the path from `doNotTouch` in `<home>/housekeeper/config.json` or pick a different target.''),
      (''sector-boundary'',
        ''Housekeeper will not clean credential or secret paths. Delete manually with `rm` only after verifying contents.''),
      (''execution-class'',
        ''Surface is not safe to mutate automatically. Review the source manually; no `clean` action is available.''),
      (''rollback-class'',
        ''Operation is not reversible by Housekeeper. No automated action; review the source manually.''),
      (''owner'',
        ''Files owned by Claude or plugin internals cannot be cleaned; report a false positive if this surprises you.''),
      (''plugin-symlinked-cache'',
        ''Resolve the symlink manually and re-run `clean` on the real path.''),
      (''plugin-cache-referenced-by-hook'',
        ''Remove the hook entry referencing this path in `<home>/settings.json`, then re-run `clean`.''),
      (''plugin-cache-has-mcp-server'',
        ''Uninstall the plugin via `claude plugin uninstall <name> --scope <scope>`; that releases the MCP server cleanly.''),
      (''stale-lock-not-yet-eligible'',
        ''Wait for the 30-minute staleness window to elapse, then re-run `clean`.''),
      (''drift-detected'',
        ''Local command no longer matches its plugin counterpart. Inspect with `diff` and resolve manually.''),
      (''no-mutation-mapping-in-v0.2'',
        ''Not cleanable in v0.2.0. Track the roadmap in CHANGELOG.md; use `rm` only if you accept the risk.''),
      (''batch-exceeds-aggregate-budget'',
        ''Reduce the number of --target/--path pairs, or split the batch into multiple invocations.''),
      (''settings-rewrite-not-batchable'',
        ''Run `claude-housekeeper harden` for settings-rewrite findings; v0.3 batch only covers dir-rmtree and file-unlink ops.''),
      (''batch-pair-cap-exceeded'',
        ''Reduce pair count or raise --batch=N (max 50 per design).''),
      (''stream-chunk-budget-exceeded'',
        ''Use --stream only when --batch=N is greater than 50. For 50 or fewer pairs, omit --stream and use the standard batch path.''),
      (''stream-resume-not-supported'',
        ''Resuming a halted stream is not supported in v0.4. Roll back the completed chunks with `claude-housekeeper rollback --stream=<streamId>` and restart the full operation.'')]"

definition nextStepFor :: "string \<Rightarrow> string" where
  "nextStepFor reason = opt_or (map_of NEXT_STEP_BY_REASON reason) []"

definition DEFAULT_ALLOWED_EXECUTION_CLASSES :: "exec_class list" where
  "DEFAULT_ALLOWED_EXECUTION_CLASSES = [Inert]"

record classify_ctx =
  cc_home :: string
  cc_interruptions :: "string list"
  cc_symlinked :: "string list"
  cc_mcp :: "string list"
  cc_refByHook :: "string list"
  cc_rules :: "rule list"
  cc_freshLocks :: "string list"
  cc_drifted :: "string list"
  cc_allowed :: "exec_class list"

definition quoted :: "string \<Rightarrow> string" where
  "quoted t = quote # t @ [quote]"

definition classifyFinding :: "finding \<Rightarrow> classify_ctx \<Rightarrow> (string \<times> string) option" where
  \<comment> \<open>None: not refused; Some (reason, message): the first rule that refuses\<close>
  "classifyFinding f cc =
     (let i = f_id f; tp = f_targetPath f; sf = f_surface f in
      if cc_interruptions cc \<noteq> [] then
        Some (''plan-state-error'', ''Cannot clean: interrupted operation exists. Run rollback first.'')
      else (case find (rule_hits (cc_home cc) tp) (cc_rules cc) of
        Some r \<Rightarrow>
          Some (''protected-path'',
            ''Path '' @ tp @ '' is protected by doNotTouch rule '' @ quoted (opt_or (rule_path r) []))
      | None \<Rightarrow>
      (case f_policyMatches f of
        m # ms \<Rightarrow>
          Some (''protected-path'',
            ''Path '' @ tp @ '' is protected by rule '' @ quoted (pm_pattern m) @ '': '' @ pm_reason m)
      | [] \<Rightarrow>
      if tp \<noteq> [] \<and> isSectorBoundary tp (cc_home cc) then
        Some (''sector-boundary'', ''Path '' @ tp @ '' is inside a sector boundary'')
      else if \<not> List.member (cc_allowed cc) (executionClass sf) then
        Some (''execution-class'',
          ''Surface at '' @ tp @ '' is executable or active; clean only acts on inert surfaces'')
      else if rollbackClass sf = NotApplicable then
        Some (''rollback-class'',
          ''Surface at '' @ tp @ '' is not reversible; clean requires reversible operations'')
      else if \<not> List.member [ClaudeManaged, UserOwned] (ownerClass sf)
              \<and> \<not> (i = ''housekeeper.stale_lock'' \<and> ownerClass sf = HousekeeperOwned) then
        Some (''owner'',
          ''Surface at '' @ tp @ '' is owned by Claude or plugin internals; clean only acts on claude-managed or user-owned surfaces'')
      else if List.member (cc_symlinked cc) tp then
        Some (''plugin-symlinked-cache'',
          ''Target path '' @ tp @ '' is a symbolic link; clean refuses symlinked cache directories'')
      else if List.member (cc_refByHook cc) tp then
        Some (''plugin-cache-referenced-by-hook'',
          ''Target path '' @ tp @ '' is referenced by a settings hook; clean refused to avoid dangling hook'')
      else if List.member (cc_mcp cc) tp then
        Some (''plugin-cache-has-mcp-server'',
          ''Plugin at '' @ tp @ '' declares an MCP server; clean is refused for safety'')
      else if i = ''housekeeper.stale_lock'' \<and> List.member (cc_freshLocks cc) tp then
        Some (''stale-lock-not-yet-eligible'',
          ''Lockfile at '' @ tp @ '' is not yet stale; the 30 min staleness window has not elapsed'')
      else if i = ''registry.local_command_identical'' \<and> List.member (cc_drifted cc) tp then
        Some (''drift-detected'',
          ''Local command at '' @ tp @ '' is no longer byte-identical to its plugin counterpart'')
      else if \<not> List.member CLEANABLE_DETECTORS_V02 i then
        Some (''no-mutation-mapping-in-v0.2'',
          ''Detector '' @ quoted i @ '' is not cleanable in v0.2.0'')
      else None)))"

subsection \<open>composeCleanPlan\<close>

record exec_env =
  xe_audit :: audit_env
  xe_opid :: "nat \<Rightarrow> string"            \<comment> \<open>the operation id of the k-th snapshot\<close>
  xe_hex :: "nat \<Rightarrow> nat \<Rightarrow> string"      \<comment> \<open>the suffix of the j-th atomic write of the k-th operation\<close>
  xe_stream :: string                   \<comment> \<open>the id generateStreamId draws\<close>

abbreviation xenv :: "exec_env \<Rightarrow> env" where
  "xenv x \<equiv> ae_env (xe_audit x)"

record clean_op =
  co_detector :: string
  co_target :: string
  co_kind :: mutation_kind
  co_arg :: string               \<comment> \<open>mutationOp.args.path or .dirPath\<close>
  co_bytes :: nat
  co_files :: "string list"

record clean_refusal =
  cf_reason :: string
  cf_target :: string
  cf_detector :: string
  cf_message :: string
  cf_nextStep :: string

record clean_plan =
  cp_home :: string
  cp_detector :: string
  cp_target :: string
  cp_operations :: "clean_op list"
  cp_refused :: "clean_refusal list"
  cp_composedAt :: string
  cp_reportHash :: string
  cp_validatedAt :: "string option"

record clean_opts =
  cl_target :: string
  cl_path :: string
  cl_mode :: "mode option"
  cl_allowed :: "exec_class list option"

definition default_audit_opts :: "mode \<Rightarrow> audit_opts" where
  \<comment> \<open>the options { mode }\<close>
  "default_audit_opts m = \<lparr>ao_scope = [], ao_mode = m, ao_configPath = None, ao_maxFiles = None,
     ao_maxBytes = None, ao_maxWallMs = None, ao_historyFile = []\<rparr>"

definition targets_of :: "string \<Rightarrow> report \<Rightarrow> string list" where
  "targets_of i rep = map f_targetPath (filter (\<lambda>f. f_id f = i) (r_findings rep))"

definition candidates_of :: "report \<Rightarrow> string \<Rightarrow> string \<Rightarrow> finding list" where
  "candidates_of rep detector path =
     filter (\<lambda>f. f_id f = detector \<and> (path = [] \<or> f_targetPath f = path)) (r_findings rep)"

fun drifted_commands :: "env \<Rightarrow> fs \<Rightarrow> string \<Rightarrow> finding list \<Rightarrow> err + string list" where
  \<comment> \<open>driftedLocalCommandPaths: no plugin command has the bytes of the local one any more\<close>
  "drifted_commands e s home [] = Inr []"
| "drifted_commands e s home (f # fs) =
     (if f_id f = ''registry.local_command_identical'' \<and> f_targetPath f \<noteq> [] \<and> existsSync s (f_targetPath f)
      then bindE (anyPluginCommandMatchesHash e s home (basename_ext (f_targetPath f) ''.md'')
                    (safeHashFile e s (f_targetPath f))) (\<lambda>matched.
           bindE (drifted_commands e s home fs) (\<lambda>ps. Inr (if matched then ps else f_targetPath f # ps)))
      else drifted_commands e s home fs)"

definition classify_context ::
  "env \<Rightarrow> fs \<Rightarrow> string \<Rightarrow> report \<Rightarrow> finding list \<Rightarrow> exec_class list \<Rightarrow> err + classify_ctx" where
  \<comment> \<open>the pre-checks of composeCleanPlan\<close>
  "classify_context e s home rep cands allowed =
     (let tps = filter (\<lambda>p. p \<noteq> [] \<and> existsSync s p) (map f_targetPath cands)
      in bindE (drifted_commands e s home cands) (\<lambda>drifted.
         Inr \<lparr>cc_home = home,
              cc_interruptions = targets_of ''housekeeper.interrupted_operation'' rep,
              cc_symlinked = filter (\<lambda>p. case fget p s of Some (Link t) \<Rightarrow> True | _ \<Rightarrow> False) tps,
              cc_mcp = filter (hasMcpServer s) tps,
              cc_refByHook = targets_of ''plugin.cache_referenced_by_hook'' rep,
              cc_rules = cfg_rules (loadConfig s home None),
              cc_freshLocks = filter (lock_is_fresh e s)
                 (map f_targetPath (filter (\<lambda>f. f_id f = ''housekeeper.stale_lock'' \<and> f_targetPath f \<noteq> []) cands)),
              cc_drifted = drifted, cc_allowed = allowed\<rparr>))"

definition log_refusal :: "env \<Rightarrow> string \<Rightarrow> string \<Rightarrow> string \<Rightarrow> string \<Rightarrow> unit io" where
  \<comment> \<open>try { await appendRefusal(home, ...) } catch: a failing log never stops the planner\<close>
  "log_refusal e home target reason path =
     swallowI (appendRefusal e home
       (JObj [(''command'', JStr ''clean''), (''target'', JStr target), (''reason'', JStr reason),
              (''refusalClass'', JStr reason), (''targetPath'', JStr path)]))"

definition refusal_of :: "finding \<Rightarrow> string \<times> string \<Rightarrow> clean_refusal" where
  "refusal_of f rm =
     \<lparr>cf_reason = fst rm, cf_target = f_targetPath f, cf_detector = f_id f,
      cf_message = str_or (snd rm) (fst rm), cf_nextStep = nextStepFor (fst rm)\<rparr>"

definition build_operation :: "fs \<Rightarrow> finding \<Rightarrow> clean_op" where
  "build_operation s f =
     (let tp = f_targetPath f
      in if List.member FILE_UNLINK_DETECTORS_V02 (f_id f)
         then \<lparr>co_detector = f_id f, co_target = tp, co_kind = FileUnlink, co_arg = tp,
               co_bytes = (if existsSync s tp then file_size s tp else 0), co_files = [tp]\<rparr>
         else (let expanded = (if existsSync s tp then walkDir s tp else [])
               in \<lparr>co_detector = f_id f, co_target = tp, co_kind = DirRmtree, co_arg = tp,
                   co_bytes = estimateBytes s expanded, co_files = expanded\<rparr>))"

fun plan_candidates ::
  "env \<Rightarrow> string \<Rightarrow> classify_ctx \<Rightarrow> finding list \<Rightarrow> (clean_op list \<times> clean_refusal list) io" where
  \<comment> \<open>the loop over the candidates\<close>
  "plan_candidates e home cc [] = returnI ([], [])"
| "plan_candidates e home cc (f # fs) =
     (case classifyFinding f cc of
        Some rm \<Rightarrow>
          bindI (log_refusal e home (f_id f) (fst rm) (f_targetPath f)) (\<lambda>_.
          bindI (plan_candidates e home cc fs) (\<lambda>(ops, rs). returnI (ops, refusal_of f rm # rs)))
      | None \<Rightarrow>
          bindI (liftI (\<lambda>s. Inr (build_operation s f))) (\<lambda>op.
          bindI (plan_candidates e home cc fs) (\<lambda>(ops, rs). returnI (op # ops, rs))))"

definition one_per_run :: string where
  "one_per_run = ''v0.2 cleans one finding per invocation; re-run clean to address this one''"

definition surplus_refusal :: "clean_op \<Rightarrow> clean_refusal" where
  "surplus_refusal op =
     \<lparr>cf_reason = ''no-mutation-mapping-in-v0.2'', cf_target = co_target op, cf_detector = co_detector op,
      cf_message = one_per_run,
      cf_nextStep = ''Re-run `clean --confirm --yes --target='' @ co_detector op @ '' --path='' @ co_target op
                    @ ''` to address the remaining findings.''\<rparr>"

definition tie_break :: "clean_op list \<Rightarrow> clean_op list" where
  \<comment> \<open>operations.sort: fewest bytes first, then by target path\<close>
  "tie_break ops = sort_key co_bytes (sort_key co_target ops)"

fun log_surplus :: "env \<Rightarrow> string \<Rightarrow> clean_op list \<Rightarrow> unit io" where
  "log_surplus e home [] = returnI ()"
| "log_surplus e home (op # ops) =
     bindI (log_refusal e home (co_detector op) ''no-mutation-mapping-in-v0.2'' (co_target op))
       (\<lambda>_. log_surplus e home ops)"

definition keep_one ::
  "env \<Rightarrow> string \<Rightarrow> clean_op list \<times> clean_refusal list \<Rightarrow> (clean_op list \<times> clean_refusal list) io" where
  \<comment> \<open>one operation per plan; the others become refusals\<close>
  "keep_one e home = (\<lambda>(ops, refused).
     (if 1 < length ops
      then (let sorted = tie_break ops
            in bindI (log_surplus e home (tl sorted)) (\<lambda>_.
                 returnI ([hd sorted], refused @ map surplus_refusal (tl sorted))))
      else returnI (ops, refused)))"

definition composeCleanPlan :: "exec_env \<Rightarrow> string \<Rightarrow> clean_opts \<Rightarrow> clean_plan io" where
  "composeCleanPlan x home opts s =
     (let e = xenv x;
          allowed = opt_or (cl_allowed opts) DEFAULT_ALLOWED_EXECUTION_CLASSES
      in (case assembleReport (xe_audit x) home (default_audit_opts (opt_or (cl_mode opts) Safe)) s of
            Inl er \<Rightarrow> (Inl er, s)
          | Inr rep \<Rightarrow>
              (let cands = candidates_of rep (cl_target opts) (cl_path opts)
               in (case classify_context e s home rep cands allowed of
                     Inl er \<Rightarrow> (Inl er, s)
                   | Inr cc \<Rightarrow>
                       bindI (plan_candidates e home cc cands) (\<lambda>planned.
                       bindI (keep_one e home planned) (\<lambda>(ops, refused).
                         returnI \<lparr>cp_home = home, cp_detector = cl_target opts, cp_target = cl_path opts,
                                  cp_operations = ops, cp_refused = refused,
                                  cp_composedAt = e_iso e (e_now e), cp_reportHash = hashReport e rep,
                                  cp_validatedAt = None\<rparr>)) s))))"

subsection \<open>validateCleanPlan\<close>

fun revalidate :: "fs \<Rightarrow> string \<Rightarrow> rule list \<Rightarrow> string \<Rightarrow> string \<Rightarrow> clean_op list \<Rightarrow> err option" where
  "revalidate s home rules expected current [] = None"
| "revalidate s home rules expected current (op # ops) =
     (if list_ex (rule_hits home (co_target op)) rules
      then Some (ReportDriftError expected (current @ '':policy-changed''))
      else if existsSync s (co_target op) \<and> hasMcpServer s (co_target op)
      then Some (ReportDriftError expected (current @ '':mcp-gained''))
      else revalidate s home rules expected current ops)"

definition validateCleanPlan :: "exec_env \<Rightarrow> clean_plan \<Rightarrow> string \<Rightarrow> fs \<Rightarrow> err + clean_plan" where
  "validateCleanPlan x plan home s =
     (let e = xenv x
      in bindE (assembleReport (xe_audit x) home (default_audit_opts Safe) s) (\<lambda>rep.
         (let current = hashReport e rep
          in if current \<noteq> cp_reportHash plan then Inl (ReportDriftError (cp_reportHash plan) current)
             else (case revalidate s home (cfg_rules (loadConfig s home None)) (cp_reportHash plan) current
                          (cp_operations plan) of
                     Some er \<Rightarrow> Inl er
                   | None \<Rightarrow> Inr (plan\<lparr>cp_validatedAt := Some (e_iso e (e_now e))\<rparr>)))))"

subsection \<open>composeBatchCleanPlan\<close>

record batch_plan =
  bp_home :: string
  bp_operations :: "clean_op list"
  bp_refused :: "clean_refusal list"
  bp_pairs :: "(string \<times> string) list"
  bp_composedAt :: string
  bp_reportHash :: string
  bp_batchCap :: int

record batch_opts =
  bo_pairs :: "(string \<times> string) list"      \<comment> \<open>detector and path of each pair\<close>
  bo_cap :: "int option"                     \<comment> \<open>None: absent or not an integer\<close>
  bo_allowed :: "exec_class list option"
  bo_skipBudget :: bool

definition batch_cap :: "int option \<Rightarrow> int" where
  "batch_cap c = (case c of Some n \<Rightarrow> if 0 < n then min n BATCH_MAX_PAIRS else BATCH_DEFAULT_CAP
                          | None \<Rightarrow> BATCH_DEFAULT_CAP)"

fun compose_pairs ::
  "exec_env \<Rightarrow> string \<Rightarrow> exec_class list option \<Rightarrow> string \<Rightarrow> (string \<times> string) list
   \<Rightarrow> (clean_op list \<times> clean_refusal list \<times> string) io" where
  "compose_pairs x home allowed hash [] = returnI ([], [], hash)"
| "compose_pairs x home allowed hash ((target, path) # ps) =
     bindI (composeCleanPlan x home \<lparr>cl_target = target, cl_path = path, cl_mode = None, cl_allowed = allowed\<rparr>)
       (\<lambda>plan. bindI (compose_pairs x home allowed (str_or hash (cp_reportHash plan)) ps)
         (\<lambda>(ops, rs, h). returnI (cp_operations plan @ ops, cp_refused plan @ rs, h)))"

definition aggregate :: "clean_op list \<Rightarrow> nat \<times> nat" where
  \<comment> \<open>totalFiles, totalBytes\<close>
  "aggregate ops = (sum_list (map (\<lambda>op. length (co_files op)) ops), sum_list (map co_bytes ops))"

definition batch_refusal :: "string \<Rightarrow> string \<Rightarrow> clean_refusal" where
  "batch_refusal reason message =
     \<lparr>cf_reason = reason, cf_target = [], cf_detector = [], cf_message = message,
      cf_nextStep = nextStepFor reason\<rparr>"

definition budget_message :: "nat \<Rightarrow> nat \<Rightarrow> string" where
  "budget_message files bytes =
     ''Aggregate batch budget exceeded: '' @ show_nat files @ '' files / '' @ show_nat bytes @ '' bytes (limit ''
     @ show_nat BATCH_AGGREGATE_FILE_LIMIT @ '' files / '' @ show_nat BATCH_AGGREGATE_BYTE_LIMIT @ '' bytes)''"

definition composeBatchCleanPlan :: "exec_env \<Rightarrow> string \<Rightarrow> batch_opts \<Rightarrow> batch_plan io" where
  "composeBatchCleanPlan x home opts =
     (let e = xenv x; pairs = bo_pairs opts; cap = batch_cap (bo_cap opts); at = e_iso e (e_now e);
          plan = (\<lambda>ops rs h. \<lparr>bp_home = home, bp_operations = ops, bp_refused = rs, bp_pairs = pairs,
                    bp_composedAt = at, bp_reportHash = h, bp_batchCap = cap\<rparr>)
      in if cap < int (length pairs)
         then bindI (log_refusal e home [] ''batch-pair-cap-exceeded'' []) (\<lambda>_.
                returnI (plan [] [batch_refusal ''batch-pair-cap-exceeded''
                   (''Got '' @ show_nat (length pairs) @ '' pairs; batch cap is '' @ show_int cap)] []))
         else bindI (compose_pairs x home (bo_allowed opts) [] pairs) (\<lambda>(ops, rs, h).
                (let (files, bytes) = aggregate ops
                 in if \<not> bo_skipBudget opts \<and> (BATCH_AGGREGATE_FILE_LIMIT < files \<or> BATCH_AGGREGATE_BYTE_LIMIT < bytes)
                    then bindI (log_refusal e home [] ''batch-exceeds-aggregate-budget'' []) (\<lambda>_.
                           returnI (plan [] (rs @ [batch_refusal ''batch-exceeds-aggregate-budget''
                              (budget_message files bytes)]) h))
                    else returnI (plan ops rs h))))"

end
