(* ===== verification/Clean_Exec.thy ===== *)
theory Clean_Exec
  imports Clean Lock
begin

text \<open>
  Execution of clean plans (scripts/lib/clean-plan.mjs): one operation at a time, a batch under
  one snapshot, and a stream of batches with a parent manifest. Each of them is snapshot, apply,
  verify under the housekeeper lock, with one line in the learning log.
\<close>

definition em_dash :: string where
  "em_dash = [CHR 0xE2, CHR 0x80, CHR 0x94]"

subsection \<open>The mutations\<close>

definition rm_file :: "string \<Rightarrow> unit io" where
  \<comment> \<open>rm(origPath, { recursive: false, force: false })\<close>
  "rm_file p = unlink_path p"

definition rm_file_then_dir :: "string \<Rightarrow> string \<Rightarrow> unit io" where
  \<comment> \<open>the file, then its directory with whatever is left in it; a failure of the second is ignored\<close>
  "rm_file_then_dir dir p = bindI (rm_file p) (\<lambda>_. swallowI (rm_tree dir))"

definition MUTATION_REGISTRY :: "mutation_kind \<Rightarrow> string \<Rightarrow> err + (string \<Rightarrow> unit io)" where
  \<comment> \<open>the factory of a kind applied to its path argument\<close>
  "MUTATION_REGISTRY k arg =
     (case k of
        DirRmtree \<Rightarrow> Inr (\<lambda>p. bindI (rm_file p)
                            (\<lambda>_. if arg = [] then returnI () else swallowI (rm_tree arg)))
      | FileUnlink \<Rightarrow> Inr (\<lambda>p. unlink_path arg)
      | _ \<Rightarrow> Inl (NotImplementedError (kind_text k)))"

definition op_functions :: "clean_op \<Rightarrow> (string \<Rightarrow> unit io) list" where
  \<comment> \<open>the apply callables of executeCleanPlan, one per target\<close>
  "op_functions op =
     (let n = length (co_files op)
      in if co_kind op = FileUnlink then map (\<lambda>_. rm_file) (co_files op)
         else map (\<lambda>i. if i + 1 = n then rm_file_then_dir (co_arg op) else rm_file) [0..<n])"

definition dispatch_of :: "clean_op list \<Rightarrow> (string \<times> mutation_kind \<times> string) list" where
  \<comment> \<open>targets with dispatchByIndex\<close>
  "dispatch_of ops =
     concat (map (\<lambda>op. map (\<lambda>f. (f, co_kind op, str_or (co_arg op) (co_target op))) (co_files op)) ops)"

definition is_dir_item :: "string \<Rightarrow> string \<times> mutation_kind \<times> string \<Rightarrow> bool" where
  "is_dir_item d it = (fst (snd it) \<noteq> FileUnlink \<and> snd (snd it) = d)"

fun batch_functions :: "(string \<times> mutation_kind \<times> string) list \<Rightarrow> (string \<Rightarrow> unit io) list" where
  \<comment> \<open>the directory goes with the last file dispatched to it (dirLastIndex)\<close>
  "batch_functions [] = []"
| "batch_functions ((f, k, d) # its) =
     (if k = FileUnlink \<or> list_ex (is_dir_item d) its then rm_file else rm_file_then_dir d)
     # batch_functions its"

subsection \<open>executeCleanPlan\<close>

definition consent_text :: "clean_op \<Rightarrow> string" where
  "consent_text op = join_with [nl]
     [''clean --confirm --yes '' @ em_dash @ '' ''
        @ (if co_kind op = FileUnlink then ''remove single file'' else ''remove plugin cache version directory''),
      ''  detector: '' @ co_detector op,
      ''  target:   '' @ co_target op,
      ''  files:    '' @ show_nat (length (co_files op)),
      ''  bytes:    '' @ show_nat (co_bytes op)]"

definition snapshot_options :: "string list \<Rightarrow> string \<Rightarrow> snap_opts" where
  "snapshot_options targets consent =
     \<lparr>so_targets = targets, so_command = ''clean'', so_mode = ''confirm'', so_consent = consent, so_version = []\<rparr>"

definition is_partial :: "json \<Rightarrow> bool" where
  "is_partial m = truthy (jget ''partialApply'' m)"

definition log_applied :: "env \<Rightarrow> string \<Rightarrow> json \<Rightarrow> string list \<Rightarrow> nat \<Rightarrow> unit io" where
  \<comment> \<open>try { await appendApplied(home, ...) } catch\<close>
  "log_applied e home m targets n =
     swallowI (appendApplied e home
       (obj_of [(''opId'', jget ''id'' m), (''status'', jget ''status'' m), (''command'', Some (JStr ''clean'')),
                (''targets'', Some (JArr (map JStr targets))), (''filesCount'', Some (JNum (int n))),
                (''partialApply'', if is_partial m then Some (JBool True) else None)]))"

definition run_operation ::
  "exec_env \<Rightarrow> nat \<Rightarrow> string \<Rightarrow> string list \<Rightarrow> string \<Rightarrow> (string \<Rightarrow> unit io) list \<Rightarrow> string list \<Rightarrow> json io" where
  \<comment> \<open>takeSnapshot, applyOperation, then verify unless the apply was partial, and the log line\<close>
  "run_operation x k home targets consent fns logged =
     (let e = xenv x; n = length targets; hex = xe_hex x k
      in bindI (takeSnapshot e (xe_opid x k) hex (dirname home) (snapshot_options targets consent)) (\<lambda>(i, m0).
         bindI (applyOperation e (hex (n + 2)) i (dirname home) fns) (\<lambda>applied.
         if is_partial applied
         then bindI (log_applied e home applied logged n) (\<lambda>_. returnI applied)
         else bindI (verify_op e (hex (n + 3)) i (dirname home)) (\<lambda>v.
              bindI (swallowI (appendApplied e home
                (obj_of [(''opId'', jget ''id'' v), (''status'', jget ''status'' v), (''command'', Some (JStr ''clean'')),
                         (''targets'', Some (JArr (map JStr logged))), (''filesCount'', Some (JNum (int n)))])))
              (\<lambda>_. returnI v)))))"

fun clean_loop :: "exec_env \<Rightarrow> string \<Rightarrow> nat \<Rightarrow> json option \<Rightarrow> clean_op list \<Rightarrow> json option io" where
  "clean_loop x home k final [] = returnI final"
| "clean_loop x home k final (op # ops) =
     bindI (run_operation x k home (co_files op) (consent_text op) (op_functions op) [co_target op]) (\<lambda>m.
       if is_partial m then returnI (Some m) else clean_loop x home (Suc k) (Some m) ops)"

definition executeCleanPlan :: "exec_env \<Rightarrow> clean_plan \<Rightarrow> string \<Rightarrow> json option io" where
  "executeCleanPlan x plan home =
     with_lock (xenv x) home ''verified''
       (bindI (gcSnapshots (dirname home)) (\<lambda>_. clean_loop x home 0 None (cp_operations plan)))"

subsection \<open>executeBatchCleanPlan\<close>

definition synthetic_manifest :: json where
  "synthetic_manifest =
     JObj [(''schemaVersion'', JStr ''0.2''), (''id'', JStr []), (''status'', JStr ''verified''),
           (''partialApply'', JBool False), (''files'', JArr [])]"

definition batch_consent :: "string \<Rightarrow> string \<Rightarrow> clean_op list \<Rightarrow> string" where
  "batch_consent flag tail ops = join_with [nl]
     ((''clean --'' @ flag @ '' --confirm --yes '' @ em_dash @ '' '' @ show_nat (length ops) @ '' operation(s)'' @ tail)
      # map (\<lambda>op. ''  '' @ kind_text (co_kind op) @ ''  '' @ co_target op @ ''  ('' @ show_nat (co_bytes op) @ ''B)'') ops)"

definition run_batch :: "exec_env \<Rightarrow> nat \<Rightarrow> string \<Rightarrow> string \<Rightarrow> clean_op list \<Rightarrow> json io" where
  \<comment> \<open>one snapshot for all files of the batch\<close>
  "run_batch x k home consent ops =
     (let items = dispatch_of ops; targets = map fst items
      in if targets = [] then returnI synthetic_manifest
         else run_operation x k home targets consent (batch_functions items) (map co_target ops))"

definition executeBatchCleanPlan :: "exec_env \<Rightarrow> batch_plan \<Rightarrow> string \<Rightarrow> json io" where
  "executeBatchCleanPlan x plan home =
     with_lock (xenv x) home ''verified''
       (bindI (gcSnapshots (dirname home)) (\<lambda>_.
          run_batch x 0 home (batch_consent ''batch'' [] (bp_operations plan)) (bp_operations plan)))"

definition executeBatchChunk :: "exec_env \<Rightarrow> nat \<Rightarrow> batch_plan \<Rightarrow> string \<Rightarrow> json io" where
  \<comment> \<open>_executeBatchChunk: the caller holds the lock\<close>
  "executeBatchChunk x k plan home =
     run_batch x k home (batch_consent ''stream'' '' in chunk'' (bp_operations plan)) (bp_operations plan)"

subsection \<open>Streams\<close>

definition generateStreamId :: "utc \<Rightarrow> string \<Rightarrow> string" where
  "generateStreamId t hex = ''stream_'' @ op_stamp t @ ''_'' @ hex"

function chunks_of :: "nat \<Rightarrow> 'a list \<Rightarrow> 'a list list" where
  \<comment> \<open>the loop over offset in steps of the chunk size\<close>
  "chunks_of n xs = (if xs = [] \<or> n = 0 then [] else take n xs # chunks_of n (drop n xs))"
  by pat_completeness auto

termination chunks_of
  by (relation "measure (\<lambda>(n, xs). length xs)") auto

declare chunks_of.simps [simp del]

definition total_chunks :: "'a list \<Rightarrow> nat" where
  \<comment> \<open>Math.ceil(pairs.length / STREAM_CHUNK_SIZE) || 1\<close>
  "total_chunks pairs =
     (let n = (length pairs + STREAM_CHUNK_SIZE - 1) div STREAM_CHUNK_SIZE in if n = 0 then 1 else n)"

definition chunk_options :: "exec_class list option \<Rightarrow> (string \<times> string) list \<Rightarrow> batch_opts" where
  "chunk_options allowed chunk =
     \<lparr>bo_pairs = chunk, bo_cap = Some (int (length chunk)), bo_allowed = allowed, bo_skipBudget = True\<rparr>"

datatype stream_item =
    ResumeRefused clean_refusal
  | ChunkRefused nat nat clean_refusal      \<comment> \<open>chunkIndex, totalChunks\<close>
  | ChunkPlan nat nat batch_plan

fun stream_items ::
  "exec_env \<Rightarrow> string \<Rightarrow> exec_class list option \<Rightarrow> nat \<Rightarrow> nat \<Rightarrow> (string \<times> string) list list
   \<Rightarrow> stream_item list io" where
  "stream_items x home allowed tot k [] = returnI []"
| "stream_items x home allowed tot k (c # cs) =
     (if MAX_OPERATION_FILES < length c
      then returnI [ChunkRefused k tot (batch_refusal ''stream-chunk-budget-exceeded''
             (''Chunk '' @ show_nat k @ '' has '' @ show_nat (length c) @ '' pairs; maximum is ''
              @ show_nat MAX_OPERATION_FILES @ '' per Q5 ruling.''))]
      else bindI (composeBatchCleanPlan x home (chunk_options allowed c)) (\<lambda>plan.
           bindI (stream_items x home allowed tot (Suc k) cs) (\<lambda>its.
             returnI (ChunkPlan k tot plan # its))))"

definition composeStreamCleanPlan ::
  "exec_env \<Rightarrow> string \<Rightarrow> string \<Rightarrow> exec_class list option \<Rightarrow> (string \<times> string) list \<Rightarrow> stream_item list io" where
  \<comment> \<open>everything the generator yields when it is run to its end\<close>
  "composeStreamCleanPlan x home resumeStreamId allowed pairs =
     (if resumeStreamId \<noteq> []
      then returnI [ResumeRefused (batch_refusal ''stream-resume-not-supported''
             ''Resuming a halted stream is not supported in v0.4. Use rollback to restore completed chunks.'')]
      else stream_items x home allowed (total_chunks pairs) 0 (chunks_of STREAM_CHUNK_SIZE pairs))"

record stream_result =
  sr_streamId :: string
  sr_chunks :: "(nat \<times> json) list"
  sr_partial :: bool
  sr_halted :: "nat option"

definition chunk_slug :: "nat \<Rightarrow> string" where
  "chunk_slug k = ''chunk_'' @ pad_start 3 (CHR ''0'') (show_nat k)"

definition stream_dir :: "exec_env \<Rightarrow> string \<Rightarrow> string" where
  "stream_dir x home = path_join [home, ''housekeeper'', ''operations'', xe_stream x]"

definition save_parent :: "exec_env \<Rightarrow> string \<Rightarrow> json \<Rightarrow> unit io" where
  "save_parent x home parent =
     write_file (path_join [stream_dir x home, ''parent.json'']) (json_pretty parent @ [nl])"

definition parent_manifest :: "exec_env \<Rightarrow> (string \<times> string) list \<Rightarrow> json" where
  "parent_manifest x pairs =
     JObj [(''schemaVersion'', JStr ''0.2''), (''kind'', JStr ''stream-parent''), (''streamId'', JStr (xe_stream x)),
           (''createdAt'', JStr (e_iso (xenv x) (e_now (xenv x)))), (''command'', JStr ''clean''),
           (''totalPairs'', JNum (int (length pairs))), (''chunkSize'', JNum (int STREAM_CHUNK_SIZE)),
           (''totalChunks'', JNum (int (total_chunks pairs))), (''completedChunks'', JArr []),
           (''haltedAtChunk'', JNull), (''streamPartial'', JBool False), (''status'', JStr ''in_progress'')]"

definition halted_parent :: "nat \<Rightarrow> json \<Rightarrow> json" where
  "halted_parent k parent =
     jset ''status'' (JStr ''halted'') (jset ''haltedAtChunk'' (JStr (chunk_slug k))
       (jset ''streamPartial'' (JBool True) parent))"

definition completed_parent :: "nat \<Rightarrow> json \<Rightarrow> json" where
  "completed_parent k parent =
     jset ''completedChunks'' (JArr (opt_or (jarr (jget ''completedChunks'' parent)) [] @ [JStr (chunk_slug k)])) parent"

definition chunk_record :: "nat \<Rightarrow> json \<Rightarrow> json" where
  "chunk_record k m =
     obj_of [(''id'', jget ''id'' m), (''status'', jget ''status'' m), (''chunkIndex'', Some (JNum (int k))),
             (''partialApply'', Some (JBool (is_partial m)))]"

fun stream_loop ::
  "exec_env \<Rightarrow> string \<Rightarrow> exec_class list option \<Rightarrow> nat \<Rightarrow> json \<Rightarrow> (string \<times> string) list list
   \<Rightarrow> ((nat \<times> json) list \<times> nat option \<times> json) io" where
  \<comment> \<open>chunk results, the chunk the stream halted at, the parent manifest\<close>
  "stream_loop x home allowed k parent [] = returnI ([], None, parent)"
| "stream_loop x home allowed k parent (c # cs) =
     bindI (composeBatchCleanPlan x home (chunk_options allowed c)) (\<lambda>plan.
       if bp_operations plan = []
       then bindI (save_parent x home (halted_parent k parent)) (\<lambda>_. returnI ([], Some k, halted_parent k parent))
       else bindI (executeBatchChunk x k plan home) (\<lambda>m.
            bindI (write_file (path_join [stream_dir x home, chunk_slug k @ ''.json''])
                     (json_stringify (chunk_record k m) @ [nl])) (\<lambda>_.
            if is_partial m
            then bindI (save_parent x home (halted_parent k parent)) (\<lambda>_.
                   returnI ([(k, m)], Some k, halted_parent k parent))
            else bindI (save_parent x home (completed_parent k parent)) (\<lambda>_.
                 bindI (stream_loop x home allowed (Suc k) (completed_parent k parent) cs) (\<lambda>(rs, h, p).
                   returnI ((k, m) # rs, h, p))))))"

definition stream_body ::
  "exec_env \<Rightarrow> string \<Rightarrow> exec_class list option \<Rightarrow> (string \<times> string) list \<Rightarrow> stream_result io" where
  "stream_body x home allowed pairs =
     bindI (gcSnapshots (dirname home)) (\<lambda>_.
     bindI (stream_loop x home allowed 0 (parent_manifest x pairs) (chunks_of STREAM_CHUNK_SIZE pairs))
       (\<lambda>(rs, h, p).
         bindI (if h = None then save_parent x home (jset ''status'' (JStr ''verified'') p) else returnI ()) (\<lambda>_.
           returnI \<lparr>sr_streamId = xe_stream x, sr_chunks = rs, sr_partial = (h \<noteq> None), sr_halted = h\<rparr>)))"

definition executeStreamCleanPlan ::
  "exec_env \<Rightarrow> string \<Rightarrow> exec_class list option \<Rightarrow> (string \<times> string) list \<Rightarrow> stream_result io" where
  \<comment> \<open>the two writes after acquireLock stand outside the try block\<close>
  "executeStreamCleanPlan x home allowed pairs =
     bindI (acquireLock (xenv x) home) (\<lambda>h.
     bindI (mkdir_recursive (stream_dir x home)) (\<lambda>_.
     bindI (save_parent x home (parent_manifest x pairs)) (\<lambda>_.
       finallyI (stream_body x home allowed pairs) (releaseLock (xenv x) h ''verified''))))"

end
