(* ===== verification/Harden.thy ===== *)
theory Harden
  imports Clean_Exec
begin

text \<open>
  The harden planner (scripts/lib/harden-plan.mjs): the patch builders for settings.json, the
  refusals of a plan (those of the clean classifier, the network file system marker, the checks
  of an MCP command rewrite and the refusals of the json-rewrite handler), validation and
  execution. Ownership of files, the permission bits of directories, the process's user id, the
  jsonc-parser package and the message texts of PreApplyRefusal are parameters.
\<close>

subsection \<open>Refusal hints and the command-line value\<close>

definition HARDEN_NEXT_STEP :: "(string \<times> string) list" where
  "HARDEN_NEXT_STEP =
     [(''settings-jsonc-detected'',
        ''Strip comments from settings.json by hand, save as plain JSON, and re-run harden. Housekeeper does not auto-strip comments.''),
      (''settings-shape-unknown'',
        ''Compare your settings.json to the documented schema (see https://docs.claude.com/claude-code/settings), restore the expected top-level shape, and re-run harden.''),
      (''patch-not-idempotent'',
        ''This is a Housekeeper bug '' @ em_dash @ '' please file an issue with the contents of your settings.json (redacted as needed). Until a patch lands, remove the broken settings entry by hand.''),
      (''patch-produces-invalid-json'',
        ''This is a Housekeeper bug '' @ em_dash @ '' please file an issue with the contents of your settings.json (redacted as needed). Your settings.json on disk is unchanged.''),
      (''settings-network-filesystem'',
        ''Move settings.json onto a local filesystem (atomic rename is not guaranteed on NFS/SMB), then re-run harden.''),
      (''no-mutation-mapping-in-v0.3'',
        ''Not hardenable in v0.3. Track the roadmap in CHANGELOG.md; edit settings.json by hand if you accept the risk.''),
      (''no-finding-for-target'',
        ''No finding for the requested target/path. Run `claude-housekeeper diagnose` to see current findings, then pick a hardenable one.''),
      (''mcp-rewrite-target-missing'',
        ''Confirm the correct path to your MCP server binary or script, then re-run harden with the corrected --mcp-command-rewrite value.''),
      (''mcp-rewrite-target-not-executable'',
        ''Run chmod +x <new-path> and then re-run harden, or confirm you have passed the correct path.''),
      (''mcp-rewrite-source-not-found'',
        ''Run diagnose to see the exact command path recorded in the failing MCP entry, then pass that exact string as the source side of --mcp-command-rewrite=<source>=<new-path>.''),
      (''mcp-rewrite-foreign-owner'',
        ''The rewrite target is owned by a different user. Re-run after chowning the target to your user account, or pass a path you own.'')]"

definition hardenNextStepFor :: "string \<Rightarrow> string" where
  "hardenNextStepFor reason = opt_or (map_of HARDEN_NEXT_STEP reason) []"

definition parseMcpCommandRewrite :: "string \<Rightarrow> string + string \<times> string" where
  \<comment> \<open>Inl: the message of the error thrown\<close>
  "parseMcpCommandRewrite value =
     (if CHR ''='' \<notin> set value
      then Inl (''--mcp-command-rewrite requires the format <old-path>=<new-path>. Got: '' @ quoted value)
      else (let oldPath = takeWhile (\<lambda>c. c \<noteq> CHR ''='') value;
                newPath = tl (dropWhile (\<lambda>c. c \<noteq> CHR ''='') value)
            in if oldPath = [] \<or> newPath = []
               then Inl (''--mcp-command-rewrite: both <old-path> and <new-path> must be non-empty. Got: '' @ quoted value)
               else Inr (oldPath, newPath)))"

subsection \<open>Pruning a hooks tree\<close>

definition looksShellAmbiguousLocal :: "string \<Rightarrow> bool" where
  "looksShellAmbiguousLocal command = (dollar_var command \<or> backticked command \<or> dollar_paren command)"

definition isHookCommandDangling :: "fs \<Rightarrow> string \<Rightarrow> bool" where
  "isHookCommandDangling s command =
     (\<not> looksShellAmbiguousLocal command
      \<and> list_ex (\<lambda>candidate. contains ''/plugins/cache/'' candidate \<and> \<not> existsSync s candidate)
          (extractAbsolutePaths command))"

fun pruneDanglingHooks :: "fs \<Rightarrow> json \<Rightarrow> json option"
  and prune_items :: "fs \<Rightarrow> json list \<Rightarrow> json list"
  and prune_members :: "fs \<Rightarrow> (string \<times> json) list \<Rightarrow> (string \<times> json) list" where
  \<comment> \<open>None is the value null: the caller leaves the element out\<close>
  "pruneDanglingHooks s (JArr xs) = Some (JArr (prune_items s xs))"
| "pruneDanglingHooks s (JObj kvs) =
     (case jstr (map_of kvs ''command'') of
        Some c \<Rightarrow> if isHookCommandDangling s c then None else Some (JObj kvs)
      | None \<Rightarrow> Some (JObj (prune_members s kvs)))"
| "pruneDanglingHooks s JNull = None"
| "pruneDanglingHooks s j = Some j"
| "prune_items s [] = []"
| "prune_items s (x # xs) =
     (case pruneDanglingHooks s x of None \<Rightarrow> prune_items s xs | Some y \<Rightarrow> y # prune_items s xs)"
| "prune_members s [] = []"
| "prune_members s (kv # kvs) =
     (case pruneDanglingHooks s (snd kv) of
        None \<Rightarrow> prune_members s kvs | Some y \<Rightarrow> (fst kv, y) # prune_members s kvs)"

definition cwd_missing :: "fs \<Rightarrow> (string \<times> json) list \<Rightarrow> bool" where
  "cwd_missing s kvs =
     (case jstr (map_of kvs ''cwd'') of Some d \<Rightarrow> starts_with ''/'' d \<and> \<not> existsSync s d | None \<Rightarrow> False)"

fun pruneDanglingCwdHooks :: "fs \<Rightarrow> json \<Rightarrow> json option"
  and prune_cwd_items :: "fs \<Rightarrow> json list \<Rightarrow> json list"
  and prune_cwd_members :: "fs \<Rightarrow> (string \<times> json) list \<Rightarrow> (string \<times> json) list" where
  "pruneDanglingCwdHooks s (JArr xs) = Some (JArr (prune_cwd_items s xs))"
| "pruneDanglingCwdHooks s (JObj kvs) =
     (if cwd_missing s kvs then None else Some (JObj (prune_cwd_members s kvs)))"
| "pruneDanglingCwdHooks s JNull = None"
| "pruneDanglingCwdHooks s j = Some j"
| "prune_cwd_items s [] = []"
| "prune_cwd_items s (x # xs) =
     (case pruneDanglingCwdHooks s x of None \<Rightarrow> prune_cwd_items s xs | Some y \<Rightarrow> y # prune_cwd_items s xs)"
| "prune_cwd_members s [] = []"
| "prune_cwd_members s (kv # kvs) =
     (case pruneDanglingCwdHooks s (snd kv) of
        None \<Rightarrow> prune_cwd_members s kvs | Some y \<Rightarrow> (fst kv, y) # prune_cwd_members s kvs)"

subsection \<open>The patch builders\<close>

definition parseSettingsSync :: "fs \<Rightarrow> string \<Rightarrow> json option" where
  "parseSettingsSync s p = (case read_json s p of Inl x \<Rightarrow> None | Inr j \<Rightarrow> Some j)"

definition buildIdentityMarkerPatch :: patch where
  "buildIdentityMarkerPatch =
     \<lparr>pt_op = ''remove'', pt_path = [KStr ''__housekeeper_harden_identity__''], pt_value = JNull\<rparr>"

definition set_patch :: "key list \<Rightarrow> json \<Rightarrow> patch" where
  "set_patch ks v = \<lparr>pt_op = ''set'', pt_path = ks, pt_value = v\<rparr>"

definition truthy_member :: "string \<Rightarrow> json option \<Rightarrow> json option" where
  \<comment> \<open>parsed && typeof parsed === "object" && parsed[k], as an option\<close>
  "truthy_member k parsed =
     (case parsed of None \<Rightarrow> None
      | Some j \<Rightarrow> (if truthy (jget k j) then jget k j else None))"

definition buildHookPathDanglingPatch :: "fs \<Rightarrow> string \<Rightarrow> patch" where
  "buildHookPathDanglingPatch s tp =
     (case truthy_member ''hooks'' (parseSettingsSync s tp) of
        None \<Rightarrow> buildIdentityMarkerPatch
      | Some tree \<Rightarrow> set_patch [KStr ''hooks''] (opt_or (pruneDanglingHooks s tree) JNull))"

definition server_broken :: "fs \<Rightarrow> json \<Rightarrow> bool" where
  "server_broken s server =
     (let command = opt_or (jstr (jget ''command'' server)) []
      in command \<noteq> [] \<and> starts_with ''/'' command \<and> \<not> existsSync s command)"

definition keeps_server :: "fs \<Rightarrow> json \<Rightarrow> bool" where
  "keeps_server s server = (container server \<and> \<not> server_broken s server)"

definition buildMcpCommandMissingPatch :: "fs \<Rightarrow> string \<Rightarrow> patch" where
  "buildMcpCommandMissingPatch s tp =
     (case truthy_member ''mcpServers'' (parseSettingsSync s tp) of
        None \<Rightarrow> buildIdentityMarkerPatch
      | Some servers \<Rightarrow>
          set_patch [KStr ''mcpServers''] (JObj (filter (\<lambda>kv. keeps_server s (snd kv)) (obj_entries servers))))"

definition buildInvalidJsonSentinel :: "fs \<Rightarrow> string \<Rightarrow> patch" where
  "buildInvalidJsonSentinel s tp = buildIdentityMarkerPatch"

definition buildHooksConfigDanglingPatch :: "fs \<Rightarrow> string \<Rightarrow> patch" where
  "buildHooksConfigDanglingPatch s tp =
     (case truthy_member ''hooks'' (parseSettingsSync s tp) of
        None \<Rightarrow> buildIdentityMarkerPatch
      | Some tree \<Rightarrow> set_patch [KStr ''hooks''] (opt_or (pruneDanglingCwdHooks s tree) JNull))"

definition buildMcpCommandRewritePatch :: "fs \<Rightarrow> string \<Rightarrow> string \<Rightarrow> patch" where
  "buildMcpCommandRewritePatch s tp newPath =
     (case truthy_member ''mcpServers'' (parseSettingsSync s tp) of
        None \<Rightarrow> buildIdentityMarkerPatch
      | Some servers \<Rightarrow>
          (case find (\<lambda>kv. container (snd kv) \<and> server_broken s (snd kv)) (obj_entries servers) of
             None \<Rightarrow> buildIdentityMarkerPatch
           | Some (name, server) \<Rightarrow>
               set_patch [KStr ''mcpServers'', KStr name, KStr ''command''] (JStr newPath)))"

type_synonym patch_registry = "(string \<times> (fs \<Rightarrow> string \<Rightarrow> patch)) list"

definition HARDENABLE_DETECTORS_V03 :: patch_registry where
  "HARDENABLE_DETECTORS_V03 =
     [(''settings.hook_path_dangling'', buildHookPathDanglingPatch),
      (''settings.mcp_command_missing'', buildMcpCommandMissingPatch),
      (''settings.invalid_json'', buildInvalidJsonSentinel),
      (''hooks.config_dangling'', buildHooksConfigDanglingPatch)]"

fun effectiveHardenableRegistry :: "patch_registry \<Rightarrow> string list \<Rightarrow> patch_registry" where
  "effectiveHardenableRegistry merged [] = merged"
| "effectiveHardenableRegistry merged (i # ids) =
     effectiveHardenableRegistry
       (if map_of merged i = None then merged @ [(i, \<lambda>s tp. buildIdentityMarkerPatch)] else merged) ids"

definition generatePatchForFinding :: "fs \<Rightarrow> finding \<Rightarrow> patch_registry \<Rightarrow> patch" where
  "generatePatchForFinding s f registry =
     (case map_of registry (f_id f) of
        None \<Rightarrow> buildIdentityMarkerPatch | Some builder \<Rightarrow> builder s (f_targetPath f))"

subsection \<open>composeHardenPlan\<close>

record harden_env =
  he_exec :: exec_env
  he_jsonc :: jsonc_edit
  he_owner :: "string \<Rightarrow> int"         \<comment> \<open>statSync(p).uid\<close>
  he_uid :: int                      \<comment> \<open>process.getuid()\<close>
  he_dirMode :: "string \<Rightarrow> nat"       \<comment> \<open>the mode bits of a directory\<close>
  he_message :: "string \<Rightarrow> string \<Rightarrow> string"  \<comment> \<open>the text of a PreApplyRefusal by reason and target\<close>

abbreviation henv :: "harden_env \<Rightarrow> env" where
  "henv h \<equiv> xenv (he_exec h)"

record harden_opts =
  ho_target :: string
  ho_path :: string
  ho_mode :: "mode option"
  ho_allowed :: "exec_class list option"
  ho_forceNetworkFs :: bool
  ho_override :: "string list"
  ho_rewrite :: "(string \<times> string) option"     \<comment> \<open>oldPath, newPath\<close>

record harden_op =
  hp_detector :: string
  hp_target :: string
  hp_rewrite :: rewrite_op
  hp_bytes :: nat
  hp_files :: "string list"

record harden_plan =
  hq_home :: string
  hq_detector :: string
  hq_target :: string
  hq_operations :: "harden_op list"
  hq_refused :: "clean_refusal list"       \<comment> \<open>the HardenPlanRefusal objects\<close>
  hq_composedAt :: string
  hq_reportHash :: string
  hq_validatedAt :: "string option"

definition looksLikeNetworkFs :: "fs \<Rightarrow> string \<Rightarrow> bool \<Rightarrow> bool" where
  "looksLikeNetworkFs s targetPath forced =
     (forced \<or> existsSync s (path_join [dirname targetPath, ''.housekeeper-network-fs'']))"

definition safeAppendRefusal :: "env \<Rightarrow> string \<Rightarrow> string \<Rightarrow> string \<Rightarrow> string \<Rightarrow> unit io" where
  "safeAppendRefusal e home detectorId reason targetPath =
     swallowI (appendRefusal e home
       (JObj [(''command'', JStr ''harden''), (''target'', JStr detectorId), (''reason'', JStr reason),
              (''refusalClass'', JStr reason), (''targetPath'', JStr targetPath)]))"

definition harden_refusal :: "string \<Rightarrow> string \<Rightarrow> string \<times> string \<Rightarrow> clean_refusal" where
  "harden_refusal detector target rm =
     \<lparr>cf_reason = fst rm, cf_target = target, cf_detector = detector, cf_message = snd rm,
      cf_nextStep = hardenNextStepFor (fst rm)\<rparr>"

fun log_refusals :: "env \<Rightarrow> string \<Rightarrow> clean_refusal list \<Rightarrow> unit io" where
  \<comment> \<open>safeAppendRefusal after each push to refused\<close>
  "log_refusals e home [] = returnI ()"
| "log_refusals e home (r # rs) =
     bindI (safeAppendRefusal e home (cf_detector r) (cf_reason r) (cf_target r)) (\<lambda>_. log_refusals e home rs)"

definition executable_bits :: "harden_env \<Rightarrow> fs \<Rightarrow> string \<Rightarrow> bool" where
  \<comment> \<open>statSync(p).mode & 0o111\<close>
  "executable_bits h s p =
     (case stat_node s p of
        None \<Rightarrow> False
      | Some n \<Rightarrow>
          (let m = (case n of File c m \<Rightarrow> m | Dir \<Rightarrow> he_dirMode h p | Link t \<Rightarrow> 0)
           in odd m \<or> odd (m div 8) \<or> odd (m div 64)))"

definition source_server :: "fs \<Rightarrow> string \<Rightarrow> string \<Rightarrow> string option" where
  \<comment> \<open>sourceServerName; an empty name counts as not found\<close>
  "source_server s tp oldPath =
     (case truthy_member ''mcpServers'' (parseSettingsSync s tp) of
        None \<Rightarrow> None
      | Some servers \<Rightarrow>
          (case find (\<lambda>kv. jget ''command'' (snd kv) = Some (JStr oldPath)) (obj_entries servers) of
             None \<Rightarrow> None
           | Some (name, server) \<Rightarrow> if name = [] then None else Some name))"

definition rewrite_plan :: "harden_env \<Rightarrow> fs \<Rightarrow> string \<Rightarrow> string \<times> string \<Rightarrow> (string \<times> string) + patch" where
  \<comment> \<open>the checks of --mcp-command-rewrite: the refusal, or the patch\<close>
  "rewrite_plan h s tp on =
     (let oldPath = fst on; newPath = snd on; pre = ''--mcp-command-rewrite new path '' @ quoted newPath
      in if \<not> existsSync s newPath then
           Inl (''mcp-rewrite-target-missing'',
             pre @ '' does not exist on disk; harden will not write a path that cannot be verified'')
         else if \<not> executable_bits h s newPath then
           Inl (''mcp-rewrite-target-not-executable'',
             pre @ '' exists but is not executable; harden will not write a non-executable MCP server command'')
         else if he_owner h newPath \<noteq> he_uid h then
           Inl (''mcp-rewrite-foreign-owner'',
             pre @ '' is owned by uid '' @ show_int (he_owner h newPath) @ '', not by the running user (uid ''
               @ show_int (he_uid h)
               @ ''); harden will not rewrite an MCP server command to a path owned by another user'')
         else (case source_server s tp oldPath of
             None \<Rightarrow>
               Inl (''mcp-rewrite-source-not-found'',
                 ''--mcp-command-rewrite source path '' @ quoted oldPath
                   @ '' does not match the command field of any mcpServers entry in settings.json'')
           | Some name \<Rightarrow>
               Inr (set_patch [KStr ''mcpServers'', KStr name, KStr ''command''] (JStr newPath))))"

definition plan_patch :: "harden_env \<Rightarrow> fs \<Rightarrow> finding \<Rightarrow> patch \<Rightarrow> err + (string \<times> string) + harden_op" where
  \<comment> \<open>preApply: a refusal, or the operation\<close>
  "plan_patch h s f p =
     (let tp = f_targetPath f; op = \<lparr>rw_target = tp, rw_patch = Some p\<rparr>
      in case preApply (he_jsonc h) op s of
           Inl x \<Rightarrow> Inl x
         | Inr (Refusal reason) \<Rightarrow> Inr (Inl (reason, he_message h reason tp))
         | Inr (Planned n) \<Rightarrow>
             Inr (Inr \<lparr>hp_detector = f_id f, hp_target = tp, hp_rewrite = op, hp_bytes = n, hp_files = [tp]\<rparr>))"

definition plan_finding ::
  "harden_env \<Rightarrow> harden_opts \<Rightarrow> patch_registry \<Rightarrow> fs \<Rightarrow> finding \<Rightarrow> err + (string \<times> string) + harden_op" where
  \<comment> \<open>one round of the candidate loop\<close>
  "plan_finding h opts registry s f =
     (let tp = f_targetPath f
      in if looksLikeNetworkFs s tp (ho_forceNetworkFs opts) then
           Inr (Inl (''settings-network-filesystem'',
             ''Target '' @ tp @ '' appears to be on a network filesystem (NFS/SMB); harden refuses to write without an atomic-rename guarantee''))
         else (case ho_rewrite opts of
             Some on \<Rightarrow>
               (if f_id f = ''settings.mcp_command_missing''
                then (case rewrite_plan h s tp on of Inl rm \<Rightarrow> Inr (Inl rm) | Inr p \<Rightarrow> plan_patch h s f p)
                else plan_patch h s f (generatePatchForFinding s f registry))
           | None \<Rightarrow> plan_patch h s f (generatePatchForFinding s f registry)))"

fun harden_candidates ::
  "harden_env \<Rightarrow> string \<Rightarrow> harden_opts \<Rightarrow> patch_registry \<Rightarrow> finding list
   \<Rightarrow> (harden_op list \<times> clean_refusal list) io" where
  "harden_candidates h home opts registry [] = returnI ([], [])"
| "harden_candidates h home opts registry (f # fs) =
     (if f_targetPath f = [] then harden_candidates h home opts registry fs
      else bindI (liftI (\<lambda>s. plan_finding h opts registry s f)) (\<lambda>v.
        (case v of
           Inl rm \<Rightarrow>
             (let r = harden_refusal (f_id f) (f_targetPath f) rm
              in bindI (log_refusals (henv h) home [r]) (\<lambda>_.
                 bindI (harden_candidates h home opts registry fs) (\<lambda>(ops, rs). returnI (ops, r # rs))))
         | Inr op \<Rightarrow>
             bindI (harden_candidates h home opts registry fs) (\<lambda>(ops, rs). returnI (op # ops, rs)))))"

definition surplus_harden :: "harden_op \<Rightarrow> clean_refusal" where
  "surplus_harden op =
     \<lparr>cf_reason = ''no-mutation-mapping-in-v0.3'', cf_target = hp_target op, cf_detector = hp_detector op,
      cf_message = ''v0.3 hardens one finding per invocation; re-run harden for additional findings'',
      cf_nextStep = ''Re-run `harden --confirm --yes --target='' @ hp_detector op @ '' --path='' @ hp_target op
                    @ ''` to address the remaining findings.''\<rparr>"

definition keep_one_harden ::
  "env \<Rightarrow> string \<Rightarrow> harden_op list \<times> clean_refusal list \<Rightarrow> (harden_op list \<times> clean_refusal list) io" where
  "keep_one_harden e home = (\<lambda>(ops, refused).
     (if 1 < length ops
      then (let sorted = sort_key hp_target ops; surplus = map surplus_harden (tl sorted)
            in bindI (log_refusals e home surplus) (\<lambda>_. returnI ([hd sorted], refused @ surplus)))
      else returnI (ops, refused)))"

definition no_finding :: "harden_opts \<Rightarrow> clean_refusal" where
  "no_finding opts = harden_refusal (ho_target opts) (ho_path opts)
     (''no-finding-for-target'',
      ''No finding for detector '' @ quoted (ho_target opts)
        @ (if ho_path opts = [] then [] else '' at '' @ ho_path opts))"

definition not_hardenable :: "finding \<Rightarrow> clean_refusal" where
  "not_hardenable f = harden_refusal (f_id f) (f_targetPath f)
     (''no-mutation-mapping-in-v0.3'', ''Detector '' @ quoted (f_id f) @ '' is not hardenable in v0.3'')"

definition forwarded :: "clean_refusal list \<Rightarrow> clean_refusal list" where
  "forwarded rs = filter (\<lambda>r. cf_reason r \<noteq> ''no-mutation-mapping-in-v0.2'') rs"

definition harden_checks ::
  "harden_env \<Rightarrow> string \<Rightarrow> harden_opts \<Rightarrow> finding list \<Rightarrow> (harden_op list \<times> clean_refusal list) io" where
  \<comment> \<open>from the test for candidates to the one-operation rule\<close>
  "harden_checks h home opts cands =
     (let e = henv h; refuse = (\<lambda>rs. bindI (log_refusals e home rs) (\<lambda>_. returnI ([], rs)));
          registry = effectiveHardenableRegistry HARDENABLE_DETECTORS_V03 (ho_override opts)
      in if cands = [] then refuse [no_finding opts]
         else bindI (composeCleanPlan (he_exec h) home
                  \<lparr>cl_target = ho_target opts, cl_path = ho_path opts, cl_mode = Some (opt_or (ho_mode opts) Safe),
                   cl_allowed = Some (opt_or (ho_allowed opts) [Inert, KnownExecutionContext])\<rparr>) (\<lambda>probe.
              if forwarded (cp_refused probe) \<noteq> [] then refuse (forwarded (cp_refused probe))
              else if map_of registry (ho_target opts) = None then refuse (map not_hardenable cands)
              else bindI (harden_candidates h home opts registry cands) (keep_one_harden e home)))"

definition composeHardenPlan :: "harden_env \<Rightarrow> string \<Rightarrow> harden_opts \<Rightarrow> harden_plan io" where
  "composeHardenPlan h home opts s =
     (let e = henv h
      in case assembleReport (xe_audit (he_exec h)) home (default_audit_opts (opt_or (ho_mode opts) Safe)) s of
           Inl er \<Rightarrow> (Inl er, s)
         | Inr rep \<Rightarrow>
             bindI (harden_checks h home opts (candidates_of rep (ho_target opts) (ho_path opts))) (\<lambda>(ops, refused).
               returnI \<lparr>hq_home = home, hq_detector = ho_target opts, hq_target = ho_path opts, hq_operations = ops,
                        hq_refused = refused, hq_composedAt = e_iso e (e_now e), hq_reportHash = hashReport e rep,
                        hq_validatedAt = None\<rparr>) s)"

subsection \<open>validateHardenPlan and executeHardenPlan\<close>

fun revalidate_harden :: "harden_env \<Rightarrow> fs \<Rightarrow> string \<Rightarrow> string \<Rightarrow> harden_op list \<Rightarrow> err option" where
  "revalidate_harden h s expected current [] = None"
| "revalidate_harden h s expected current (op # ops) =
     (case preApply (he_jsonc h) (hp_rewrite op) s of
        Inl x \<Rightarrow> Some x
      | Inr (Refusal reason) \<Rightarrow> Some (HardenPlanDriftError expected (current @ '':'' @ reason))
      | Inr (Planned n) \<Rightarrow> revalidate_harden h s expected current ops)"

definition validateHardenPlan :: "harden_env \<Rightarrow> harden_plan \<Rightarrow> string \<Rightarrow> fs \<Rightarrow> err + harden_plan" where
  "validateHardenPlan h plan home s =
     (let e = henv h
      in bindE (assembleReport (xe_audit (he_exec h)) home (default_audit_opts Safe) s) (\<lambda>rep.
         (let current = hashReport e rep
          in if current \<noteq> hq_reportHash plan then Inl (HardenPlanDriftError (hq_reportHash plan) current)
             else (case revalidate_harden h s (hq_reportHash plan) current (hq_operations plan) of
                     Some er \<Rightarrow> Inl er
                   | None \<Rightarrow> Inr (plan\<lparr>hq_validatedAt := Some (e_iso e (e_now e))\<rparr>)))))"

definition harden_consent :: "harden_op \<Rightarrow> string" where
  "harden_consent op = join_with [nl]
     [''harden --confirm --yes '' @ em_dash @ '' rewrite settings file via patch'',
      ''  detector: '' @ hp_detector op, ''  target:   '' @ hp_target op, ''  bytes:    '' @ show_nat (hp_bytes op)]"

definition harden_options :: "harden_op \<Rightarrow> snap_opts" where
  "harden_options op =
     \<lparr>so_targets = [hp_target op], so_command = ''harden'', so_mode = ''confirm'', so_consent = harden_consent op,
      so_version = []\<rparr>"

definition harden_log :: "env \<Rightarrow> string \<Rightarrow> json \<Rightarrow> harden_op \<Rightarrow> unit io" where
  "harden_log e home m op =
     swallowI (appendApplied e home
       (obj_of [(''opId'', jget ''id'' m), (''status'', jget ''status'' m), (''command'', Some (JStr ''harden'')),
                (''targets'', Some (JArr [JStr (hp_target op)])), (''filesCount'', Some (JNum (int (length (hp_files op))))),
                (''partialApply'', if is_partial m then Some (JBool True) else None)]))"

definition rewrite_function :: "harden_env \<Rightarrow> string \<Rightarrow> rewrite_op \<Rightarrow> string \<Rightarrow> unit io" where
  \<comment> \<open>apply: async () => { await handler.apply(op.mutationOp); }\<close>
  "rewrite_function h hex op = (\<lambda>p. bindI (rewrite_apply (he_jsonc h) hex op) (\<lambda>_. returnI ()))"

definition run_harden :: "harden_env \<Rightarrow> nat \<Rightarrow> string \<Rightarrow> harden_op \<Rightarrow> json io" where
  \<comment> \<open>takeSnapshot, applyOperation, then verify unless the apply was partial, and the log line\<close>
  "run_harden h k home op =
     (let e = henv h; hex = xe_hex (he_exec h) k
      in bindI (takeSnapshot e (xe_opid (he_exec h) k) hex (dirname home) (harden_options op)) (\<lambda>(i, m0).
         bindI (applyOperation e (hex 4) i (dirname home) [rewrite_function h (hex 3) (hp_rewrite op)]) (\<lambda>applied.
         if is_partial applied
         then bindI (harden_log e home applied op) (\<lambda>_. returnI applied)
         else bindI (verify_op e (hex 5) i (dirname home)) (\<lambda>v.
              bindI (swallowI (appendApplied e home
                (obj_of [(''opId'', jget ''id'' v), (''status'', jget ''status'' v), (''command'', Some (JStr ''harden'')),
                         (''targets'', Some (JArr [JStr (hp_target op)])),
                         (''filesCount'', Some (JNum (int (length (hp_files op)))))])))
              (\<lambda>_. returnI v)))))"

fun harden_loop :: "harden_env \<Rightarrow> string \<Rightarrow> nat \<Rightarrow> json option \<Rightarrow> harden_op list \<Rightarrow> json option io" where
  "harden_loop h home k final [] = returnI final"
| "harden_loop h home k final (op # ops) =
     bindI (run_harden h k home op) (\<lambda>m.
       if is_partial m then returnI (Some m) else harden_loop h home (Suc k) (Some m) ops)"

definition as_harden_lock :: "err \<Rightarrow> err" where
  "as_harden_lock x = (case x of LockHeldError m \<Rightarrow> HardenLockHeldError m | _ \<Rightarrow> x)"

definition executeHardenPlan :: "harden_env \<Rightarrow> harden_plan \<Rightarrow> string \<Rightarrow> json option io" where
  "executeHardenPlan h plan home s =
     (case acquireLock (henv h) home s of
        (Inl x, s1) \<Rightarrow> (Inl (as_harden_lock x), s1)
      | (Inr lock, s1) \<Rightarrow>
          finallyI (bindI (gcSnapshots (dirname home)) (\<lambda>_. harden_loop h home 0 None (hq_operations plan)))
            (releaseLock (henv h) lock ''verified'') s1)"

end
