(* ===== verification/Sample_Disk.thy ===== *)
theory Sample_Disk
  imports Audit_Facts Clean
begin

text \<open>
  A small disk on which the audit has something to report: a settings file whose hook has a
  missing working directory, and an unreadable lockfile. The report is evaluated once here and
  used by the examples of the planners.
\<close>

definition live_settings :: json where
  "live_settings = JObj [(''hooks'', JArr [JObj [(''cwd'', JStr ''/x'')]])]"

definition live_fs :: fs where
  "live_fs = [(''/'', Dir), (''/h'', Dir), (''/h/settings.json'', File (json_pretty live_settings @ [nl]) 420),
     (''/h/housekeeper'', Dir), (''/h/housekeeper/lock'', File ''x'' 420)]"

definition live_cx :: ctx where
  "live_cx = \<lparr>cx_fs = live_fs, cx_env = demo_env, cx_home = ''/h'', cx_mode = Safe,
     cx_settings = \<lparr>jr_ok = True, jr_value = live_settings, jr_raw = json_pretty live_settings @ [nl], jr_error = []\<rparr>,
     cx_settingsFile = ''/h/settings.json'',
     cx_config = \<lparr>cfg_file = None, cfg_rules = [], cfg_error = None\<rparr>,
     cx_plugins = [], cx_skills = [], cx_commands = [], cx_projectsRoot = ''/h/projects'',
     cx_projects = \<lparr>w_entries = [], w_degraded = [], w_stopped = False\<rparr>,
     cx_ops = \<lparr>op_path = ''/h/housekeeper/operations'', op_exists = False, op_unreadable = False,
               op_names = [], op_error = []\<rparr>,
     cx_degraded = [], cx_markers = [], cx_applied = [], cx_historyFile = []\<rparr>"

lemma live_settings_plain: "json_plain live_settings"
  by (simp add: live_settings_def)

lemma live_settings_node: "fget ''/h/settings.json'' live_fs = Some (File (json_pretty live_settings @ [nl]) 420)"
  by (simp add: live_fs_def fget_def)

lemma live_settings_json: "read_json live_fs ''/h/settings.json'' = Inr live_settings"
  using json_parse_pretty_nl [OF live_settings_plain] live_settings_node by (simp add: read_json_def)

lemma live_config: "loadConfig live_fs ''/h'' None = \<lparr>cfg_file = None, cfg_rules = [], cfg_error = None\<rparr>"
  by code_simp

lemma live_context: "loadContext demo_env ''/h'' (default_audit_opts Safe) live_fs = Inr live_cx"
proof -
  have ps: "path_join [''/h'', ''settings.json''] = ''/h/settings.json''"
    "path_join [''/h'', ''plugins'', ''installed_plugins.json''] = ''/h/plugins/installed_plugins.json''"
    "path_join [''/h'', ''projects''] = ''/h/projects''" by code_simp+
  have w: "walkBounded live_fs (mtimeMs demo_env) (ae_elapsed demo_env) ''/h/projects''
      (Some (al_maxFiles (pickScanLimits None None None))) (Some (al_maxWallMs (pickScanLimits None None None)))
    = Some \<lparr>w_entries = [], w_degraded = [], w_stopped = False\<rparr>" by code_simp
  have o: "probeOperationsDir live_fs ''/h'' = \<lparr>op_path = ''/h/housekeeper/operations'', op_exists = False,
      op_unreadable = False, op_names = [], op_error = []\<rparr>" by code_simp
  have m: "loadFalsePositiveMarkers live_fs ''/h'' = Inr []" "loadAppliedEntries live_fs ''/h'' = []" by code_simp+
  have i: "audit_readJson demo_env live_fs ''/h/plugins/installed_plugins.json''
      = \<lparr>jr_ok = True, jr_value = JNull, jr_raw = [], jr_error = []\<rparr>" by code_simp
  have s: "audit_readJson demo_env live_fs ''/h/settings.json''
      = \<lparr>jr_ok = True, jr_value = live_settings, jr_raw = json_pretty live_settings @ [nl], jr_error = []\<rparr>"
    using json_parse_pretty_nl [OF live_settings_plain] live_settings_node
    by (simp add: audit_readJson_def)
  have f: "flattenPluginEntries JNull ''/h'' = Inr []" by code_simp
  have r: "plugin_resources live_fs collectSkills ''skills'' [] = []" "plugin_resources live_fs collectCommands ''commands'' [] = []"
    by code_simp+
  show ?thesis
    by (simp add: loadContext_def default_audit_opts_def Let_def ps w o m i s f r live_config live_cx_def)
qed

lemma live_silent:
  "detectPluginUnusedPastGrace live_cx = Inr []" "localCommandIdentityFindings live_cx True = Inr []"
  "localCommandIdentityFindings live_cx False = Inr []" "detectHousekeeperConfigInvalid live_cx = None"
  "detectHousekeeperOperationsUnreadable live_cx = None" "detectSettingsInvalidJson live_cx = None"
  "detectSettingsJsoncDetected live_cx = None" "detectHookPathDangling live_cx = []"
  "detectHookCommandShellAmbiguous live_cx = []" "detectMcpCommandMissing live_cx = []"
  "detectPluginExpectedOrphan live_cx = []" "detectPluginCacheUnreferenced live_cx = []"
  "detectPluginCacheReferencedByHook live_cx = []" "detectPluginDuplicateRegistration live_cx = []"
  "detectPluginCacheSize live_cx = None" "detectLocalSkillShadow live_cx = []"
  "detectRegistryBrokenFrontmatter live_cx = []" "detectRegistryCommandDangling live_cx = []"
  "detectSkillsEntryDangling live_cx = []" "detectInterruptedOperation live_cx = None" "detectScanBudget live_cx = None"
  by code_simp+

definition live_lock :: raw where
  "live_lock = (case detectHousekeeperStaleLock live_cx of Inr (Some r) \<Rightarrow> r | _ \<Rightarrow> detectHomeNotFound [])"

definition live_hook :: raw where
  "live_hook = hd (detectHooksConfigDangling live_cx)"

lemma live_found:
  "detectHousekeeperStaleLock live_cx = Inr (Some live_lock)" "detectHooksConfigDangling live_cx = [live_hook]"
proof -
  have "(case detectHousekeeperStaleLock live_cx of Inr (Some r) \<Rightarrow> True | _ \<Rightarrow> False)" by code_simp
  then show "detectHousekeeperStaleLock live_cx = Inr (Some live_lock)"
    by (auto simp: live_lock_def split: sum.splits option.splits)
  have "length (detectHooksConfigDangling live_cx) = 1" by code_simp
  then show "detectHooksConfigDangling live_cx = [live_hook]"
    unfolding live_hook_def by (cases "detectHooksConfigDangling live_cx") auto
qed

lemma live_raws:
  "w_id live_lock = ''housekeeper.stale_lock''" "w_target live_lock = ''/h/housekeeper/lock''"
  "w_id live_hook = ''hooks.config_dangling''" "w_target live_hook = ''/h/settings.json''"
  by code_simp+

definition live_finding :: "raw \<Rightarrow> finding" where
  "live_finding r = buildFinding r ''/h'' Safe (\<lambda>t. collectPolicyMatches t live_cx) []"

definition live_report :: report where
  "live_report = report_of (sample_env 0) ''/h'' Safe (map live_finding [live_lock, live_hook]) []"

lemma live_assembled: "assembleReport demo_env ''/h'' (default_audit_opts Safe) live_fs = Inr live_report"
proof -
  obtain sel where sel: "selectedDetectors ''all'' = Some sel" "List.member sel ''housekeeper.stale_lock''"
    "List.member sel ''hooks.config_dangling''"
  proof -
    have "selectedDetectors ''all'' \<noteq> None" "List.member (the (selectedDetectors ''all'')) ''housekeeper.stale_lock''"
      "List.member (the (selectedDetectors ''all'')) ''hooks.config_dangling''" by code_simp+
    then show ?thesis using that by auto
  qed
  have h: "existsSync live_fs ''/h''" "is_directory live_fs ''/h''" by code_simp+
  have "detector_outputs sel live_cx = Inr [live_lock, live_hook]"
    using sel(2,3) by (simp add: detector_outputs_def live_silent live_found push_def pushAll_def live_raws)
  then show ?thesis
    using sel(1) h
    by (simp add: assembleReport_def live_context default_audit_opts_def str_or_def live_report_def live_finding_def
        live_context [unfolded default_audit_opts_def] comp_def)
       (simp add: live_cx_def demo_env_def)
qed

lemma live_findings: "r_findings live_report = [live_finding live_lock, live_finding live_hook]"
  by (simp add: live_report_def report_of_def makeReport_def)

lemma live_surfaces:
  "f_policyMatches (live_finding r) = []"
  "executionClass (f_surface (live_finding live_lock)) = Inert" "executionClass (f_surface (live_finding live_hook)) = Inert"
  "rollbackClass (f_surface (live_finding live_lock)) = ManifestBacked"
  "rollbackClass (f_surface (live_finding live_hook)) = SnapshotPossible"
  "ownerClass (f_surface (live_finding live_lock)) = HousekeeperOwned"
  "ownerClass (f_surface (live_finding live_hook)) = UserOwned"
proof -
  show "f_policyMatches (live_finding r) = []"
    by (simp add: live_finding_def buildFinding_def Let_def collectPolicyMatches_def live_cx_def)
qed (code_simp)+

end
