(* ===== verification/Clean_Facts.thy ===== *)
theory Clean_Facts
  imports Clean_Exec Sample_Disk "HOL-Library.Multiset"
begin

text \<open>
  Facts about clean plans: what an accepted operation has passed, that planning writes nothing
  but the refusal log, that validation notices every change of the report, the bounds of a
  batch and the chunks of a stream.
\<close>

subsection \<open>The classifier\<close>


lemma guard_None: "((if c then Some v else y) = None) = (\<not> c \<and> y = None)"
  by simp

definition acceptable :: "classify_ctx \<Rightarrow> finding \<Rightarrow> bool" where
  "acceptable cc f =
     (let tp = f_targetPath f; sf = f_surface f in
      cc_interruptions cc = []
      \<and> (\<forall>r \<in> set (cc_rules cc). \<not> rule_hits (cc_home cc) tp r) \<and> f_policyMatches f = []
      \<and> (tp \<noteq> [] \<longrightarrow> \<not> isSectorBoundary tp (cc_home cc))
      \<and> executionClass sf \<in> set (cc_allowed cc) \<and> rollbackClass sf \<noteq> NotApplicable
      \<and> (ownerClass sf \<in> {ClaudeManaged, UserOwned} \<or> f_id f = ''housekeeper.stale_lock'' \<and> ownerClass sf = HousekeeperOwned)
      \<and> tp \<notin> set (cc_symlinked cc) \<and> tp \<notin> set (cc_refByHook cc) \<and> tp \<notin> set (cc_mcp cc)
      \<and> (f_id f = ''housekeeper.stale_lock'' \<longrightarrow> tp \<notin> set (cc_freshLocks cc))
      \<and> (f_id f = ''registry.local_command_identical'' \<longrightarrow> tp \<notin> set (cc_drifted cc))
      \<and> f_id f \<in> set CLEANABLE_DETECTORS_V02)"

lemma classify_accepts: "classifyFinding f cc = None \<longleftrightarrow> acceptable cc f"
proof (cases "find (rule_hits (cc_home cc) (f_targetPath f)) (cc_rules cc)")
  case None
  then have r: "\<forall>r \<in> set (cc_rules cc). \<not> rule_hits (cc_home cc) (f_targetPath f) r" by (simp add: find_None_iff)
  show ?thesis
  proof (cases "f_policyMatches f")
    case Nil
    show ?thesis
      unfolding classifyFinding_def acceptable_def Let_def None Nil option.case list.case guard_None
      by (simp only: eqTrueI [OF r] List.member_iff de_Morgan_conj de_Morgan_disj not_not list.set insert_iff empty_iff simp_thms imp_conv_disj)
  next
    case (Cons m ms)
    then show ?thesis
      unfolding classifyFinding_def acceptable_def Let_def None Cons option.case list.case guard_None
      by simp
  qed
next
  case (Some r)
  then have "\<not> (\<forall>r \<in> set (cc_rules cc). \<not> rule_hits (cc_home cc) (f_targetPath f) r)"
    by (auto simp: find_Some_iff)
  then show ?thesis
    unfolding classifyFinding_def acceptable_def Let_def Some option.case guard_None by (simp only: simp_thms option.distinct)
qed


subsection \<open>Planning only writes the refusal log\<close>

definition refusal_log :: "string \<Rightarrow> string" where
  "refusal_log home = path_join [learningDir home, ''refusals.jsonl'']"

definition only_log :: "string \<Rightarrow> fs \<Rightarrow> fs \<Rightarrow> bool" where
  \<comment> \<open>the two disks differ in the log at p and in new directories only\<close>
  "only_log p s s' = (no_link s p \<longrightarrow> no_link s' p \<and>
     (\<forall>q. q \<noteq> p \<longrightarrow> fget q s' = fget q s \<or> fget q s = None \<and> fget q s' = Some Dir))"

lemma only_log_refl [simp]: "only_log p s s"
  by (simp add: only_log_def)

lemma only_log_trans: "only_log p s t \<Longrightarrow> only_log p t u \<Longrightarrow> only_log p s u"
  unfolding only_log_def by (metis option.distinct(1))

lemma append_file_only: "only_log p s (snd (append_file p text s))"
proof (cases "no_link s p")
  case True
  then have "real_path s p = p" by (intro real_path_direct) (simp add: no_link_def)
  with True show ?thesis
    by (auto simp: only_log_def append_file_def no_link_def split: option.splits node.splits)
qed (simp add: only_log_def)

lemma mkdir_only: "only_log p s (snd (mkdir_recursive d s))"
  by (auto simp: only_log_def no_link_def mkdir_recursive_def mkdirs_get)

lemma bindI_only:
  assumes "only_log p s (snd (m s))" and "\<And>x t. only_log p t (snd (f x t))"
  shows "only_log p s (snd (bindI m f s))"
  using assms by (cases "m s") (auto simp: bindI_def split: sum.splits intro: only_log_trans)

lemma appendRefusal_only: "only_log (refusal_log home) s (snd (appendRefusal e home r s))"
  unfolding appendRefusal_def ensureDir_def appendJsonlLine_def refusal_log_def [symmetric]
  by (rule bindI_only) (rule mkdir_only append_file_only)+

lemma log_refusal_run:
  "\<exists>s'. log_refusal e home t r p s = (Inr (), s') \<and> only_log (refusal_log home) s s'"
  unfolding log_refusal_def swallowI_def using appendRefusal_only by blast

lemma log_surplus_run:
  "\<exists>s'. log_surplus e home ops s = (Inr (), s') \<and> only_log (refusal_log home) s s'"
proof (induction ops arbitrary: s)
  case (Cons op ops)
  obtain t where t: "log_refusal e home (co_detector op) ''no-mutation-mapping-in-v0.2'' (co_target op) s = (Inr (), t)"
    "only_log (refusal_log home) s t" using log_refusal_run by blast
  obtain u where u: "log_surplus e home ops t = (Inr (), u)" "only_log (refusal_log home) t u"
    using Cons by blast
  from t u show ?case by (auto simp: bindI_def intro: only_log_trans)
qed (simp add: returnI_def)

definition op_key :: "clean_op \<Rightarrow> string \<times> string" where
  "op_key op = (co_detector op, co_target op)"

definition finding_key :: "finding \<Rightarrow> string \<times> string" where
  "finding_key f = (f_id f, f_targetPath f)"

lemma op_key_build [simp]: "op_key (build_operation s f) = finding_key f"
  by (simp add: op_key_def finding_key_def build_operation_def Let_def)

lemma plan_candidates_run:
  "\<exists>ops rs s'. plan_candidates e home cc fs s = (Inr (ops, rs), s') \<and> only_log (refusal_log home) s s'
     \<and> map op_key ops = map finding_key (filter (acceptable cc) fs)
     \<and> length ops + length rs = length fs
     \<and> (\<forall>f \<in> set fs. \<forall>rm. classifyFinding f cc = Some rm \<longrightarrow> refusal_of f rm \<in> set rs)"
proof (induction fs arbitrary: s)
  case (Cons f fs)
  show ?case
  proof (cases "classifyFinding f cc")
    case None
    then have acc: "acceptable cc f" by (simp add: classify_accepts)
    obtain ops rs s' where "plan_candidates e home cc fs s = (Inr (ops, rs), s')" "only_log (refusal_log home) s s'"
      "map op_key ops = map finding_key (filter (acceptable cc) fs)" "length ops + length rs = length fs"
      "\<forall>f \<in> set fs. \<forall>rm. classifyFinding f cc = Some rm \<longrightarrow> refusal_of f rm \<in> set rs"
      using Cons by blast
    then show ?thesis using None acc by (simp add: bindI_def liftI_def returnI_def)
  next
    case (Some rm)
    then have acc: "\<not> acceptable cc f" by (simp flip: classify_accepts)
    obtain t where t: "log_refusal e home (f_id f) (fst rm) (f_targetPath f) s = (Inr (), t)"
      "only_log (refusal_log home) s t" using log_refusal_run by blast
    obtain ops rs s' where "plan_candidates e home cc fs t = (Inr (ops, rs), s')" "only_log (refusal_log home) t s'"
      "map op_key ops = map finding_key (filter (acceptable cc) fs)" "length ops + length rs = length fs"
      "\<forall>f \<in> set fs. \<forall>rm. classifyFinding f cc = Some rm \<longrightarrow> refusal_of f rm \<in> set rs"
      using Cons by blast
    then show ?thesis using Some acc t by (auto simp: bindI_def returnI_def intro: only_log_trans)
  qed
qed (simp add: returnI_def)

lemma tie_break_set [simp]: "mset (tie_break ops) = mset ops" "set (tie_break ops) = set ops"
    "length (tie_break ops) = length ops"
  by (simp_all add: tie_break_def)

lemma keep_one_run:
  "\<exists>ops' rs' s'. keep_one e home (ops, rs) s = (Inr (ops', rs'), s') \<and> only_log (refusal_log home) s s'
     \<and> ops' = take 1 (tie_break ops) \<and> length ops' + length rs' = length ops + length rs \<and> set rs \<subseteq> set rs'"
proof (cases "1 < length ops")
  case True
  then obtain op os where so: "tie_break ops = op # os" by (metis tie_break_set(3) length_0_conv list.exhaust not_less_zero)
  then have len: "length os + 1 = length ops" by (metis tie_break_set(3) Suc_eq_plus1 length_Cons)
  obtain t where t: "log_surplus e home os s = (Inr (), t)" "only_log (refusal_log home) s t"
    using log_surplus_run by blast
  from True so len t show ?thesis by (simp add: keep_one_def bindI_def returnI_def Let_def)
next
  case False
  then have "take 1 (tie_break ops) = ops" by (cases ops; cases "tl ops") (auto simp: tie_break_def)
  with False show ?thesis by (simp add: keep_one_def returnI_def)
qed

lemma compose_run:
  assumes "composeCleanPlan x home opts s = (Inr plan, s')"
  obtains rep cc ops where
    "assembleReport (xe_audit x) home (default_audit_opts (opt_or (cl_mode opts) Safe)) s = Inr rep"
    "classify_context (xenv x) s home rep (candidates_of rep (cl_target opts) (cl_path opts))
       (opt_or (cl_allowed opts) DEFAULT_ALLOWED_EXECUTION_CLASSES) = Inr cc"
    "cp_operations plan = take 1 (tie_break ops)"
    "map op_key ops = map finding_key (filter (acceptable cc) (candidates_of rep (cl_target opts) (cl_path opts)))"
    "length (cp_operations plan) + length (cp_refused plan) = length (candidates_of rep (cl_target opts) (cl_path opts))"
    "cp_reportHash plan = hashReport (xenv x) rep"
    "only_log (refusal_log home) s s'"
    "\<And>f rm. f \<in> set (candidates_of rep (cl_target opts) (cl_path opts)) \<Longrightarrow> classifyFinding f cc = Some rm \<Longrightarrow>
       refusal_of f rm \<in> set (cp_refused plan)"
proof -
  obtain rep where rep: "assembleReport (xe_audit x) home (default_audit_opts (opt_or (cl_mode opts) Safe)) s = Inr rep"
    using assms by (auto simp: composeCleanPlan_def Let_def split: sum.splits)
  let ?c = "candidates_of rep (cl_target opts) (cl_path opts)"
  obtain cc where cc: "classify_context (xenv x) s home rep ?c (opt_or (cl_allowed opts) DEFAULT_ALLOWED_EXECUTION_CLASSES) = Inr cc"
    using assms rep by (auto simp: composeCleanPlan_def Let_def split: sum.splits)
  obtain ops rs t where p: "plan_candidates (xenv x) home cc ?c s = (Inr (ops, rs), t)" "only_log (refusal_log home) s t"
     "map op_key ops = map finding_key (filter (acceptable cc) ?c)" "length ops + length rs = length ?c"
     "\<forall>f \<in> set ?c. \<forall>rm. classifyFinding f cc = Some rm \<longrightarrow> refusal_of f rm \<in> set rs"
    using plan_candidates_run by blast
  obtain ops' rs' u where k: "keep_one (xenv x) home (ops, rs) t = (Inr (ops', rs'), u)" "only_log (refusal_log home) t u"
     "ops' = take 1 (tie_break ops)" "length ops' + length rs' = length ops + length rs" "set rs \<subseteq> set rs'"
    using keep_one_run by blast
  from assms rep cc p(1) k(1) have pl: "cp_operations plan = ops'" "cp_refused plan = rs'"
     "cp_reportHash plan = hashReport (xenv x) rep" "s' = u"
    by (auto simp: composeCleanPlan_def Let_def bindI_def returnI_def)
  show ?thesis
    by (rule that [OF rep cc]) (use p k pl only_log_trans in auto)
qed

lemma link_case [simp]:
  "(case fget p s of None \<Rightarrow> False | Some (Link t) \<Rightarrow> True | Some _ \<Rightarrow> False) \<longleftrightarrow> \<not> no_link s p"
  by (auto simp: no_link_def split: option.splits node.splits)

lemma context_fields:
  assumes "classify_context e s home rep cands allowed = Inr cc"
  shows "cc_home cc = home" "cc_interruptions cc = targets_of ''housekeeper.interrupted_operation'' rep"
    "cc_refByHook cc = targets_of ''plugin.cache_referenced_by_hook'' rep"
    "cc_rules cc = cfg_rules (loadConfig s home None)" "cc_allowed cc = allowed"
    "f \<in> set cands \<Longrightarrow> f_targetPath f \<noteq> [] \<Longrightarrow> existsSync s (f_targetPath f) \<Longrightarrow>
       (f_targetPath f \<in> set (cc_symlinked cc) \<longleftrightarrow> \<not> no_link s (f_targetPath f))
     \<and> (f_targetPath f \<in> set (cc_mcp cc) \<longleftrightarrow> hasMcpServer s (f_targetPath f))"
  using assms by (auto simp: classify_context_def bindE_eq_Inr)

definition passes :: "exec_class list \<Rightarrow> string \<Rightarrow> finding \<Rightarrow> bool" where
  \<comment> \<open>what the report itself must say of a finding before it is cleaned\<close>
  "passes allowed home f =
     (f_policyMatches f = [] \<and> (f_targetPath f = [] \<or> \<not> isSectorBoundary (f_targetPath f) home)
      \<and> executionClass (f_surface f) \<in> set allowed \<and> rollbackClass (f_surface f) \<noteq> NotApplicable
      \<and> (ownerClass (f_surface f) \<in> {ClaudeManaged, UserOwned}
         \<or> f_id f = ''housekeeper.stale_lock'' \<and> ownerClass (f_surface f) = HousekeeperOwned))"

lemma acceptable_passes:
  assumes "classify_context e s home rep cands allowed = Inr cc" and "acceptable cc f" and "f \<in> set cands"
  shows "passes allowed home f" and "f_id f \<in> set CLEANABLE_DETECTORS_V02"
    and "targets_of ''housekeeper.interrupted_operation'' rep = []"
    and "f_targetPath f \<notin> set (targets_of ''plugin.cache_referenced_by_hook'' rep)"
    and "\<not> list_ex (rule_hits home (f_targetPath f)) (cfg_rules (loadConfig s home None))"
    and "f_targetPath f \<noteq> [] \<Longrightarrow> existsSync s (f_targetPath f) \<Longrightarrow>
         no_link s (f_targetPath f) \<and> \<not> hasMcpServer s (f_targetPath f)"
  using assms(2,3) context_fields(6) [OF assms(1,3)]
  unfolding acceptable_def passes_def Let_def context_fields(1-5) [OF assms(1)]
  by (auto simp: list_ex_iff)

lemma plan_op_finding:
  assumes "op \<in> set (take 1 (tie_break ops))" and "map op_key ops = map finding_key (filter P cands)"
  obtains f where "f \<in> set cands" "P f" "f_id f = co_detector op" "f_targetPath f = co_target op"
proof -
  from assms(1) have "op \<in> set ops" using in_set_takeD tie_break_set(2) by fastforce
  then have "op_key op \<in> set (map finding_key (filter P cands))" using assms(2) by (metis image_eqI set_map)
  then show ?thesis using that by (auto simp: op_key_def finding_key_def)
qed

subsection \<open>Properties\<close>


lemma compose_total:
  assumes "assembleReport (xe_audit x) home (default_audit_opts (opt_or (cl_mode opts) Safe)) s = Inr rep"
    and "classify_context (xenv x) s home rep (candidates_of rep (cl_target opts) (cl_path opts))
       (opt_or (cl_allowed opts) DEFAULT_ALLOWED_EXECUTION_CLASSES) = Inr cc"
  shows "\<exists>plan s'. composeCleanPlan x home opts s = (Inr plan, s')"
proof -
  let ?c = "candidates_of rep (cl_target opts) (cl_path opts)"
  obtain ops rs t where p: "plan_candidates (xenv x) home cc ?c s = (Inr (ops, rs), t)"
    using plan_candidates_run by blast
  obtain ops' rs' u where k: "keep_one (xenv x) home (ops, rs) t = (Inr (ops', rs'), u)"
    using keep_one_run by blast
  from assms p k show ?thesis by (auto simp: composeCleanPlan_def Let_def bindI_def returnI_def)
qed

definition demo_exec :: exec_env where
  "demo_exec = \<lparr>xe_audit = demo_env, xe_opid = (\<lambda>k. ''op''), xe_hex = (\<lambda>k j. ''ab''), xe_stream = ''stream_1''\<rparr>"

definition demo_clean :: clean_opts where
  "demo_clean = \<lparr>cl_target = ''home.not_found'', cl_path = [], cl_mode = None, cl_allowed = None\<rparr>"

definition demo_report :: report where
  "demo_report = earlyReport (sample_env 0) ''/h'' Safe [detectHomeNotFound ''/h'']"

lemma demo_assembled: "assembleReport demo_env ''/h'' (default_audit_opts Safe) [] = Inr demo_report"
proof -
  have "\<not> existsSync [] ''/h''" by code_simp
  then show ?thesis
    by (simp add: assembleReport_def default_audit_opts_def selectedDetectors_def SCOPE_TO_DETECTORS_def
        str_or_def demo_report_def demo_env_def)
qed

lemma demo_ids: "map f_id (r_findings demo_report) = [''home.not_found'']"
  by (simp add: demo_report_def earlyReport_def report_of_def makeReport_def)

lemma demo_composes: "\<exists>plan s'. composeCleanPlan demo_exec ''/h'' demo_clean [] = (Inr plan, s')"
proof -
  have "drifted_commands e s h (candidates_of demo_report ''home.not_found'' []) = Inr []" for e s h
    using demo_ids by (auto simp: candidates_of_def filter_eq_Cons_iff map_eq_Cons_conv)
  then show ?thesis
    by (intro compose_total [of _ _ _ _ demo_report])
      (simp_all add: demo_exec_def demo_clean_def demo_assembled classify_context_def)
qed

lemma demo_no_operation:
  assumes "composeCleanPlan demo_exec ''/h'' demo_clean [] = (Inr plan, s')"
  shows "cp_operations plan = []"
proof (rule compose_run [OF assms])
  fix rep cc ops
  assume "cp_operations plan = take 1 (tie_break ops)" and
    keys: "map op_key ops = map finding_key (filter (acceptable cc) (candidates_of rep (cl_target demo_clean) (cl_path demo_clean)))"
  have "filter (acceptable cc) (candidates_of rep (cl_target demo_clean) (cl_path demo_clean)) = []"
    by (auto simp: filter_empty_conv candidates_of_def demo_clean_def acceptable_def Let_def CLEANABLE_DETECTORS_V02_def)
  with keys \<open>cp_operations plan = take 1 (tie_break ops)\<close> show ?thesis by (simp add: tie_break_def)
qed

definition live_clean :: clean_opts where
  "live_clean = \<lparr>cl_target = ''housekeeper.stale_lock'', cl_path = [], cl_mode = None, cl_allowed = None\<rparr>"

lemma live_candidates: "candidates_of live_report ''housekeeper.stale_lock'' [] = [live_finding live_lock]"
  by (simp add: candidates_of_def live_findings) (simp add: live_finding_def live_raws)

lemma live_classified:
  "\<exists>cc. classify_context (sample_env 0) live_fs ''/h'' live_report [live_finding live_lock] [Inert] = Inr cc
      \<and> acceptable cc (live_finding live_lock)"
proof -
  have t: "f_targetPath (live_finding live_lock) = ''/h/housekeeper/lock''" "f_id (live_finding live_lock) = ''housekeeper.stale_lock''"
    by (simp_all add: live_finding_def live_raws)
  have d: "drifted_commands (sample_env 0) live_fs ''/h'' [live_finding live_lock] = Inr []" by (simp add: t)
  then obtain cc where cc: "classify_context (sample_env 0) live_fs ''/h'' live_report [live_finding live_lock] [Inert] = Inr cc"
    "cc_freshLocks cc = filter (lock_is_fresh (sample_env 0) live_fs) [''/h/housekeeper/lock'']" "cc_drifted cc = []"
    by (simp add: classify_context_def t Let_def)
  have no: "targets_of ''housekeeper.interrupted_operation'' live_report = []"
    "targets_of ''plugin.cache_referenced_by_hook'' live_report = []"
    by (simp_all add: targets_of_def live_findings) (simp_all add: live_finding_def live_raws)
  have "existsSync live_fs ''/h/housekeeper/lock''" "\<not> hasMcpServer live_fs ''/h/housekeeper/lock''"
    "\<not> lock_is_fresh (sample_env 0) live_fs ''/h/housekeeper/lock''" "\<not> isSectorBoundary ''/h/housekeeper/lock'' ''/h''"
    by code_simp+
  moreover have "no_link live_fs ''/h/housekeeper/lock''" by (simp add: no_link_def live_fs_def fget_def)
  ultimately have "acceptable cc (live_finding live_lock)"
    using context_fields(6) [OF cc(1), of "live_finding live_lock"] cc(2,3)
    unfolding acceptable_def Let_def context_fields(1-5) [OF cc(1)] no live_config
    by (simp add: t live_surfaces CLEANABLE_DETECTORS_V02_def)
  with cc(1) show ?thesis by blast
qed




subsection \<open>Validation\<close>

definition report_view :: "report \<Rightarrow> (string \<times> string \<times> stance) list" where
  "report_view rep = map (\<lambda>f. (f_id f, f_targetPath f, f_stance f)) (r_findings rep)"

lemma stance_text_inj: "stance_text a = stance_text b \<Longrightarrow> a = b"
  by (cases a; cases b; simp)

lemma digest_text_inj:
  assumes "report_digest_text a = report_digest_text b"
  shows "report_view a = report_view b"
proof -
  let ?g = "\<lambda>(i, t, st). JObj [(''id'', JStr i), (''targetPath'', JStr t), (''stance'', JStr (stance_text st))]"
  have "inj ?g" by (auto simp: inj_def intro: stance_text_inj)
  moreover have "JArr (map ?g (report_view a)) = JArr (map ?g (report_view b))"
    by (rule json_stringify_inj)
      (use assms in \<open>auto simp: report_digest_text_def report_view_def comp_def\<close>)
  ultimately show ?thesis by (simp add: inj_map_eq_map)
qed

lemma revalidate_None:
  "revalidate s home rules h c ops = None \<longleftrightarrow>
     (\<forall>op \<in> set ops. \<not> list_ex (rule_hits home (co_target op)) rules
        \<and> \<not> (existsSync s (co_target op) \<and> hasMcpServer s (co_target op)))"
  by (induction ops) auto

text \<open>C27: Validation notices every drift: when the validation of a composed plan succeeds on a later
  disk, the report there lists exactly the same findings (id, target and stance, in order) as the
  report the plan was made from, or else the two digest texts are a collision of the hash function;
  no target has become protected or gained an MCP server, and the plan is unchanged.\<close>

theorem clean_validate_detects_drift:
  assumes "composeCleanPlan x home opts s = (Inr plan, s')" and "validateCleanPlan y plan home t = Inr plan'"
    and "e_sha (xenv y) = e_sha (xenv x)"
  shows "\<exists>rep rep'. assembleReport (xe_audit x) home (default_audit_opts (opt_or (cl_mode opts) Safe)) s = Inr rep
     \<and> assembleReport (xe_audit y) home (default_audit_opts Safe) t = Inr rep'
     \<and> (report_view rep' = report_view rep
          \<or> report_digest_text rep' \<noteq> report_digest_text rep
             \<and> e_sha (xenv x) (report_digest_text rep') = e_sha (xenv x) (report_digest_text rep))
     \<and> cp_operations plan' = cp_operations plan
     \<and> (\<forall>op \<in> set (cp_operations plan). \<not> list_ex (rule_hits home (co_target op)) (cfg_rules (loadConfig t home None))
          \<and> \<not> (existsSync t (co_target op) \<and> hasMcpServer t (co_target op)))"
proof (rule compose_run [OF assms(1)])
  fix rep
  assume rep: "assembleReport (xe_audit x) home (default_audit_opts (opt_or (cl_mode opts) Safe)) s = Inr rep"
    and h: "cp_reportHash plan = hashReport (xenv x) rep"
  from assms(2) obtain rep' where r': "assembleReport (xe_audit y) home (default_audit_opts Safe) t = Inr rep'"
    "hashReport (xenv y) rep' = cp_reportHash plan"
    "revalidate t home (cfg_rules (loadConfig t home None)) (cp_reportHash plan) (hashReport (xenv y) rep') (cp_operations plan) = None"
    "cp_operations plan' = cp_operations plan"
    by (auto simp: validateCleanPlan_def bindE_eq_Inr Let_def split: if_splits option.splits)
  have "e_sha (xenv x) (report_digest_text rep') = e_sha (xenv x) (report_digest_text rep)"
    using r'(2) h assms(3) by (simp add: hashReport_def)
  then show ?thesis
    using rep r'(1,4) r'(3) [unfolded revalidate_None] digest_text_inj by blast
qed

lemma clean_validate_detects_drift_witness:
  "\<exists>plan s' plan'. composeCleanPlan demo_exec ''/h'' demo_clean [] = (Inr plan, s')
     \<and> validateCleanPlan demo_exec plan ''/h'' [] = Inr plan' \<and> cp_operations plan' = cp_operations plan
     \<and> (\<exists>rep'. assembleReport demo_env ''/h'' (default_audit_opts Safe) [] = Inr rep')"
proof -
  obtain plan s' where p: "composeCleanPlan demo_exec ''/h'' demo_clean [] = (Inr plan, s')"
    using demo_composes by blast
  obtain rep where "assembleReport demo_env ''/h'' (default_audit_opts Safe) [] = Inr rep"
    and h: "cp_reportHash plan = hashReport (sample_env 0) rep"
    by (rule compose_run [OF p]) (auto simp: demo_exec_def demo_clean_def demo_env_def)
  then have h: "cp_reportHash plan = hashReport (sample_env 0) demo_report" by (simp add: demo_assembled)
  have n: "cp_operations plan = []"
    by (rule demo_no_operation [OF p])
  have v: "validateCleanPlan demo_exec plan ''/h'' [] = Inr (plan\<lparr>cp_validatedAt := Some (e_iso (sample_env 0) 0)\<rparr>)"
    by (simp add: validateCleanPlan_def demo_exec_def bindE_def demo_assembled h n)
      (simp add: demo_env_def h n sample_env_def Let_def)
  have x: "xe_audit demo_exec = demo_env" by (simp add: demo_exec_def)
  note d = clean_validate_detects_drift [OF p v refl]
  then have "\<exists>rep'. assembleReport demo_env ''/h'' (default_audit_opts Safe) [] = Inr rep'" unfolding x by blast
  moreover have "cp_operations (plan\<lparr>cp_validatedAt := Some (e_iso (sample_env 0) 0)\<rparr>) = cp_operations plan"
    using d by blast
  ultimately show ?thesis using p v by blast
qed

subsection \<open>Batches and streams\<close>

lemma compose_pairs_length:
  "compose_pairs x home allowed h ps s = (Inr (ops, rs, h'), s') \<Longrightarrow> length ops \<le> length ps"
proof (induction ps arbitrary: h s ops rs s')
  case (Cons p ps)
  obtain target path where [simp]: "p = (target, path)" by (cases p)
  from Cons.prems obtain plan t ops' rs' where
    c: "composeCleanPlan x home \<lparr>cl_target = target, cl_path = path, cl_mode = None, cl_allowed = allowed\<rparr> s = (Inr plan, t)"
    and r: "compose_pairs x home allowed (str_or h (cp_reportHash plan)) ps t = (Inr (ops', rs', h'), s')"
    and o: "ops = cp_operations plan @ ops'"
    by (auto simp: bindI_eq_Inr returnI_def)
  have "length (cp_operations plan) \<le> 1" by (rule compose_run [OF c]) simp
  with Cons.IH [OF r] o show ?case by simp
qed (simp add: returnI_def)

lemma batch_cases:
  assumes "composeBatchCleanPlan x home opts s = (Inr bp, s')"
  obtains (stopped) "bp_operations bp = []" "bp_batchCap bp = batch_cap (bo_cap opts)"
  | (full) rs h t where
    "compose_pairs x home (bo_allowed opts) [] (bo_pairs opts) s = (Inr (bp_operations bp, rs, h), t)"
    "bp_batchCap bp = batch_cap (bo_cap opts)" "int (length (bo_pairs opts)) \<le> batch_cap (bo_cap opts)"
    "bo_skipBudget opts \<or> fst (aggregate (bp_operations bp)) \<le> BATCH_AGGREGATE_FILE_LIMIT
       \<and> snd (aggregate (bp_operations bp)) \<le> BATCH_AGGREGATE_BYTE_LIMIT"
proof (cases "batch_cap (bo_cap opts) < int (length (bo_pairs opts))")
  case True
  with assms show ?thesis
    by (intro stopped) (auto simp: composeBatchCleanPlan_def Let_def bindI_eq_Inr returnI_def)
next
  case False
  with assms obtain ops rs h t where c: "compose_pairs x home (bo_allowed opts) [] (bo_pairs opts) s = (Inr (ops, rs, h), t)"
    by (auto simp: composeBatchCleanPlan_def Let_def bindI_eq_Inr)
  obtain fl sz where ag: "aggregate ops = (fl, sz)" by (cases "aggregate ops")
  show ?thesis
  proof (cases "\<not> bo_skipBudget opts \<and> (BATCH_AGGREGATE_FILE_LIMIT < fl \<or> BATCH_AGGREGATE_BYTE_LIMIT < sz)")
    case True
    with assms False c ag show ?thesis
      by (intro stopped) (auto simp: composeBatchCleanPlan_def Let_def bindI_eq_Inr returnI_def)
  next
    case bud: False
    with assms False c ag have "bp_operations bp = ops" "bp_batchCap bp = batch_cap (bo_cap opts)"
      by (auto simp: composeBatchCleanPlan_def Let_def bindI_eq_Inr returnI_def)
    with bud False c ag show ?thesis by (intro full) (auto simp: not_less)
  qed
qed



lemma chunks_facts:
  "0 < n \<Longrightarrow> concat (chunks_of n xs) = xs \<and> (\<forall>c \<in> set (chunks_of n xs). c \<noteq> [] \<and> length c \<le> n)
     \<and> length (chunks_of n xs) = (length xs + n - 1) div n"
proof (induction n xs rule: chunks_of.induct)
  case (1 n xs)
  show ?case
  proof (cases "xs = []")
    case True
    then show ?thesis using 1(2) by (simp add: chunks_of.simps [of n "[]"])
  next
    case False
    note IH = 1(1) [OF _ 1(2)]
    have ch: "chunks_of n xs = take n xs # chunks_of n (drop n xs)"
      using False 1(2) by (simp add: chunks_of.simps [of n xs])
    have "(length xs + n - 1) div n = Suc ((length (drop n xs) + n - 1) div n)"
    proof (cases "length xs \<le> n")
      case True
      then have "(length xs + n - 1) div n = 1" using False 1(2)
        by (intro div_nat_eqI) (cases xs; simp)+
      then show ?thesis using True 1(2) by simp
    next
      case nle: False
      then have "length xs + n - 1 = (length xs - n + n - 1) + n" by simp
      then have "(length xs + n - 1) div n = (length xs - n + n - 1) div n + 1"
        using 1(2) by (metis add.commute div_add_self2 not_less_zero)
      then show ?thesis by simp
    qed
    then show ?thesis using IH False 1(2) ch by auto
  qed
qed

text \<open>C30: A stream covers its pairs: the chunks, put together, are exactly the pairs in order, none is
  empty or larger than the budget of one snapshot, and (for a stream that has pairs) there are
  as many as the parent manifest announces.\<close>

theorem stream_chunks_cover:
  "concat (chunks_of STREAM_CHUNK_SIZE ps) = ps
   \<and> list_all (\<lambda>c. c \<noteq> [] \<and> length c \<le> MAX_OPERATION_FILES) (chunks_of STREAM_CHUNK_SIZE ps)
   \<and> max 1 (length (chunks_of STREAM_CHUNK_SIZE ps)) = total_chunks ps"
  using chunks_facts [of STREAM_CHUNK_SIZE ps]
  by (simp add: STREAM_CHUNK_SIZE_def MAX_OPERATION_FILES_def list_all_iff total_chunks_def Let_def max_def)

end
