(* ===== verification/Clean_Run.thy ===== *)
theory Clean_Run
  imports Clean_Facts Snapshot_Total Rollback_Facts
begin

text \<open>
  What running a clean operation does: the files that a directory walk lists are all the files
  below it, so everything a directory removal deletes has been snapshotted; the mutations delete
  exactly the targets and the directories they were planned for; and after the run the
  operation is verified and every deleted file has its copy.
\<close>

subsection \<open>The directory walk is complete\<close>

definition tree_below :: "string list \<Rightarrow> fs \<Rightarrow> bool" where
  \<comment> \<open>below the directory P every path is clean and every ancestor is a directory\<close>
  "tree_below P s =
     (\<forall>p. starts_with (abs_path P @ [sep]) p \<longrightarrow> fget p s \<noteq> None \<longrightarrow>
        (\<exists>Q. Q \<noteq> [] \<and> (\<forall>x \<in> set Q. valid_seg x) \<and> p = abs_path (P @ Q)
           \<and> (\<forall>Q'. strict_prefix Q' Q \<longrightarrow> fget (abs_path (P @ Q')) s = Some Dir)))"

lemma tree_below_child:
  assumes "tree_below P s" "\<forall>x \<in> set (P @ [r]). valid_seg x"
  shows "tree_below (P @ [r]) s"
  unfolding tree_below_def
proof (intro allI impI)
  fix p
  assume p: "starts_with (abs_path (P @ [r]) @ [sep]) p" "fget p s \<noteq> None"
  then have "starts_with (abs_path P @ [sep]) p" by (auto simp: starts_with_iff)
  with p(2) assms(1) obtain Q where Q: "Q \<noteq> []" "\<forall>x \<in> set Q. valid_seg x" "p = abs_path (P @ Q)"
    "\<forall>Q'. strict_prefix Q' Q \<longrightarrow> fget (abs_path (P @ Q')) s = Some Dir"
    unfolding tree_below_def by blast
  have "prefix (P @ [r]) (P @ Q)"
    using p(1) Q(1-3) assms(2) abs_path_prefix [of "P @ [r]" "P @ Q"] by auto
  then obtain R where R: "Q = r # R" by (auto simp: prefix_def)
  have "R \<noteq> []"
  proof
    assume "R = []"
    then have "p = abs_path (P @ [r])" using Q(3) R by simp
    with p(1) show False by (auto simp: starts_with_iff)
  qed
  then show "\<exists>Q. Q \<noteq> [] \<and> (\<forall>x \<in> set Q. valid_seg x) \<and> p = abs_path ((P @ [r]) @ Q)
           \<and> (\<forall>Q'. strict_prefix Q' Q \<longrightarrow> fget (abs_path ((P @ [r]) @ Q')) s = Some Dir)"
    using Q R by (intro exI [of _ R]) (auto simp del: abs_path_append)
qed

definition kids_of :: "fs \<Rightarrow> string \<Rightarrow> string list" where
  "kids_of s d = map (\<lambda>nm. path_join [d, nm]) (readdirSafe s d)"

lemma fget_key: "fget p s \<noteq> None \<longleftrightarrow> p \<in> fst ` set s"
  by (simp add: fget_def map_of_eq_None_iff)

lemma kids_of_clean:
  assumes P: "\<forall>x \<in> set P. valid_seg x" "P \<noteq> []" and d: "fget (abs_path P) s = Some Dir" and t: "tree_below P s"
  shows "set (kids_of s (abs_path P)) = {abs_path (P @ [r]) | r. valid_seg r \<and> fget (abs_path (P @ [r])) s \<noteq> None}"
    (is "?l = ?r")
proof -
  have names: "set (readdirSafe s (abs_path P)) = {r. \<exists>kv \<in> set s. child_name (abs_path P) (fst kv) = Some r}"
    using d by (force simp: readdirSafe_def read_dir_def stat_node_direct map_filter_def)
  have child: "(\<exists>kv \<in> set s. child_name (abs_path P) (fst kv) = Some r)
      \<longleftrightarrow> valid_seg r \<and> fget (abs_path (P @ [r])) s \<noteq> None" for r
  proof
    assume "\<exists>kv \<in> set s. child_name (abs_path P) (fst kv) = Some r"
    then obtain kv where kv: "kv \<in> set s" "child_name (abs_path P) (fst kv) = Some r" by blast
    from kv(2) have k: "fst kv = abs_path P @ sep # r" "r \<noteq> []" "sep \<notin> set r"
      by (auto simp: child_name_def starts_with_iff Let_def split: if_splits)
    have "starts_with (abs_path P @ [sep]) (fst kv)" using k(1) by (simp add: starts_with_iff)
    moreover have ex: "fget (fst kv) s \<noteq> None" using kv(1) unfolding fget_key by (rule imageI)
    ultimately obtain Q where Q: "Q \<noteq> []" "\<forall>x \<in> set Q. valid_seg x" "fst kv = abs_path (P @ Q)"
      using t unfolding tree_below_def by blast
    then obtain q R where R: "Q = q # R" by (cases Q) auto
    with Q(3) k(1) have "r = q @ abs_path R" by simp
    with k(3) have "R = []" by (cases R) auto
    with R Q k(1) \<open>r = q @ abs_path R\<close> have "valid_seg r" "fst kv = abs_path (P @ [r])" by auto
    with ex show "valid_seg r \<and> fget (abs_path (P @ [r])) s \<noteq> None" by simp
  next
    assume r: "valid_seg r \<and> fget (abs_path (P @ [r])) s \<noteq> None"
    then obtain kv where "kv \<in> set s" "fst kv = abs_path (P @ [r])" unfolding fget_key by (metis imageE)
    moreover have "child_name (abs_path P) (abs_path (P @ [r])) = Some r"
      using r by (simp add: child_name_def valid_seg_def starts_with_iff)
    ultimately show "\<exists>kv \<in> set s. child_name (abs_path P) (fst kv) = Some r" by metis
  qed
  have "path_join [abs_path P, r] = abs_path (P @ [r])" if "valid_seg r" for r
    by (rule path_join_abs) (use P that in auto)
  then show ?thesis using names child by (force simp: kids_of_def)
qed


definition leaf :: "fs \<Rightarrow> string \<Rightarrow> bool" where
  \<comment> \<open>p is a file or a link\<close>
  "leaf s p = (\<exists>n. fget p s = Some n \<and> n \<noteq> Dir)"

lemma walk_entries_leaves:
  assumes "\<forall>x \<in> set P. valid_seg x" "P \<noteq> []" "fget (abs_path P) s = Some Dir" "tree_below P s"
  shows "set (walk_entries n s (abs_path P))
    = {p. \<exists>Q. Q \<noteq> [] \<and> length Q \<le> n \<and> (\<forall>x \<in> set Q. valid_seg x) \<and> p = abs_path (P @ Q) \<and> leaf s p}"
  using assms
proof (induction n arbitrary: P)
  case (Suc n)
  note kids = kids_of_clean [OF Suc.prems]
  have walk: "set (walk_entries (Suc n) s (abs_path P)) =
      {p \<in> set (kids_of s (abs_path P)). fget p s \<noteq> Some Dir}
      \<union> (\<Union>p \<in> {p \<in> set (kids_of s (abs_path P)). fget p s = Some Dir}. set (walk_entries n s p))"
    by (auto simp: Let_def kids_of_def)
  have dirs: "set (walk_entries n s (abs_path (P @ [r])))
      = {p. \<exists>Q. Q \<noteq> [] \<and> length Q \<le> n \<and> (\<forall>x \<in> set Q. valid_seg x) \<and> p = abs_path ((P @ [r]) @ Q) \<and> leaf s p}"
    if "valid_seg r" "fget (abs_path (P @ [r])) s = Some Dir" for r
    by (rule Suc.IH) (use that Suc.prems tree_below_child in auto)
  show ?case
  proof (intro set_eqI iffI)
    fix p
    assume "p \<in> set (walk_entries (Suc n) s (abs_path P))"
    then consider (top) r where "valid_seg r" "p = abs_path (P @ [r])" "leaf s p"
      | (deep) r Q where "valid_seg r" "Q \<noteq> []" "length Q \<le> n" "\<forall>x \<in> set Q. valid_seg x"
          "p = abs_path ((P @ [r]) @ Q)" "leaf s p"
      unfolding walk kids using dirs by (auto simp: leaf_def simp del: abs_path_append append_assoc)
    then show "p \<in> {p. \<exists>Q. Q \<noteq> [] \<and> length Q \<le> Suc n \<and> (\<forall>x \<in> set Q. valid_seg x) \<and> p = abs_path (P @ Q) \<and> leaf s p}"
    proof cases
      case top
      then show ?thesis by (intro CollectI exI [of _ "[r]"]) auto
    next
      case deep
      then show ?thesis by (intro CollectI exI [of _ "r # Q"]) auto
    qed
  next
    fix p
    assume "p \<in> {p. \<exists>Q. Q \<noteq> [] \<and> length Q \<le> Suc n \<and> (\<forall>x \<in> set Q. valid_seg x) \<and> p = abs_path (P @ Q) \<and> leaf s p}"
    then obtain Q where q: "Q \<noteq> []" "length Q \<le> Suc n" "\<forall>x \<in> set Q. valid_seg x" "p = abs_path (P @ Q)" "leaf s p"
      by blast
    then obtain r R where "Q = r # R" by (cases Q) auto
    with q have Q: "valid_seg r" "\<forall>x \<in> set R. valid_seg x" "length R \<le> n" "p = abs_path (P @ r # R)" "leaf s p"
      by simp_all
    show "p \<in> set (walk_entries (Suc n) s (abs_path P))"
    proof (cases R)
      case Nil
      with Q show ?thesis unfolding walk kids by (auto simp: leaf_def)
    next
      case (Cons q R')
      have "starts_with (abs_path P @ [sep]) p" using Q(4) by (simp add: starts_with_iff)
      moreover have "fget p s \<noteq> None" using Q(5) by (auto simp: leaf_def)
      ultimately obtain Q' where Q': "\<forall>x \<in> set Q'. valid_seg x" "p = abs_path (P @ Q')"
        "\<forall>Q''. strict_prefix Q'' Q' \<longrightarrow> fget (abs_path (P @ Q'')) s = Some Dir"
        using Suc.prems(4) unfolding tree_below_def by blast
      have "Q' = r # R"
        using abs_path_inj [of "P @ Q'" "P @ r # R"] Q'(1,2) Q(1,2,4) Suc.prems(1) by auto
      then have "strict_prefix [r] Q'" using Cons by (simp add: strict_prefix_def)
      with Q'(3) have "fget (abs_path (P @ [r])) s = Some Dir" by blast
      then have "p \<in> set (walk_entries n s (abs_path (P @ [r])))"
        unfolding dirs [OF Q(1) \<open>fget (abs_path (P @ [r])) s = Some Dir\<close>]
        using Q Cons by (intro CollectI exI [of _ R]) simp
      moreover have "abs_path (P @ [r]) \<in> {p \<in> set (kids_of s (abs_path P)). fget p s = Some Dir}"
        using Q(1) \<open>fget (abs_path (P @ [r])) s = Some Dir\<close> unfolding kids by blast
      ultimately show ?thesis unfolding walk by blast
    qed
  qed
qed simp

lemma fold_max_bound: "x \<in> set xs \<Longrightarrow> f x \<le> fold (\<lambda>kv m. max (f kv) m) xs (a :: nat)"
proof -
  have ge: "a \<le> fold (\<lambda>kv m. max (f kv) m) xs a" for a :: nat and xs
    by (induction xs arbitrary: a) (auto intro: le_trans [OF max.cobounded2])
  show "x \<in> set xs \<Longrightarrow> f x \<le> fold (\<lambda>kv m. max (f kv) m) xs a"
  proof (induction xs arbitrary: a)
    case (Cons y xs)
    then show ?case using ge [of "max (f y) a" xs] by auto
  qed simp
qed

lemma walk_fuel_key: "fget p s \<noteq> None \<Longrightarrow> length p < walk_fuel s"
proof -
  assume "fget p s \<noteq> None"
  then obtain n where "(p, n) \<in> set s" unfolding fget_key by auto
  from fold_max_bound [OF this, of "\<lambda>kv. length (fst kv)" 0] show ?thesis by (simp add: walk_fuel_def)
qed

lemma length_abs_path: "length Q \<le> length (abs_path Q)"
  by (induction Q) auto

lemma walkDir_complete:
  assumes "\<forall>x \<in> set P. valid_seg x" "P \<noteq> []" "fget (abs_path P) s = Some Dir" "tree_below P s"
  shows "set (walkDir s (abs_path P)) = {p. starts_with (abs_path P @ [sep]) p \<and> leaf s p}"
proof (intro set_eqI iffI)
  fix p
  assume "p \<in> set (walkDir s (abs_path P))"
  then obtain Q where "Q \<noteq> []" "p = abs_path (P @ Q)" "leaf s p"
    unfolding walkDir_def walk_entries_leaves [OF assms] by blast
  then show "p \<in> {p. starts_with (abs_path P @ [sep]) p \<and> leaf s p}"
    by (cases Q) (auto simp: starts_with_iff)
next
  fix p
  assume p: "p \<in> {p. starts_with (abs_path P @ [sep]) p \<and> leaf s p}"
  then have ex: "fget p s \<noteq> None" by (auto simp: leaf_def)
  with p assms(4) obtain Q where Q: "Q \<noteq> []" "\<forall>x \<in> set Q. valid_seg x" "p = abs_path (P @ Q)"
    unfolding tree_below_def by blast
  have "length Q \<le> walk_fuel s"
    using walk_fuel_key [OF ex] length_abs_path [of "P @ Q"] Q(3) by simp
  with Q p show "p \<in> set (walkDir s (abs_path P))"
    unfolding walkDir_def walk_entries_leaves [OF assms] by blast
qed


definition tree_fs :: fs where
  "tree_fs = [(''/p'', Dir), (''/p/a'', Link ''gone'')]"

lemma tree_fs_ok: "tree_below [''p''] tree_fs"
  unfolding tree_below_def
proof (intro allI impI)
  fix p
  assume "starts_with (abs_path [''p''] @ [sep]) p" "fget p tree_fs \<noteq> None"
  then have "p = abs_path ([''p''] @ [''a''])"
    by (auto simp: tree_fs_def fget_def sep_def split: if_splits)
  moreover have "fget (abs_path ([''p''] @ Q')) tree_fs = Some Dir" if "strict_prefix Q' [''a'']" for Q'
    using that by (auto simp: tree_fs_def fget_def sep_def strict_prefix_def prefix_Cons)
  moreover have "valid_seg ''a''" by (simp add: valid_seg_def sep_def dot_def dotdot_def)
  ultimately show "\<exists>Q. Q \<noteq> [] \<and> (\<forall>x \<in> set Q. valid_seg x) \<and> p = abs_path ([''p''] @ Q)
           \<and> (\<forall>Q'. strict_prefix Q' Q \<longrightarrow> fget (abs_path ([''p''] @ Q')) tree_fs = Some Dir)"
    by (intro exI [of _ "[''a'']"]) simp
qed

subsection \<open>What the mutations delete\<close>

type_synonym item = "string \<times> mutation_kind \<times> string"

definition dooms :: "item list \<Rightarrow> string \<Rightarrow> bool" where
  \<comment> \<open>the paths a batch is to delete: its files, and whatever is below its directories\<close>
  "dooms its q = (\<exists>(f, k, d) \<in> set its. q = f \<or> k \<noteq> FileUnlink \<and> subtree_of d q)"

definition separated :: "fs \<Rightarrow> item list \<Rightarrow> bool" where
  \<comment> \<open>every target is a file or link, no target twice; a directory to remove is one, holds its
      targets and no target of anything else\<close>
  "separated s its =
     (distinct (map fst its) \<and> (\<forall>(f, k, d) \<in> set its. is_copyable s f
        \<and> (k \<noteq> FileUnlink \<longrightarrow> fget d s = Some Dir \<and> subtree_of d f
            \<and> (\<forall>(f', k', d') \<in> set its. subtree_of d f' \<longrightarrow> k' \<noteq> FileUnlink \<and> d' = d))))"

lemma subtree_trans: "subtree_of a b \<Longrightarrow> subtree_of b c \<Longrightarrow> subtree_of a c"
  by (auto simp: subtree_of_def starts_with_iff)

definition removed_as :: "json \<Rightarrow> json" where
  \<comment> \<open>the entry of a file that its mutation deleted\<close>
  "removed_as en = jset ''applied'' (JBool True) (jset ''sha256After'' JNull en)"

lemma rm_file_run: "is_copyable s p \<Longrightarrow> rm_file p s = (Inr (), fdel p s)"
  by (auto simp: rm_file_def unlink_path_def is_copyable_def split: node.splits)

lemma rm_file_then_dir_run:
  assumes "is_copyable s p" "fget d s = Some Dir"
  shows "rm_file_then_dir d p s = (Inr (), fdel_tree d (fdel p s))"
proof -
  have "p \<noteq> d" using assms by (auto simp: is_copyable_def)
  then show ?thesis using assms
    by (simp add: rm_file_then_dir_def rm_file_run bindI_def swallowI_def rm_tree_def)
qed

lemma apply_entry_gone:
  assumes "f p s = (Inr (), s')" "fget p s' = None" "entry_path en = Some p"
  shows "apply_entry e (Some f) en s = (removed_as en, False, s')"
  using assms by (simp add: apply_entry_def removed_as_def)

lemma separated_step:
  assumes sep: "separated s ((f, k, d) # its)"
    and t: "\<And>q. fget q t = (if q = f \<or> (fin \<and> subtree_of d q) then None else fget q s)"
    and l: "fin \<Longrightarrow> k \<noteq> FileUnlink \<and> \<not> list_ex (is_dir_item d) its"
  shows "separated t its"
proof -
  have dist: "distinct (f # map fst its)" and all: "\<And>g c b. (g, c, b) \<in> set its \<Longrightarrow> is_copyable s g
        \<and> (c \<noteq> FileUnlink \<longrightarrow> fget b s = Some Dir \<and> subtree_of b g
            \<and> (\<forall>(f', k', d') \<in> set ((f, k, d) # its). subtree_of b f' \<longrightarrow> k' \<noteq> FileUnlink \<and> d' = b))"
    and hd: "is_copyable s f" "k \<noteq> FileUnlink \<Longrightarrow> (\<forall>(f', k', d') \<in> set its. subtree_of d f' \<longrightarrow> k' \<noteq> FileUnlink \<and> d' = d)"
    using sep unfolding separated_def by fastforce+
  have out: "\<not> (fin \<and> subtree_of d g)" if "(g, c, b) \<in> set its" for g c b
  proof
    assume "fin \<and> subtree_of d g"
    with l hd(2) that have "c \<noteq> FileUnlink \<and> b = d" "\<not> list_ex (is_dir_item d) its" by auto
    with that show False by (force simp: list_ex_iff is_dir_item_def)
  qed
  have keepg: "fget g t = fget g s" if "(g, c, b) \<in> set its" for g c b
  proof -
    have "g \<noteq> f" using dist that by force
    then show ?thesis using out [OF that] by (auto simp: t)
  qed
  have keepb: "fget b t = fget b s" if mem: "(g, c, b) \<in> set its" and "c \<noteq> FileUnlink" for g c b
  proof -
    have "b \<noteq> f" using all [OF mem] that(2) hd(1) by (auto simp: is_copyable_def)
    moreover have "\<not> (fin \<and> subtree_of d b)"
      using out [OF mem] all [OF mem] that(2) subtree_trans by blast
    ultimately show ?thesis by (auto simp: t)
  qed
  show ?thesis
    unfolding separated_def
  proof (intro conjI ballI, simp_all only: split_paired_all prod.case)
    show "distinct (map fst its)" using dist by simp
    fix g c b
    assume mem: "(g, c, b) \<in> set its"
    show "is_copyable t g \<and> (c \<noteq> FileUnlink \<longrightarrow> fget b t = Some Dir \<and> subtree_of b g
        \<and> (\<forall>(f', k', d') \<in> set its. subtree_of b f' \<longrightarrow> k' \<noteq> FileUnlink \<and> d' = b))"
      using all [OF mem] keepg [OF mem] keepb [OF mem] by (auto simp: is_copyable_def)
  qed
qed

lemma apply_removes:
  "separated s its \<Longrightarrow> map entry_path ens = map (Some \<circ> fst) its \<Longrightarrow>
   \<exists>s'. apply_entries e (batch_functions its) ens s = (map removed_as ens, False, s')
     \<and> (\<forall>q. fget q s' = (if dooms its q then None else fget q s))"
proof (induction its arbitrary: s ens)
  case (Cons it its)
  obtain f k d where it: "it = (f, k, d)" by (cases it)
  obtain en es where ens: "ens = en # es" and ep: "entry_path en = Some f" and eps: "map entry_path es = map (Some \<circ> fst) its"
    using Cons.prems(2) it by auto
  obtain fin where lst: "fin = (k \<noteq> FileUnlink \<and> \<not> list_ex (is_dir_item d) its)" by blast
  obtain t where t: "t = (if fin then fdel_tree d (fdel f s) else fdel f s)" by blast
  have c: "is_copyable s f" "fin \<Longrightarrow> fget d s = Some Dir"
    using Cons.prems(1) by (auto simp: separated_def it lst)
  have gt: "fget q t = (if q = f \<or> (fin \<and> subtree_of d q) then None else fget q s)" for q by (simp add: t)
  have fn: "batch_functions (it # its) = (if fin then rm_file_then_dir d else rm_file) # batch_functions its"
    by (simp add: it lst)
  have "(if fin then rm_file_then_dir d else rm_file) f s = (Inr (), t)"
    using rm_file_run rm_file_then_dir_run c by (simp add: t)
  then have one: "apply_entry e (Some (if fin then rm_file_then_dir d else rm_file)) en s = (removed_as en, False, t)"
    by (rule apply_entry_gone [OF _ _ ep]) (simp add: gt)
  have "separated t its"
    by (rule separated_step [OF Cons.prems(1) [unfolded it] gt]) (simp add: lst)
  from Cons.IH [OF this eps] obtain s' where
    s': "apply_entries e (batch_functions its) es t = (map removed_as es, False, s')"
    "\<forall>q. fget q s' = (if dooms its q then None else fget q t)" by blast
  have later: "dooms its q" if "k \<noteq> FileUnlink" "\<not> fin" "subtree_of d q" for q
  proof -
    from that(1,2) obtain g c where "(g, c, d) \<in> set its" "c \<noteq> FileUnlink"
      by (auto simp: lst list_ex_iff is_dir_item_def)
    with that(3) show ?thesis unfolding dooms_def by blast
  qed
  have "fget q s' = (if dooms (it # its) q then None else fget q s)" for q
  proof -
    have "dooms (it # its) q \<longleftrightarrow> dooms its q \<or> q = f \<or> (k \<noteq> FileUnlink \<and> subtree_of d q)"
      by (auto simp: dooms_def it)
    moreover have "fin \<Longrightarrow> k \<noteq> FileUnlink" by (simp add: lst)
    ultimately show ?thesis using s'(2) later [of q] by (auto simp: gt)
  qed
  then show ?case using one s'(1) by (simp add: ens fn)
qed (simp add: dooms_def)

lemma op_functions_batch:
  assumes "co_kind op = FileUnlink \<or> co_kind op = DirRmtree"
  shows "op_functions op = batch_functions (map (\<lambda>f. (f, co_kind op, co_arg op)) (co_files op))"
proof (cases "co_kind op = FileUnlink")
  case True
  have "batch_functions (map (\<lambda>f. (f, FileUnlink, d)) fs) = map (\<lambda>_. rm_file) fs" for fs d
    by (induction fs) auto
  with True show ?thesis by (simp add: op_functions_def)
next
  case False
  with assms have k: "co_kind op = DirRmtree" by simp
  have shift: "map (\<lambda>i. if i + 1 = Suc n then x else y) [0..<Suc n] = (if n = 0 then [x] else y # map (\<lambda>i. if i + 1 = n then x else y) [0..<n])" for n and x y :: 'a
    by (rule nth_equalityI) (auto simp: nth_Cons' simp del: upt_Suc)
  have "batch_functions (map (\<lambda>f. (f, DirRmtree, d)) fs) = map (\<lambda>i. if i + 1 = length fs then rm_file_then_dir d else rm_file) [0..<length fs]" for fs d
  proof (induction fs)
    case (Cons f fs)
    have "list_ex (is_dir_item d) (map (\<lambda>f. (f, DirRmtree, d)) fs) \<longleftrightarrow> fs \<noteq> []"
      by (cases fs) (simp_all add: is_dir_item_def)
    with Cons show ?case using shift [of "length fs" "rm_file_then_dir d" rm_file] by simp
  qed simp
  with k show ?thesis by (simp add: op_functions_def Let_def)
qed

subsection \<open>One operation, from snapshot to verified\<close>

definition applied_log :: "string \<Rightarrow> string" where
  "applied_log home = path_join [learningDir home, ''applied.jsonl'']"

lemma appendApplied_only: "only_log (applied_log home) s (snd (appendApplied e home r s))"
  unfolding appendApplied_def ensureDir_def appendJsonlLine_def applied_log_def [symmetric]
  by (rule bindI_only) (rule mkdir_only append_file_only)+

definition log_segs :: "string list \<Rightarrow> string \<Rightarrow> string list" where
  "log_segs H nm = H @ [nm, ''.claude'', ''housekeeper'', ''learning'', ''applied.jsonl'']"

definition run_ready :: "exec_env \<Rightarrow> nat \<Rightarrow> string list \<Rightarrow> string \<Rightarrow> item list \<Rightarrow> fs \<Rightarrow> bool" where
  \<comment> \<open>operation k can run in the home H/nm: its id and its temporary names are unused, the
      operations directory and the log are not links, the targets are within the budget and not
      protected, and neither the records of the operation nor the log are to be deleted\<close>
  "run_ready x k H nm its s =
     (valid_seg nm \<and> snapshot_env_ok (xe_hex x k) H (xe_opid x k) (length its) s
      \<and> no_link s (abs_path (op_dir H)) \<and> separated s its
      \<and> (\<exists>b. sum_sizes s (map fst its) = Inr b \<and> b \<le> MAX_OPERATION_BYTES)
      \<and> blocked_targets (abs_path H) (cfg_rules (loadConfig s (abs_path H) None)) (map fst its) = []
      \<and> (\<forall>j \<in> {length its + 2, length its + 3}.
           fget (abs_path (op_dir H @ [xe_opid x k @ ''.json.tmp.'' @ xe_hex x k j])) s = None)
      \<and> no_link s (abs_path (log_segs H nm))
      \<and> (\<forall>q. dooms its q \<longrightarrow> q \<noteq> abs_path (log_segs H nm) \<and> \<not> subtree_of (abs_path (op_dir H)) q
             \<and> \<not> subtree_of (abs_path (snap_dir H (xe_opid x k))) q))"

lemma home_paths:
  assumes "\<forall>x \<in> set H. valid_seg x" "H \<noteq> []" "valid_seg nm"
  shows "dirname (abs_path (H @ [nm])) = abs_path H"
    and "applied_log (abs_path (H @ [nm])) = abs_path (log_segs H nm)"
proof -
  show "dirname (abs_path (H @ [nm])) = abs_path H" by (rule dirname_abs_path) (use assms in auto)
  have "learningDir (abs_path (H @ [nm])) = abs_path ((H @ [nm]) @ [''.claude'', ''housekeeper'', ''learning''])"
    unfolding learningDir_def
    by (rule path_join_abs_list) (use assms in \<open>auto simp: valid_seg_def sep_def dot_def dotdot_def\<close>)
  moreover have "path_join [abs_path ((H @ [nm]) @ [''.claude'', ''housekeeper'', ''learning'']), ''applied.jsonl'']
      = abs_path (((H @ [nm]) @ [''.claude'', ''housekeeper'', ''learning'']) @ [''applied.jsonl''])"
    by (rule path_join_abs) (use assms in \<open>auto simp: valid_seg_def sep_def dot_def dotdot_def\<close>)
  ultimately show "applied_log (abs_path (H @ [nm])) = abs_path (log_segs H nm)"
    by (simp add: applied_log_def log_segs_def)
qed

lemma starts_with_segs:
  assumes "\<forall>x \<in> set (P @ [w]). valid_seg x" "\<forall>x \<in> set Q. valid_seg x" "starts_with (abs_path (P @ [w])) (abs_path Q)"
  shows "prefix P Q"
  using assms abs_path_prefix [of P Q] by (auto simp: starts_with_iff)

lemma log_apart:
  assumes "\<forall>x \<in> set H. valid_seg x" "valid_seg nm" "valid_seg i"
  shows "\<forall>x \<in> set (log_segs H nm). valid_seg x" "\<not> prefix (log_segs H nm) (files_dir H i)" "\<not> prefix (log_segs H nm) (op_dir H)"
    and "\<not> starts_with (abs_path (snap_dir H i)) (abs_path (log_segs H nm))" "log_segs H nm \<noteq> op_dir H @ [w]"
proof -
  show v: "\<forall>x \<in> set (log_segs H nm). valid_seg x"
    using assms by (auto simp: log_segs_def valid_seg_def sep_def dot_def dotdot_def)
  show "\<not> prefix (log_segs H nm) (files_dir H i)" "\<not> prefix (log_segs H nm) (op_dir H)" "log_segs H nm \<noteq> op_dir H @ [w]"
    by (auto simp: log_segs_def files_dir_def snap_dir_def op_dir_def)
  show "\<not> starts_with (abs_path (snap_dir H i)) (abs_path (log_segs H nm))"
  proof
    assume a: "starts_with (abs_path (snap_dir H i)) (abs_path (log_segs H nm))"
    have sd: "snap_dir H i = (H @ [''.claude'', ''housekeeper'', ''snapshots'']) @ [i]" by (simp add: snap_dir_def)
    have "prefix (H @ [''.claude'', ''housekeeper'', ''snapshots'']) (log_segs H nm)"
      by (rule starts_with_segs [OF _ v a [unfolded sd]])
        (use assms in \<open>auto simp: valid_seg_def sep_def dot_def dotdot_def\<close>)
    then show False by (simp add: log_segs_def)
  qed
qed

lemma separated_frame:
  assumes "separated s its" "\<And>q. fget q s \<noteq> None \<Longrightarrow> dooms its q \<Longrightarrow> fget q t = fget q s"
  shows "separated t its"
  unfolding separated_def
proof (intro conjI ballI, simp_all only: split_paired_all prod.case)
  show "distinct (map fst its)" using assms(1) by (simp add: separated_def)
  fix f k d
  assume mem: "(f, k, d) \<in> set its"
  then have s: "is_copyable s f \<and> (k \<noteq> FileUnlink \<longrightarrow> fget d s = Some Dir \<and> subtree_of d f
      \<and> (\<forall>(f', k', d') \<in> set its. subtree_of d f' \<longrightarrow> k' \<noteq> FileUnlink \<and> d' = d))"
    using assms(1) unfolding separated_def by fastforce
  have "dooms its f" "k \<noteq> FileUnlink \<Longrightarrow> dooms its d"
    using mem subtree_of_refl [of d] unfolding dooms_def by blast+
  with s show "is_copyable t f \<and> (k \<noteq> FileUnlink \<longrightarrow> fget d t = Some Dir \<and> subtree_of d f
      \<and> (\<forall>(f', k', d') \<in> set its. subtree_of d f' \<longrightarrow> k' \<noteq> FileUnlink \<and> d' = d))"
    using assms(2) [of f] assms(2) [of d] by (auto simp: is_copyable_def)
qed

lemma expected_paths: "map entry_path (expected_entries e dir ps s) = map Some ps"
  by (rule nth_equalityI) (simp_all add: expected_entries_def snapshot_entry_facts(1) split_def nth_enumerate_eq)

lemma read_manifest_file:
  assumes "readManifest home i s = Inr m"
  shows "fget (manifest_path home i) s \<noteq> Some Dir" "fget (manifest_path home i) s \<noteq> None"
proof -
  obtain t where "read_file s (manifest_path home i) = Inr t"
    using assms by (auto simp: readManifest_def read_json_def split: sum.splits)
  then obtain c m where "stat_node s (manifest_path home i) = Some (File c m)"
    by (auto simp: read_file_def split: option.splits node.splits)
  then show "fget (manifest_path home i) s \<noteq> Some Dir" "fget (manifest_path home i) s \<noteq> None"
    using stat_node_direct [of "manifest_path home i" s "Some Dir"] stat_node_direct [of "manifest_path home i" s None]
    by auto
qed

lemma tmp_slot:
  assumes "\<forall>x \<in> set P. valid_seg x" "P \<noteq> []" "valid_seg w" "sep \<notin> set hex"
    and "fget (abs_path (P @ [w @ ''.tmp.'' @ hex])) s = None" "fget (abs_path P) s = Some Dir"
    and "fget (abs_path (P @ [w])) s \<noteq> Some Dir"
  shows "slot_ready hex (abs_path (P @ [w])) s"
proof -
  have "dirname (tmp_path hex (abs_path (P @ [w]))) = abs_path P"
    by (rule dirname_tmp_seg) (use assms(1-4) in auto)
  then show ?thesis
    using assms(5-7) unfolding slot_ready_def tmp_ready_def parent_is_dir_def is_directory_def
    by (simp add: stat_node_direct tmp_path_def)
qed

lemma removed_entry:
  assumes "entry_path en = Some p"
  shows "entry_path (removed_as en) = Some p" "jget ''sha256After'' (removed_as en) = Some JNull"
    and "json_plain en \<Longrightarrow> json_plain (removed_as en)"
proof -
  have "is_obj en" using assms by (cases en) (auto simp: entry_path_def)
  then show "jget ''sha256After'' (removed_as en) = Some JNull" by (simp add: removed_as_def)
qed (use assms in \<open>auto simp: removed_as_def entry_path_def\<close>)

definition run_manifest :: "env \<Rightarrow> json \<Rightarrow> json list \<Rightarrow> json" where
  \<comment> \<open>what applyOperation and verify make of the snapshot's manifest when every mutation succeeded\<close>
  "run_manifest e m ens =
     verified_manifest e (applied_manifest e m (map removed_as ens) False) (map removed_as ens) True"

lemma run_manifest_facts:
  assumes "is_obj m"
  shows "manifest_status (run_manifest e m ens) = Some ''verified''"
    and "manifest_files (run_manifest e m ens) = map removed_as ens"
  using assms applied_manifest_facts(3) [OF assms]
  by (simp_all add: run_manifest_def verified_status verified_manifest_def Let_def)

lemma not_partial:
  "is_partial (applied_manifest e (taken_manifest e i h opts ens) ens' False) = False"
  by (simp add: is_partial_def applied_manifest_def taken_manifest_def makeOperationManifest_def)

lemma run_ready_slot:
  assumes ok: "run_ready x k H nm its s" and j: "j \<in> {length its + 2, length its + 3}"
    and same: "\<And>w. valid_seg w \<Longrightarrow> w \<noteq> xe_opid x k @ ''.json'' \<Longrightarrow>
       fget (abs_path (op_dir H @ [w])) t = fget (abs_path (op_dir H @ [w])) s"
    and dir: "fget (abs_path (op_dir H)) t = Some Dir"
    and man: "fget (manifest_path (abs_path H) (xe_opid x k)) t \<noteq> Some Dir"
  shows "slot_ready (xe_hex x k j) (manifest_path (abs_path H) (xe_opid x k)) t"
proof -
  let ?w = "xe_opid x k @ ''.json''"
  have env: "snapshot_env_ok (xe_hex x k) H (xe_opid x k) (length its) s"
    and tmp: "fget (abs_path (op_dir H @ [?w @ ''.tmp.'' @ xe_hex x k j])) s = None"
    using ok j by (auto simp: run_ready_def)
  note ef = env_ok_facts [OF env]
  have mp: "manifest_path (abs_path H) (xe_opid x k) = abs_path (op_dir H @ [?w])"
    by (rule snapshot_paths(3) [OF ef(10,3,4)])
  show ?thesis
    unfolding mp
  proof (rule tmp_slot [OF ef(8) _ ef(4,5) _ dir])
    show "op_dir H \<noteq> []" by (simp add: op_dir_def)
    show "fget (abs_path (op_dir H @ [?w @ ''.tmp.'' @ xe_hex x k j])) t = None"
      using same [OF valid_tmp [OF ef(4,5)]] tmp by simp
    show "fget (abs_path (op_dir H @ [?w])) t \<noteq> Some Dir"
      using man unfolding mp .
  qed
qed

definition spare_path :: "string list \<Rightarrow> string \<Rightarrow> string list \<Rightarrow> bool" where
  \<comment> \<open>a path that no snapshot under operation id i creates\<close>
  "spare_path H i Q =
     ((\<forall>x \<in> set Q. valid_seg x) \<and> Q \<noteq> [] \<and> \<not> prefix Q (files_dir H i) \<and> \<not> prefix Q (op_dir H)
      \<and> \<not> starts_with (abs_path (snap_dir H i)) (abs_path Q) \<and> Q \<noteq> op_dir H @ [i @ ''.json''])"

lemma run_snapshot:
  assumes ok: "run_ready x k H nm its s" and e: "e = xenv x" and i: "i = xe_opid x k"
    and dir: "dir = abs_path (files_dir H i)" and ens: "ens = expected_entries e dir (map fst its) s"
    and tg: "so_targets opts = map fst its"
  shows "\<exists>s1. takeSnapshot e i (xe_hex x k) (abs_path H) opts s
        = (Inr (i, taken_manifest e i (abs_path H) opts ens), s1)
     \<and> readManifest (abs_path H) i s1 = Inr (taken_manifest e i (abs_path H) opts ens)
     \<and> (\<forall>(j, p) \<in> set (enumerate 0 (map fst its)).
          fget (copy_path dir j p) s1 = Some (File (copied (the (fget p s))) default_mode))
     \<and> (\<forall>q. fget q s \<noteq> None \<longrightarrow> q \<noteq> manifest_path (abs_path H) i \<longrightarrow> fget q s1 = fget q s)
     \<and> fget (abs_path (snap_dir H i)) s1 = Some Dir \<and> fget (abs_path (op_dir H)) s1 = Some Dir
     \<and> (\<forall>w. valid_seg w \<longrightarrow> w \<noteq> i @ ''.json'' \<longrightarrow>
          fget (abs_path (op_dir H @ [w])) s1 = fget (abs_path (op_dir H @ [w])) s)
     \<and> (\<forall>Q. spare_path H i Q \<longrightarrow> fget (abs_path Q) s1 = fget (abs_path Q) s)"
proof -
  have env: "snapshot_env_ok (xe_hex x k) H i (length (so_targets opts)) s"
    and nl: "no_link s (abs_path (op_dir H))" and cp: "\<forall>p \<in> set (so_targets opts). is_copyable s p"
    using ok unfolding run_ready_def i separated_def tg by auto
  obtain b where b: "sum_sizes s (so_targets opts) = Inr b" "b \<le> MAX_OPERATION_BYTES"
    and bl: "blocked_targets (abs_path H) (cfg_rules (loadConfig s (abs_path H) None)) (so_targets opts) = []"
    using ok unfolding run_ready_def tg by blast
  have run: "takeSnapshot e i (xe_hex x k) (abs_path H) opts s = snapshot_write e i (xe_hex x k) (abs_path H) opts s"
    by (rule takeSnapshot_run [OF _ b bl]) (use env in \<open>simp add: snapshot_env_ok_def\<close>)
  show ?thesis
    using snapshot_write_full [OF refl env cp dir ens [folded tg]] nl unfolding run tg spare_path_def by blast
qed

lemma expected_clean:
  assumes "\<And>p. p \<in> set ps \<Longrightarrow> is_copyable s p \<and> fget p t = fget p s"
  shows "\<forall>en \<in> set (expected_entries e dir ps s). entry_clean e t en"
proof
  fix en
  assume "en \<in> set (expected_entries e dir ps s)"
  then obtain k p where en: "en = snapshot_entry e k p (copy_path dir k p) (the (fget p s))"
    and kp: "(k, p) \<in> set (enumerate 0 ps)"
    by (auto simp: expected_entries_def)
  then obtain n where "fget p t = Some n" "fget p s = Some n" "n \<noteq> Dir"
    using assms [of p] enum_bounds [OF kp] by (auto simp: is_copyable_def)
  then show "entry_clean e t en"
    by (cases n) (auto simp: entry_clean_def en entry_hash_def snapshot_entry_facts(1,3) hashFile_def copied_def)
qed

lemma removed_hold:
  assumes "map entry_path ens = map Some ps" "\<And>p. p \<in> set ps \<Longrightarrow> fget p t = None"
  shows "\<forall>en \<in> set (map removed_as ens). entry_holds e t en"
proof
  fix en'
  assume "en' \<in> set (map removed_as ens)"
  then obtain en where en: "en \<in> set ens" "en' = removed_as en" by auto
  then have "entry_path en \<in> set (map Some ps)" using assms(1) by (metis image_eqI set_map)
  then obtain p where "entry_path en = Some p" "p \<in> set ps" by auto
  then show "entry_holds e t en'" using assms(2) en(2) removed_entry by (simp add: entry_holds_def)
qed

lemma verify_op_plain:
  assumes "verify_op e hex i home s = (Inr v, s')" "slot_ready hex (manifest_path home i) s"
  shows "no_link s' (manifest_path home i)"
proof -
  have "\<exists>t. write_manifest hex home i m s = (Inr (), t) \<and> no_link t (manifest_path home i)" for m
    using atomicWrite_ok [of hex "manifest_path home i" s "json_pretty m @ [nl]"] assms(2)
    unfolding slot_ready_def write_manifest_def no_link_def by fastforce
  then have w: "no_link (snd (write_manifest hex home i m s)) (manifest_path home i)" for m by (metis snd_conv)
  obtain m where "bindI (write_manifest hex home i m) (\<lambda>_. returnI m) s = (Inr v, s')"
    using assms(1) by (auto simp: verify_op_def Let_def split: sum.splits option.splits prod.splits)
  then have "s' = snd (write_manifest hex home i m s)"
    by (cases "write_manifest hex home i m s") (auto simp: bindI_def returnI_def split: sum.splits)
  with w show ?thesis by simp
qed

lemma run_apply_verify:
  assumes ok: "run_ready x k H nm its s" and e: "e = xenv x" and i: "i = xe_opid x k"
    and sep: "separated s1 its" and ens: "map entry_path ens = map Some (map fst its)"
    and m0: "readManifest (abs_path H) i s1 = Inr m0" "json_plain m0" "manifest_status m0 = Some ''snapshot_taken''"
      "manifest_files m0 = ens" "jget ''files'' m0 = Some (JArr ens)"
    and clean: "\<forall>en \<in> set ens. entry_clean e s1 en"
    and od: "fget (abs_path (op_dir H)) s1 = Some Dir"
    and ops: "\<And>w. valid_seg w \<Longrightarrow> w \<noteq> i @ ''.json'' \<Longrightarrow>
          fget (abs_path (op_dir H @ [w])) s1 = fget (abs_path (op_dir H @ [w])) s"
  shows "\<exists>s3 s4. applyOperation e (xe_hex x k (length its + 2)) i (abs_path H) (batch_functions its) s1
        = (Inr (applied_manifest e m0 (map removed_as ens) False), s3)
     \<and> verify_op e (xe_hex x k (length its + 3)) i (abs_path H) s3 = (Inr (run_manifest e m0 ens), s4)
     \<and> readManifest (abs_path H) i s4 = Inr (run_manifest e m0 ens) \<and> no_link s4 (manifest_path (abs_path H) i)
     \<and> (\<forall>q. q \<noteq> manifest_path (abs_path H) i \<longrightarrow> fget q s4 = (if dooms its q then None else fget q s1))"
proof -
  have spare: "\<And>q. dooms its q \<Longrightarrow> \<not> subtree_of (abs_path (op_dir H)) q"
    and env: "snapshot_env_ok (xe_hex x k) H i (length its) s"
    using ok by (auto simp: run_ready_def i)
  note ef = env_ok_facts [OF env]
  let ?mp = "manifest_path (abs_path H) i" and ?mA = "applied_manifest e m0 (map removed_as ens) False"
  have mp: "?mp = abs_path (op_dir H @ [i @ ''.json''])"
    by (rule snapshot_paths(3) [OF ef(10,3,4)])
  have nd: "\<not> dooms its (abs_path (op_dir H))" "\<not> dooms its (abs_path (op_dir H @ [w]))" for w
    using spare by (auto simp: subtree_of_def starts_with_iff)
  obtain s2 where ap: "apply_entries e (batch_functions its) (manifest_files m0) s1 = (map removed_as ens, False, s2)"
    and g2: "\<And>q. fget q s2 = (if dooms its q then None else fget q s1)"
    using apply_removes [OF sep, of ens e] ens m0(4) by auto
  have od2: "fget (abs_path (op_dir H)) s2 = Some Dir" using od g2 nd(1) by simp
  have ops2: "fget (abs_path (op_dir H @ [w])) s2 = fget (abs_path (op_dir H @ [w])) s"
    if "valid_seg w" "w \<noteq> i @ ''.json''" for w
    using g2 [of "abs_path (op_dir H @ [w])"] nd(2) [of w] ops [OF that] by simp
  have nd2: "fget ?mp s2 \<noteq> Some Dir"
    using g2 [of ?mp] read_manifest_file(1) [OF m0(1)] nd(2) [of "i @ ''.json''"] unfolding mp by simp
  have sl2: "slot_ready (xe_hex x k (length its + 2)) ?mp s2"
    unfolding i by (rule run_ready_slot [OF ok _ ops2 [unfolded i] od2 nd2 [unfolded i]]) simp_all
  have ob: "is_obj m0" by (rule manifest_status_obj [OF m0(3)])
  obtain s3 where s3: "applyOperation e (xe_hex x k (length its + 2)) i (abs_path H) (batch_functions its) s1 = (Inr ?mA, s3)"
    "readManifest (abs_path H) i s3 = Inr ?mA" and g3: "\<And>q. q \<noteq> ?mp \<Longrightarrow> fget q s3 = fget q s2"
    using apply_done [OF m0(1,2) _ _ ap sl2] m0(3-5) clean by (auto simp: guard_manifest_None)
  note af = applied_manifest_facts(1,2) [OF ob]
  have pl: "json_plain ?mA"
  proof (rule applied_manifest_facts(4) [OF ob m0(2)])
    show "\<forall>en \<in> set (map removed_as ens). json_plain en"
      using apply_entries_plain [OF manifest_files_plain [OF m0(2)], of e "batch_functions its" s1] ap by simp
  qed
  have neq: "abs_path (op_dir H @ [w]) \<noteq> ?mp" if "valid_seg w" "w \<noteq> i @ ''.json''" for w
    using abs_path_inj [of "op_dir H @ [w]" "op_dir H @ [i @ ''.json'']"] that ef(4,8) unfolding mp by auto
  have od3: "fget (abs_path (op_dir H)) s3 = Some Dir"
    using g3 [of "abs_path (op_dir H)"] od2 by (auto simp: mp)
  have sl3: "slot_ready (xe_hex x k (length its + 3)) ?mp s3"
    unfolding i
  proof (rule run_ready_slot [OF ok _ _ od3])
    show "fget (abs_path (op_dir H @ [w])) s3 = fget (abs_path (op_dir H @ [w])) s"
      if "valid_seg w" "w \<noteq> xe_opid x k @ ''.json''" for w
      using g3 [OF neq] ops2 that by (simp add: i)
    show "fget (manifest_path (abs_path H) (xe_opid x k)) s3 \<noteq> Some Dir"
      using read_manifest_file(1) [OF s3(2)] by (simp add: i)
  qed simp
  have gone: "fget p s3 = None" if "p \<in> set (map fst its)" for p
  proof -
    have "dooms its p" using that by (auto simp: dooms_def)
    moreover from this have "p \<noteq> ?mp" using nd(2) unfolding mp by metis
    ultimately show ?thesis using g3 g2 by simp
  qed
  have gd: "guard_manifest i ''applied'' ?mA = None"
    unfolding guard_manifest_None using af(1) ob by (simp add: applied_manifest_def)
  have ve: "verify_entries e s3 (manifest_files ?mA) = Inr (map removed_as ens, True)"
    unfolding af(2) by (rule verify_entries_ok [OF removed_hold [OF ens gone]])
  obtain s4 where s4: "verify_op e (xe_hex x k (length its + 3)) i (abs_path H) s3 = (Inr (run_manifest e m0 ens), s4)"
    "readManifest (abs_path H) i s4 = Inr (run_manifest e m0 ens)" and g4: "\<And>q. q \<noteq> ?mp \<Longrightarrow> fget q s4 = fget q s3"
    using verify_done [OF s3(2) pl gd ve sl3] unfolding run_manifest_def by blast
  show ?thesis using s3(1) s4 verify_op_plain [OF s4(1) sl3] g3 g4 g2 by (intro exI [of _ s3] exI [of _ s4]) simp
qed

lemma taken_manifest_files:
  "jget ''files'' (taken_manifest e i h opts (expected_entries e' dir ps s)) = Some (JArr (expected_entries e' dir ps s))"
  by (simp add: taken_manifest_def makeOperationManifest_def files_again)

lemma read_manifest_frame:
  assumes "fget (manifest_path home i) t = fget (manifest_path home i) s" "no_link s (manifest_path home i)"
  shows "readManifest home i t = readManifest home i s"
proof -
  have "stat_node t (manifest_path home i) = stat_node s (manifest_path home i)"
    using assms stat_node_direct [of "manifest_path home i"] by (metis no_link_def)
  then show ?thesis by (simp add: readManifest_def read_json_def read_file_def)
qed

lemma run_operation_ok:
  assumes ok: "run_ready x k H nm its s" and i: "i = xe_opid x k"
    and dir: "dir = abs_path (files_dir H i)" and ens: "ens = expected_entries (xenv x) dir (map fst its) s"
    and opts: "opts = snapshot_options (map fst its) consent"
    and m: "m = run_manifest (xenv x) (taken_manifest (xenv x) i (abs_path H) opts ens) ens"
  shows "\<exists>s'. run_operation x k (abs_path (H @ [nm])) (map fst its) consent (batch_functions its) logged s = (Inr m, s')
     \<and> readManifest (abs_path H) i s' = Inr m
     \<and> (\<forall>(j, p) \<in> set (enumerate 0 (map fst its)).
          fget (copy_path dir j p) s' = Some (File (copied (the (fget p s))) default_mode))
     \<and> (\<forall>q. dooms its q \<longrightarrow> \<not> leaf s' q)
     \<and> (\<forall>q. fget q s \<noteq> None \<longrightarrow> \<not> dooms its q \<longrightarrow> q \<noteq> manifest_path (abs_path H) i \<longrightarrow>
          q \<noteq> abs_path (log_segs H nm) \<longrightarrow> fget q s' = fget q s)"
proof -
  let ?e = "xenv x" and ?mp = "manifest_path (abs_path H) i" and ?log = "abs_path (log_segs H nm)"
    and ?home = "abs_path (H @ [nm])"
  let ?m0 = "taken_manifest ?e i (abs_path H) opts ens"
  have sp: "\<And>q. dooms its q \<Longrightarrow> q \<noteq> ?log
      \<and> \<not> subtree_of (abs_path (op_dir H)) q \<and> \<not> subtree_of (abs_path (snap_dir H i)) q"
    and sep: "separated s its" and lg: "no_link s ?log" and nm: "valid_seg nm"
    and env: "snapshot_env_ok (xe_hex x k) H i (length its) s"
    using ok by (auto simp: run_ready_def i)
  note ef = env_ok_facts [OF env]
  note hp = home_paths [OF ef(2,1) nm] and la = log_apart [OF ef(2) nm ef(3)]
  have mp: "?mp = abs_path (op_dir H @ [i @ ''.json''])" by (rule snapshot_paths(3) [OF ef(10,3,4)])
  have mpl: "?mp \<noteq> ?log"
    using abs_path_inj [of "op_dir H @ [i @ ''.json'']" "log_segs H nm"] la(1,5) ef(4,8) unfolding mp by (auto simp: log_segs_def)
  have mpd: "\<not> dooms its ?mp" using sp [of ?mp] unfolding mp by (auto simp: subtree_of_def starts_with_iff)
  obtain s1 where t: "takeSnapshot ?e i (xe_hex x k) (abs_path H) opts s = (Inr (i, ?m0), s1)"
    and r1: "readManifest (abs_path H) i s1 = Inr ?m0"
    and c1: "\<forall>(j, p) \<in> set (enumerate 0 (map fst its)).
          fget (copy_path dir j p) s1 = Some (File (copied (the (fget p s))) default_mode)"
    and old: "\<And>q. fget q s \<noteq> None \<Longrightarrow> q \<noteq> ?mp \<Longrightarrow> fget q s1 = fget q s"
    and sd: "fget (abs_path (op_dir H)) s1 = Some Dir"
    and ops: "\<And>w. valid_seg w \<Longrightarrow> w \<noteq> i @ ''.json'' \<Longrightarrow>
          fget (abs_path (op_dir H @ [w])) s1 = fget (abs_path (op_dir H @ [w])) s"
    and spare: "\<And>Q. spare_path H i Q \<Longrightarrow> fget (abs_path Q) s1 = fget (abs_path Q) s"
    using run_snapshot [OF ok refl i dir ens, of opts] by (auto simp: opts snapshot_options_def)
  have l1: "fget ?log s1 = fget ?log s"
    using la by (intro spare) (simp add: spare_path_def log_segs_def)
  have sep1: "separated s1 its" by (rule separated_frame [OF sep]) (use old mpd in metis)
  have cl: "\<forall>en \<in> set ens. entry_clean ?e s1 en"
    unfolding ens
  proof (rule expected_clean)
    fix p
    assume "p \<in> set (map fst its)"
    then have "is_copyable s p" "dooms its p" using sep unfolding separated_def dooms_def by fastforce+
    moreover from this(2) mpd have "p \<noteq> ?mp" by metis
    ultimately show "is_copyable s p \<and> fget p s1 = fget p s" using old by (auto simp: is_copyable_def)
  qed
  note tf = taken_manifest_facts [OF ens]
  obtain s3 s4 where
    a: "applyOperation ?e (xe_hex x k (length its + 2)) i (abs_path H) (batch_functions its) s1
        = (Inr (applied_manifest ?e ?m0 (map removed_as ens) False), s3)"
    and v: "verify_op ?e (xe_hex x k (length its + 3)) i (abs_path H) s3 = (Inr m, s4)"
    and r4: "readManifest (abs_path H) i s4 = Inr m" and n4: "no_link s4 ?mp"
    and g4: "\<And>q. q \<noteq> ?mp \<Longrightarrow> fget q s4 = (if dooms its q then None else fget q s1)"
    using run_apply_verify [OF ok refl i sep1 _ r1 tf(3,1,2) _ cl sd ops] expected_paths taken_manifest_files
    unfolding ens m by blast
  let ?rec = "obj_of [(''opId'', jget ''id'' m), (''status'', jget ''status'' m), (''command'', Some (JStr ''clean'')),
                (''targets'', Some (JArr (map JStr logged))), (''filesCount'', Some (JNum (int (length its))))]"
  obtain s5 where s5: "s5 = snd (appendApplied ?e ?home ?rec s4)" by blast
  have run: "run_operation x k ?home (map fst its) consent (batch_functions its) logged s = (Inr m, s5)"
    using t a v not_partial
    unfolding run_operation_def Let_def hp(1) s5
    by (simp add: bindI_def i [symmetric] opts [symmetric] swallowI_def returnI_def del: abs_path_append)
  have lgd: "\<not> dooms its ?log" using sp by blast
  have "no_link s4 ?log" using g4 [OF mpl [symmetric]] lgd l1 lg by (simp add: no_link_def)
  then have g5: "fget q s5 = fget q s4 \<or> fget q s4 = None \<and> fget q s5 = Some Dir" if "q \<noteq> ?log" for q
    using appendApplied_only [of ?home s4 ?e ?rec] that unfolding hp(2) s5 only_log_def by blast
  have "fget ?mp s4 \<noteq> None" by (rule read_manifest_file(2) [OF r4])
  then have r5: "readManifest (abs_path H) i s5 = Inr m"
    using g5 [OF mpl] n4 r4 read_manifest_frame [of "abs_path H" i s5 s4] by auto
  have keep: "fget q s5 = fget q s1" if "fget q s1 \<noteq> None" "\<not> dooms its q" "q \<noteq> ?mp" "q \<noteq> ?log" for q
    using g5 [OF that(4)] g4 [OF that(3)] that(1,2) by auto
  have c5: "fget (copy_path dir j p) s5 = Some (File (copied (the (fget p s))) default_mode)"
    if "(j, p) \<in> set (enumerate 0 (map fst its))" for j p
  proof -
    have c: "fget (copy_path dir j p) s1 = Some (File (copied (the (fget p s))) default_mode)" using c1 that by blast
    have j: "j < 10000" using enum_bounds [OF that] ef(6) by simp
    have cq: "copy_path dir j p = abs_path (snap_dir H i) @ sep # ''files'' @ sep # snapshot_name j p"
      unfolding dir copy_path_abs [OF ef(11) j] by (simp add: files_dir_def)
    have "subtree_of (abs_path (snap_dir H i)) (copy_path dir j p)" by (simp add: cq subtree_of_def starts_with_iff)
    then have "\<not> dooms its (copy_path dir j p)" using sp by blast
    moreover have "copy_path dir j p \<noteq> ?mp"
      using copy_path_neq [OF ef(11) j, of "op_dir H @ [i @ ''.json'']" p] ef(4,8) unfolding mp dir by (auto simp: dir_lengths)
    moreover have "copy_path dir j p \<noteq> ?log" using la(4) unfolding cq by (metis starts_with_iff)
    ultimately show ?thesis using keep c by simp
  qed
  have gone: "\<not> leaf s5 q" if "dooms its q" for q
  proof -
    have "q \<noteq> ?mp" "q \<noteq> ?log" using that mpd lgd by metis+
    then show ?thesis using g5 [of q] g4 [of q] that by (auto simp: leaf_def)
  qed
  have rest: "fget q s5 = fget q s"
    if "fget q s \<noteq> None" "\<not> dooms its q" "q \<noteq> ?mp" "q \<noteq> ?log" for q
    using keep [of q] old [OF that(1,3)] that by simp
  show ?thesis using run r5 c5 gone rest by (intro exI [of _ s5]) auto
qed

subsection \<open>A clean loses nothing\<close>

definition op_items :: "clean_op \<Rightarrow> item list" where
  "op_items op = map (\<lambda>f. (f, co_kind op, co_arg op)) (co_files op)"

lemma build_operation_kind:
  "co_kind (build_operation s f) = FileUnlink \<or> co_kind (build_operation s f) = DirRmtree"
  by (simp add: build_operation_def Let_def)

lemma build_operation_covers:
  assumes tree: "\<not> List.member FILE_UNLINK_DETECTORS_V02 (f_id f) \<Longrightarrow>
      \<exists>P. f_targetPath f = abs_path P \<and> (\<forall>x \<in> set P. valid_seg x) \<and> P \<noteq> [] \<and> tree_below P s"
    and sep: "separated s (op_items (build_operation s f))" and q: "dooms (op_items (build_operation s f)) q" "leaf s q"
  shows "q \<in> set (co_files (build_operation s f))"
proof (cases "co_kind (build_operation s f) = FileUnlink")
  case True
  then show ?thesis using q(1) by (auto simp: dooms_def op_items_def)
next
  case False
  then have nf: "\<not> List.member FILE_UNLINK_DETECTORS_V02 (f_id f)" by (auto simp: build_operation_def Let_def)
  let ?op = "build_operation s f" and ?d = "f_targetPath f"
  have op: "co_arg ?op = ?d" "co_files ?op = (if existsSync s ?d then walkDir s ?d else [])"
    using nf by (simp_all add: build_operation_def Let_def)
  obtain P where P: "?d = abs_path P" "\<forall>x \<in> set P. valid_seg x" "P \<noteq> []" "tree_below P s" using tree [OF nf] by blast
  obtain g where g: "g \<in> set (co_files ?op)" using q(1) by (auto simp: dooms_def op_items_def)
  then have files: "co_files ?op = walkDir s ?d" using op(2) by (simp split: if_splits)
  have "(g, co_kind ?op, ?d) \<in> set (op_items ?op)" using g op(1) by (auto simp: op_items_def)
  then have d: "fget ?d s = Some Dir" using sep False unfolding separated_def by fastforce
  note walk = walkDir_complete [OF P(2,3) d [unfolded P(1)] P(4), folded P(1)]
  show ?thesis
  proof (cases "q \<in> set (co_files ?op)")
    case False
    then have "subtree_of ?d q" using q(1) op(1) by (auto simp: dooms_def op_items_def)
    moreover have "q \<noteq> ?d" using q(2) d by (auto simp: leaf_def)
    ultimately show ?thesis using q(2) walk files by (auto simp: subtree_of_def)
  qed
qed

text \<open>C4: A clean loses nothing. Take the operation the planner builds for a finding and run it: in a
  home where the operation can run, run_operation succeeds and returns the manifest on disk, in
  status verified; no target is left; and every file or link of the disk that is neither the
  manifest nor the log is still there with its content or is a target whose bytes are in the
  snapshot. A directory removal has every file below the directory as target, however deep.\<close>

theorem clean_run_lossless:
  assumes "op = build_operation s f"
    and "\<not> List.member FILE_UNLINK_DETECTORS_V02 (f_id f) \<Longrightarrow>
      \<exists>P. f_targetPath f = abs_path P \<and> (\<forall>x \<in> set P. valid_seg x) \<and> P \<noteq> [] \<and> tree_below P s"
    and "run_ready x k H nm (op_items op) s"
  shows "\<exists>m s'. run_operation x k (abs_path (H @ [nm])) (co_files op) (consent_text op) (op_functions op) [co_target op] s = (Inr m, s')
     \<and> manifest_status m = Some ''verified'' \<and> readManifest (abs_path H) (xe_opid x k) s' = Inr m
     \<and> (\<forall>p \<in> set (co_files op). \<not> leaf s' p)
     \<and> (\<forall>q n. fget q s = Some n \<longrightarrow> n \<noteq> Dir \<longrightarrow> q \<noteq> manifest_path (abs_path H) (xe_opid x k) \<longrightarrow> q \<noteq> abs_path (log_segs H nm) \<longrightarrow>
          fget q s' = Some n
          \<or> q \<in> set (co_files op) \<and> (\<exists>j. fget (copy_path (abs_path (files_dir H (xe_opid x k))) j q) s' = Some (File (copied n) default_mode)))"
proof -
  let ?its = "op_items op" and ?i = "xe_opid x k"
  let ?opts = "snapshot_options (map fst ?its) (consent_text op)"
    and ?ens = "expected_entries (xenv x) (abs_path (files_dir H ?i)) (map fst ?its) s"
  let ?m = "run_manifest (xenv x) (taken_manifest (xenv x) ?i (abs_path H) ?opts ?ens) ?ens"
  have fs: "map fst ?its = co_files op" by (simp add: op_items_def comp_def)
  have fn: "op_functions op = batch_functions ?its"
    unfolding op_items_def by (rule op_functions_batch) (use build_operation_kind assms(1) in blast)
  obtain s' where run: "run_operation x k (abs_path (H @ [nm])) (co_files op) (consent_text op) (op_functions op) [co_target op] s = (Inr ?m, s')"
    and rd: "readManifest (abs_path H) ?i s' = Inr ?m"
    and cp: "\<forall>(j, p) \<in> set (enumerate 0 (co_files op)).
          fget (copy_path (abs_path (files_dir H ?i)) j p) s' = Some (File (copied (the (fget p s))) default_mode)"
    and gone: "\<And>q. dooms ?its q \<Longrightarrow> \<not> leaf s' q"
    and rest: "\<And>q. fget q s \<noteq> None \<Longrightarrow> \<not> dooms ?its q \<Longrightarrow> q \<noteq> manifest_path (abs_path H) ?i \<Longrightarrow>
          q \<noteq> abs_path (log_segs H nm) \<Longrightarrow> fget q s' = fget q s"
    using run_operation_ok [OF assms(3) refl refl refl refl refl, of "consent_text op" "[co_target op]"]
    unfolding fs fn by blast
  have sep: "separated s ?its" using assms(3) by (simp add: run_ready_def)
  have ob: "is_obj (taken_manifest (xenv x) ?i (abs_path H) ?opts ?ens)"
    by (rule manifest_status_obj [OF taken_manifest_facts(1) [OF refl]])
  have no: "\<not> leaf s' p" if "p \<in> set (co_files op)" for p
    by (rule gone) (use that in \<open>auto simp: dooms_def op_items_def\<close>)
  have keep: "fget q s' = Some n \<or> q \<in> set (co_files op)
      \<and> (\<exists>j. fget (copy_path (abs_path (files_dir H ?i)) j q) s' = Some (File (copied n) default_mode))"
    if "fget q s = Some n" "n \<noteq> Dir" "q \<noteq> manifest_path (abs_path H) ?i" "q \<noteq> abs_path (log_segs H nm)" for q n
  proof (cases "dooms ?its q")
    case True
    have "leaf s q" using that by (simp add: leaf_def)
    have "q \<in> set (co_files (build_operation s f))"
      by (rule build_operation_covers [OF assms(2) sep [unfolded assms(1)] True [unfolded assms(1)] \<open>leaf s q\<close>])
    then have "q \<in> set (co_files op)" by (simp only: assms(1))
    from enum_index [OF this] obtain j where "(j, q) \<in> set (enumerate 0 (co_files op))" ..
    with cp have "fget (copy_path (abs_path (files_dir H ?i)) j q) s' = Some (File (copied (the (fget q s))) default_mode)"
      by blast
    with that(1) \<open>q \<in> set (co_files op)\<close> show ?thesis by auto
  next
    case False
    then show ?thesis using rest [of q] that by simp
  qed
  show ?thesis
  proof (intro exI conjI ballI allI impI)
    show "run_operation x k (abs_path (H @ [nm])) (co_files op) (consent_text op) (op_functions op) [co_target op] s = (Inr ?m, s')"
      by (rule run)
  qed (fact run_manifest_facts(1) [OF ob] rd | erule no | erule keep; assumption)+
qed

definition cache_fs :: fs where
  "cache_fs = [(''/'', Dir), (''/h'', Dir), (''/h/p'', Dir), (''/h/p/a'', File ''x'' 420)]"

definition cache_finding :: finding where
  "cache_finding = (hd (r_findings demo_report))\<lparr>f_id := ''plugin.cache_unreferenced'', f_targetPath := ''/h/p''\<rparr>"

lemma cache_op:
  "co_files (build_operation cache_fs cache_finding) = [''/h/p/a'']"
  "co_kind (build_operation cache_fs cache_finding) = DirRmtree"
  "co_arg (build_operation cache_fs cache_finding) = ''/h/p''"
proof -
  have "existsSync cache_fs ''/h/p''" "walkDir cache_fs ''/h/p'' = [''/h/p/a'']" by code_simp+
  then show "co_files (build_operation cache_fs cache_finding) = [''/h/p/a'']"
    "co_kind (build_operation cache_fs cache_finding) = DirRmtree"
    "co_arg (build_operation cache_fs cache_finding) = ''/h/p''"
    by (simp_all add: build_operation_def cache_finding_def FILE_UNLINK_DETECTORS_V02_def Let_def)
qed

lemma cache_key: "fget p cache_fs \<noteq> None \<longleftrightarrow> p \<in> {''/'', ''/h'', ''/h/p'', ''/h/p/a''}"
  unfolding fget_key by (simp add: cache_fs_def)

lemma cache_tree: "tree_below [''h'', ''p''] cache_fs"
  unfolding tree_below_def cache_key
proof (intro allI impI)
  fix p
  assume "starts_with (abs_path [''h'', ''p''] @ [sep]) p" "p \<in> {''/'', ''/h'', ''/h/p'', ''/h/p/a''}"
  then have "p = abs_path ([''h'', ''p''] @ [''a''])" by (auto simp: starts_with_iff sep_def)
  moreover have "valid_seg ''a''" by (simp add: valid_seg_def sep_def dot_def dotdot_def)
  moreover have "fget (abs_path ([''h'', ''p''] @ Q')) cache_fs = Some Dir" if "strict_prefix Q' [''a'']" for Q'
    using that by (auto simp: cache_fs_def fget_def sep_def strict_prefix_def prefix_Cons)
  ultimately show "\<exists>Q. Q \<noteq> [] \<and> (\<forall>x \<in> set Q. valid_seg x) \<and> p = abs_path ([''h'', ''p''] @ Q)
           \<and> (\<forall>Q'. strict_prefix Q' Q \<longrightarrow> fget (abs_path ([''h'', ''p''] @ Q')) cache_fs = Some Dir)"
    by (intro exI [of _ "[''a'']"]) simp
qed

lemma cache_ready: "run_ready demo_exec 0 [''h''] ''.claude'' (op_items (build_operation cache_fs cache_finding)) cache_fs"
proof -
  let ?its = "[(''/h/p/a'', DirRmtree, ''/h/p'')]"
  have its: "op_items (build_operation cache_fs cache_finding) = ?its" by (simp add: op_items_def cache_op)
  have x: "xe_opid demo_exec 0 = ''op''" "xe_hex demo_exec 0 = (\<lambda>_. ''ab'')" by (simp_all add: demo_exec_def)
  have ps: "abs_path (snap_dir [''h''] ''op'') = ''/h/.claude/housekeeper/snapshots/op''"
    "abs_path (op_dir [''h'']) = ''/h/.claude/housekeeper/operations''"
    "abs_path (log_segs [''h''] ''.claude'') = ''/h/.claude/.claude/housekeeper/learning/applied.jsonl''" by code_simp+
  have "\<forall>q. starts_with (abs_path (snap_dir [''h''] ''op'')) q \<longrightarrow> fget q cache_fs = None"
  proof (intro allI impI)
    fix q
    assume "starts_with (abs_path (snap_dir [''h''] ''op'')) q"
    then have "q \<notin> {''/'', ''/h'', ''/h/p'', ''/h/p/a''}" unfolding ps by (auto simp: starts_with_iff)
    then show "fget q cache_fs = None" using cache_key by blast
  qed
  moreover have "dir_creatable cache_fs (abs_path (snap_dir [''h''] ''op'' @ [''files'']))"
    "dir_creatable cache_fs (abs_path (op_dir [''h'']))"
    "fget (abs_path (op_dir [''h''] @ [''op'' @ ''.json''])) cache_fs = None"
    "fget (tmp_path ''ab'' (abs_path (op_dir [''h''] @ [''op'' @ ''.json'']))) cache_fs = None" by code_simp+
  ultimately have env: "snapshot_env_ok (\<lambda>_. ''ab'') [''h''] ''op'' 1 cache_fs"
    by (simp add: snapshot_env_ok_def valid_seg_def sep_def dot_def dotdot_def MAX_OPERATION_FILES_def)
  have d: "q = ''/h/p/a'' \<or> q = ''/h/p'' \<or> starts_with ''/h/p/'' q" if "dooms ?its q" for q
    using that by (auto simp: dooms_def subtree_of_def sep_def)
  have sub: "\<forall>q. dooms ?its q \<longrightarrow> q \<noteq> abs_path (log_segs [''h''] ''.claude'')
      \<and> \<not> subtree_of (abs_path (op_dir [''h''])) q \<and> \<not> subtree_of (abs_path (snap_dir [''h''] ''op'')) q"
    unfolding ps
  proof (intro allI impI)
    fix q
    assume "dooms ?its q"
    from d [OF this] show "q \<noteq> ''/h/.claude/.claude/housekeeper/learning/applied.jsonl''
      \<and> \<not> subtree_of ''/h/.claude/housekeeper/operations'' q \<and> \<not> subtree_of ''/h/.claude/housekeeper/snapshots/op'' q"
      by (elim disjE) (auto simp: subtree_of_def starts_with_iff sep_def)
  qed
  have sep: "separated cache_fs ?its"
    by (simp add: separated_def is_copyable_def cache_fs_def fget_def subtree_of_def sep_def starts_with_iff)
  have budget: "\<exists>b. sum_sizes cache_fs [''/h/p/a''] = Inr b \<and> b \<le> MAX_OPERATION_BYTES"
  proof -
    have "sum_sizes cache_fs [''/h/p/a''] = Inr 1" by code_simp
    then show ?thesis by (simp add: MAX_OPERATION_BYTES_def)
  qed
  have rules: "blocked_targets (abs_path [''h'']) (cfg_rules (loadConfig cache_fs (abs_path [''h'']) None)) [''/h/p/a''] = []"
    by code_simp
  have links: "no_link cache_fs (abs_path (op_dir [''h'']))" "no_link cache_fs (abs_path (log_segs [''h''] ''.claude''))"
    unfolding ps by (simp_all add: no_link_def cache_fs_def fget_def)
  have tmps: "fget (abs_path (op_dir [''h''] @ [''op.json.tmp.ab''])) cache_fs = None" by code_simp
  show ?thesis
    unfolding run_ready_def its x using env sub sep budget rules links tmps
    by (simp add: valid_seg_def sep_def dot_def dotdot_def del: abs_path_append)
qed

lemma clean_run_lossless_witness:
  "\<exists>m s'. manifest_status m = Some ''verified'' \<and> \<not> leaf s' ''/h/p/a''
     \<and> run_operation demo_exec 0 (abs_path ([''h''] @ [''.claude''])) [''/h/p/a''] (consent_text (build_operation cache_fs cache_finding))
         (op_functions (build_operation cache_fs cache_finding)) [co_target (build_operation cache_fs cache_finding)] cache_fs = (Inr m, s')"
proof -
  have t: "\<exists>P. f_targetPath cache_finding = abs_path P \<and> (\<forall>x \<in> set P. valid_seg x) \<and> P \<noteq> [] \<and> tree_below P cache_fs"
    by (intro exI [of _ "[''h'', ''p'']"] conjI cache_tree)
      (simp_all add: cache_finding_def valid_seg_def sep_def dot_def dotdot_def)
  from clean_run_lossless [OF refl t cache_ready] show ?thesis unfolding cache_op by auto
qed

end
