(* ===== verification/Harden_Facts.thy ===== *)
theory Harden_Facts
  imports Harden Clean_Run
begin

text \<open>
  What harden guarantees: the patches it builds remove exactly the broken entries, so that the
  audit detector that reported them is silent afterwards; a plan contains only an operation that
  passed every refusal; executing a plan replaces the settings file by exactly the planned
  bytes, with the old bytes in the snapshot.
\<close>

subsection \<open>Hook trees\<close>

fun json_keyed :: "json \<Rightarrow> bool" where
  \<comment> \<open>no object gives a member twice\<close>
  "json_keyed (JArr xs) = list_all json_keyed xs"
| "json_keyed (JObj kvs) = (distinct (map fst kvs) \<and> list_all (\<lambda>kv. json_keyed (snd kv)) kvs)"
| "json_keyed _ = True"

fun leaf_commands :: "json \<Rightarrow> bool" where
  \<comment> \<open>an object with a command holds no further commands\<close>
  "leaf_commands (JArr xs) = list_all leaf_commands xs"
| "leaf_commands (JObj kvs) =
     (list_all (\<lambda>kv. leaf_commands (snd kv)) kvs
      \<and> (jstr (map_of kvs ''command'') \<noteq> None \<longrightarrow> list_all (\<lambda>kv. hook_commands (snd kv) = []) kvs))"
| "leaf_commands _ = True"

abbreviation flat_hooks :: "json \<Rightarrow> bool" where
  "flat_hooks j \<equiv> json_keyed j \<and> leaf_commands j"

lemma parse_num_atom: "parse_num s = Some (v, r) \<Longrightarrow> json_keyed v"
  by (auto simp: parse_num_def Let_def split: if_splits option.splits prod.splits)

lemma parse_keyed:
  "parse_val n s = Some (v, r) \<Longrightarrow> json_keyed v"
  "parse_elems n s = Some (vs, r) \<Longrightarrow> list_all json_keyed vs"
  "parse_members n acc s = Some (kvs, r) \<Longrightarrow> json_keyed (JObj acc) \<Longrightarrow> json_keyed (JObj kvs)"
proof (induction n s and n s and n acc s arbitrary: v r and vs r and kvs r rule: parse_val_parse_elems_parse_members.induct)
  case (2 n s)
  obtain c cs where c: "skip_ws s = c # cs" using 2(3) by (cases "skip_ws s") simp_all
  consider (obj) "c = CHR 0x7B" | (arr) "c = CHR ''[''" | (rest) "c \<noteq> CHR 0x7B" "c \<noteq> CHR ''[''" by blast
  then show ?case
  proof cases
    case obj
    then obtain e es where e: "skip_ws cs = e # es" using 2(3) c by (cases "skip_ws cs") simp_all
    show ?thesis
    proof (cases "e = CHR 0x7D")
      case False
      with 2(3) c obj e obtain kvs where "parse_members n [] (e # es) = Some (kvs, r)" "v = JObj kvs" by auto
      with 2(1) [OF c obj e False] show ?thesis by simp
    qed (use 2(3) c obj e in auto)
  next
    case arr
    then obtain e es where e: "skip_ws cs = e # es" using 2(3) c by (cases "skip_ws cs") simp_all
    show ?thesis
    proof (cases "e = CHR '']''")
      case False
      with 2(3) c arr e obtain vs where "parse_elems n (e # es) = Some (vs, r)" "v = JArr vs" by auto
      with 2(2) [OF c _ arr e False] arr show ?thesis by simp
    qed (use 2(3) c arr e in auto)
  next
    case rest
    with 2(3) c show ?thesis
      by (auto split: if_splits prod.splits option.splits simp: parse_num_atom)
  qed
next
  case (4 n s)
  obtain x q where x: "parse_val n s = Some (x, q)" using 4(3) by (cases "parse_val n s") auto
  obtain f fs where f: "skip_ws q = f # fs" using 4(3) x by (cases "skip_ws q") simp_all
  show ?case
  proof (cases "f = CHR '','' ")
    case True
    with 4(3) x f obtain us where us: "parse_elems n fs = Some (us, r)" "vs = x # us" by auto
    show ?thesis using 4(1) [OF x] 4(2) [OF x refl f True us(1)] us(2) by simp
  next
    case False
    with 4(3) x f have "vs = [x]" by (auto split: if_splits)
    then show ?thesis using 4(1) [OF x] by simp
  qed
next
  case (6 n acc s)
  obtain cs where c: "skip_ws s = quote # cs" using 6(3) by (cases "skip_ws s") (auto split: if_splits)
  obtain k q where k: "parse_str cs = Some (k, q)" using 6(3) c by (cases "parse_str cs") auto
  obtain es where e: "skip_ws q = CHR '':'' # es" using 6(3) c k by (cases "skip_ws q") (auto split: if_splits)
  obtain x u where x: "parse_val n es = Some (x, u)" using 6(3) c k e by (cases "parse_val n es") auto
  obtain f fs where f: "skip_ws u = f # fs" using 6(3) c k e x by (cases "skip_ws u") simp_all
  have kx: "json_keyed x" using 6(1) c k e x by blast
  have acc: "json_keyed (JObj (AList.update k x acc))"
    using 6(4) kx by (auto simp: distinct_update list_all_iff dest!: update_snd)
  show ?case
  proof (cases "f = CHR '','' ")
    case True
    with 6(3) c k e x f have "parse_members n (AList.update k x acc) fs = Some (kvs, r)" by simp
    with 6(2) c k e x f True acc show ?thesis by blast
  next
    case False
    with 6(3) c k e x f have "kvs = AList.update k x acc" by (auto split: if_splits)
    with acc show ?thesis by simp
  qed
qed simp_all

definition live_commands :: "fs \<Rightarrow> json \<Rightarrow> string list" where
  "live_commands s j = filter (\<lambda>c. \<not> isHookCommandDangling s c) (hook_commands j)"

lemma prune_members_keys: "fst ` set (prune_members s kvs) \<subseteq> fst ` set kvs"
  by (induction kvs) (auto split: option.splits)

lemma prune_no_string: "pruneDanglingHooks s j = Some j' \<Longrightarrow> jstr (Some j') = jstr (Some j)"
  by (cases j) (auto split: option.splits if_splits)

lemma prune_members_command:
  "distinct (map fst kvs) \<Longrightarrow> jstr (map_of kvs k) = None \<Longrightarrow> jstr (map_of (prune_members s kvs) k) = None"
proof (induction kvs)
  case (Cons kv kvs)
  have tail: "map_of (prune_members s kvs) (fst kv) = None"
    using Cons.prems(1) prune_members_keys [of s kvs] by (auto simp: map_of_eq_None_iff)
  show ?case
  proof (cases "fst kv = k")
    case True
    with Cons.prems(2) have "jstr (Some (snd kv)) = None" by (cases kv) simp
    with True tail show ?thesis
      using prune_no_string [of s "snd kv"] by (auto split: option.splits)
  next
    case False
    with Cons show ?thesis by (cases kv) (auto split: option.splits)
  qed
qed simp

lemma prune_commands:
  "flat_hooks j \<Longrightarrow> (case pruneDanglingHooks s j of None \<Rightarrow> [] | Some j' \<Rightarrow> hook_commands j') = live_commands s j"
  "list_all json_keyed xs \<and> list_all leaf_commands xs \<Longrightarrow> concat (map hook_commands (prune_items s xs)) = concat (map (live_commands s) xs)"
  "list_all (\<lambda>kv. json_keyed (snd kv)) kvs \<and> list_all (\<lambda>kv. leaf_commands (snd kv)) kvs \<Longrightarrow>
     concat (map (\<lambda>kv. hook_commands (snd kv)) (prune_members s kvs)) = concat (map (\<lambda>kv. live_commands s (snd kv)) kvs)"
proof (induction s j and s xs and s kvs rule: pruneDanglingHooks_prune_items_prune_members.induct)
  case (1 s xs)
  then show ?case by (simp add: live_commands_def filter_concat comp_def)
next
  case (2 s kvs)
  show ?case
  proof (cases "jstr (map_of kvs ''command'')")
    case None
    then have n: "jstr (map_of (prune_members s kvs) ''command'') = None"
      using prune_members_command 2(2) by simp
    with None 2 show ?thesis by (simp add: live_commands_def filter_concat comp_def)
  next
    case (Some c)
    with 2(2) have "concat (map (\<lambda>kv. hook_commands (snd kv)) kvs) = []" by (auto simp: list_all_iff)
    with Some show ?thesis by (simp add: live_commands_def)
  qed
qed (auto simp: live_commands_def split: option.splits)

lemma prune_cwd_keys: "fst ` set (prune_cwd_members s kvs) \<subseteq> fst ` set kvs"
  by (induction kvs) (auto split: option.splits)

lemma prune_cwd_string: "pruneDanglingCwdHooks s j = Some j' \<Longrightarrow> jstr (Some j') = jstr (Some j)"
  by (cases j) (auto split: option.splits if_splits)

lemma prune_cwd_member:
  "distinct (map fst kvs) \<Longrightarrow> jstr (map_of (prune_cwd_members s kvs) k) = jstr (map_of kvs k)"
proof (induction kvs)
  case (Cons kv kvs)
  have tail: "map_of (prune_cwd_members s kvs) (fst kv) = None"
    using Cons.prems(1) prune_cwd_keys [of s kvs] by (auto simp: map_of_eq_None_iff)
  show ?case
  proof (cases "fst kv = k")
    case True
    then show ?thesis
      using tail prune_cwd_string [of s "snd kv"] by (cases "snd kv") (auto split: option.splits)
  next
    case False
    with Cons show ?thesis by (cases kv) (auto split: option.splits)
  qed
qed simp

lemma prune_cwd_clears:
  "json_keyed j \<Longrightarrow> pruneDanglingCwdHooks s j = Some j' \<Longrightarrow> missing_cwds s j' = []"
  "list_all json_keyed xs \<Longrightarrow> concat (map (missing_cwds s) (prune_cwd_items s xs)) = []"
  "list_all (\<lambda>kv. json_keyed (snd kv)) kvs \<Longrightarrow> concat (map (\<lambda>kv. missing_cwds s (snd kv)) (prune_cwd_members s kvs)) = []"
proof (induction s j and s xs and s kvs arbitrary: j' rule: pruneDanglingCwdHooks_prune_cwd_items_prune_cwd_members.induct)
  case (2 s kvs)
  then have k: "jstr (map_of (prune_cwd_members s kvs) ''cwd'') = jstr (map_of kvs ''cwd'')"
    by (intro prune_cwd_member) simp
  show ?case using 2 by (auto simp: k cwd_missing_def split: if_splits option.splits)
qed (auto split: option.splits)

subsection \<open>A patch silences its detector\<close>

lemma applyPatch_identity:
  assumes "applyPatch j (Some buildIdentityMarkerPatch) = Inr j'" "k \<noteq> ''__housekeeper_harden_identity__''"
  shows "jget k j' = jget k j"
proof (cases j)
  case (JArr xs)
  then show ?thesis
    using assms(1) by (auto simp: applyPatch_def buildIdentityMarkerPatch_def split: option.splits if_splits)
qed (use assms in \<open>auto simp: applyPatch_def buildIdentityMarkerPatch_def delete_conv'\<close>)

lemma applyPatch_member:
  assumes "truthy_member k' (Some j) = Some x" "applyPatch j (Some (set_patch [KStr k] v)) = Inr j'"
  shows "j' = jset k v j" "jget k j' = Some v" "\<And>q. q \<noteq> k \<Longrightarrow> jget q j' = jget q j"
proof -
  have o: "is_obj j" using assms(1) by (cases j) (auto simp: truthy_member_def)
  then show j: "j' = jset k v j" using assms(2) by (cases j) (auto simp: applyPatch_def set_patch_def)
  show "jget k j' = Some v" "\<And>q. q \<noteq> k \<Longrightarrow> jget q j' = jget q j" unfolding j using o by simp_all
qed

lemma truthy_member_Some: "truthy_member k (Some j) = Some x \<Longrightarrow> jget k j = Some x"
  by (auto simp: truthy_member_def split: if_splits)

lemma truthy_member_None: "truthy_member k (Some j) = None \<Longrightarrow> \<not> truthy (jget k j)"
  by (auto simp: truthy_member_def split: if_splits)

lemma falsy_hooks: "\<not> truthy (jget ''hooks'' j) \<Longrightarrow> collectHookCommands j = []"
  by (cases "jget ''hooks'' j" rule: truthy.cases) (auto simp: collectHookCommands_def)

lemma falsy_cwds: "\<not> truthy (Some v) \<Longrightarrow> missing_cwds s v = []"
  by (cases v) auto

lemma hooks_patched:
  assumes "parseSettingsSync s tp = Some j" "leaf_commands (opt_or (jget ''hooks'' j) JNull)" "json_keyed j"
    and "applyPatch j (Some (buildHookPathDanglingPatch s tp)) = Inr j'"
  shows "collectHookCommands j' = filter (\<lambda>c. \<not> isHookCommandDangling s c) (collectHookCommands j)"
proof (cases "truthy_member ''hooks'' (Some j)")
  case None
  then have "jget ''hooks'' j' = jget ''hooks'' j"
    using assms(1,4) by (intro applyPatch_identity) (simp_all add: buildHookPathDanglingPatch_def)
  with falsy_hooks [OF truthy_member_None [OF None]] show ?thesis by (simp add: collectHookCommands_def)
next
  case (Some tree)
  note h = truthy_member_Some [OF Some]
  have "applyPatch j (Some (set_patch [KStr ''hooks''] (opt_or (pruneDanglingHooks s tree) JNull))) = Inr j'"
    using assms(1,4) Some by (simp add: buildHookPathDanglingPatch_def)
  note j' = applyPatch_member(2) [OF Some this]
  have "json_keyed tree" using assms(3) h by (cases j) (auto simp: list_all_iff dest: map_of_SomeD)
  moreover have "leaf_commands tree" using assms(2) h by simp
  ultimately have "hook_commands (opt_or (pruneDanglingHooks s tree) JNull) = live_commands s tree"
    using prune_commands(1) [of tree s] by (auto split: option.splits)
  with j' h show ?thesis by (simp add: collectHookCommands_def live_commands_def)
qed

lemma live_no_dangling: "dangling_paths s (filter (\<lambda>c. \<not> isHookCommandDangling s c) cs) = []"
proof -
  have "filter (\<lambda>p. isPluginCacheCommand p \<and> \<not> existsSync s p) (extractAbsolutePaths c) = []"
    if "\<not> looksShellAmbiguous c" "\<not> isHookCommandDangling s c" for c
    using that by (auto simp: isHookCommandDangling_def looksShellAmbiguousLocal_def looksShellAmbiguous_def
        isPluginCacheCommand_def filter_empty_conv list_ex_iff)
  then have "concat (map (\<lambda>c. if looksShellAmbiguous c then []
      else filter (\<lambda>p. isPluginCacheCommand p \<and> \<not> existsSync s p) (extractAbsolutePaths c))
        (filter (\<lambda>c. \<not> isHookCommandDangling s c) cs)) = []"
    by (simp only: concat_eq_Nil_conv) auto
  then show ?thesis unfolding dangling_paths_def by (simp only: nub.simps)
qed

lemma servers_patched:
  assumes "parseSettingsSync s tp = Some j" "applyPatch j (Some (buildMcpCommandMissingPatch s tp)) = Inr j'"
  shows "\<not> truthy (jget ''mcpServers'' j') \<or> (\<exists>v. jget ''mcpServers'' j = Some v \<and>
     jget ''mcpServers'' j' = Some (JObj (filter (\<lambda>kv. keeps_server s (snd kv)) (obj_entries v))))"
proof (cases "truthy_member ''mcpServers'' (Some j)")
  case None
  then have "jget ''mcpServers'' j' = jget ''mcpServers'' j"
    using assms by (intro applyPatch_identity) (simp_all add: buildMcpCommandMissingPatch_def)
  with truthy_member_None [OF None] show ?thesis by simp
next
  case (Some v)
  then show ?thesis
    using applyPatch_member(2) [OF Some] truthy_member_Some [OF Some] assms
    by (auto simp: buildMcpCommandMissingPatch_def)
qed

lemma server_not_broken: "keeps_server s server \<Longrightarrow> cx_fs cx = s \<Longrightarrow> broken_mcp cx server = None"
  by (auto simp: keeps_server_def server_broken_def broken_mcp_def Let_def starts_with_iff split: option.splits)

lemma cwds_patched:
  assumes "parseSettingsSync s tp = Some j" "json_keyed j" "applyPatch j (Some (buildHooksConfigDanglingPatch s tp)) = Inr j'"
    and "jget ''hooks'' j' = Some tree'"
  shows "missing_cwds s tree' = []"
proof (cases "truthy_member ''hooks'' (Some j)")
  case None
  then have "jget ''hooks'' j' = jget ''hooks'' j"
    using assms by (intro applyPatch_identity) (simp_all add: buildHooksConfigDanglingPatch_def)
  with truthy_member_None [OF None] assms(4) show ?thesis by (simp add: falsy_cwds)
next
  case (Some tree)
  note h = truthy_member_Some [OF Some]
  have "applyPatch j (Some (set_patch [KStr ''hooks''] (opt_or (pruneDanglingCwdHooks s tree) JNull))) = Inr j'"
    using assms(1,3) Some by (simp add: buildHooksConfigDanglingPatch_def)
  note j' = applyPatch_member(2) [OF Some this]
  have "json_keyed tree" using assms(2) h by (cases j) (auto simp: list_all_iff dest: map_of_SomeD)
  with prune_cwd_clears(1) [of tree s] j' assms(4) show ?thesis
    by (cases "pruneDanglingCwdHooks s tree") auto
qed

lemma parse_settings_keyed: "parseSettingsSync s tp = Some j \<Longrightarrow> json_keyed j"
proof -
  assume "parseSettingsSync s tp = Some j"
  then obtain src where "json_parse src = Some j"
    by (auto simp: parseSettingsSync_def read_json_def split: sum.splits option.splits)
  then obtain r where "parse_val (2 * length src + 2) src = Some (j, r)"
    by (auto simp only: json_parse_def split: option.splits prod.splits if_splits)
  then show "json_keyed j" by (rule parse_keyed(1))
qed

text \<open>C6: Hardening removes what the audit reported. For a settings file that parses, apply the patch a
  builder makes: the hooks patch leaves exactly the hook commands that are not dangling, in their
  order, and the detector of dangling hook paths is silent on the result (commands are leaves of
  the hooks tree); the MCP patch silences the detector of missing MCP commands; the patch for
  working directories silences the detector of missing ones.\<close>

theorem harden_clears_findings:
  assumes "parseSettingsSync s tp = Some j" "cx_fs cx = s" "jr_value (cx_settings cx) = j'"
  shows "(applyPatch j (Some (buildHookPathDanglingPatch s tp)) = Inr j' \<longrightarrow>
            leaf_commands (opt_or (jget ''hooks'' j) JNull) \<longrightarrow>
            collectHookCommands j' = filter (\<lambda>c. \<not> isHookCommandDangling s c) (collectHookCommands j)
            \<and> detectHookPathDangling cx = [])
    \<and> (applyPatch j (Some (buildMcpCommandMissingPatch s tp)) = Inr j' \<longrightarrow> detectMcpCommandMissing cx = [])
    \<and> (applyPatch j (Some (buildHooksConfigDanglingPatch s tp)) = Inr j' \<longrightarrow> detectHooksConfigDangling cx = [])"
proof (intro conjI impI)
  note k = parse_settings_keyed [OF assms(1)]
  {
    assume "applyPatch j (Some (buildHookPathDanglingPatch s tp)) = Inr j'" "leaf_commands (opt_or (jget ''hooks'' j) JNull)"
    note c = hooks_patched [OF assms(1) this(2) k this(1)]
    then show "collectHookCommands j' = filter (\<lambda>c. \<not> isHookCommandDangling s c) (collectHookCommands j)" .
    with assms(2,3) show "detectHookPathDangling cx = []"
      by (simp add: detectHookPathDangling_def live_no_dangling)
  next
    assume "applyPatch j (Some (buildMcpCommandMissingPatch s tp)) = Inr j'"
    from servers_patched [OF assms(1) this] show "detectMcpCommandMissing cx = []"
      using server_not_broken [OF _ assms(2)] assms(3)
      by (auto simp: detectMcpCommandMissing_def map_filter_def filter_empty_conv obj_entries_def)
  next
    assume "applyPatch j (Some (buildHooksConfigDanglingPatch s tp)) = Inr j'"
    from cwds_patched [OF assms(1) k this] show "detectHooksConfigDangling cx = []"
      using assms(2,3) by (auto simp: detectHooksConfigDangling_def split: option.splits)
  }
qed

definition demo_settings :: json where
  "demo_settings = JObj [(''hooks'', JArr [JObj [(''command'', JStr ''/h/plugins/cache/x'')], JObj [(''command'', JStr ''ls'')]])]"

definition settings_fs :: fs where
  "settings_fs = [(''/'', Dir), (''/h'', Dir), (''/h/s'', File (json_pretty demo_settings @ [nl]) 420)]"

lemma settings_read: "parseSettingsSync settings_fs ''/h/s'' = Some demo_settings"
proof -
  have "json_plain demo_settings" by (simp add: demo_settings_def)
  from json_parse_pretty_nl [OF this] have "read_json settings_fs ''/h/s'' = Inr demo_settings"
    by (simp add: read_json_def settings_fs_def fget_def)
  then show ?thesis by (simp add: parseSettingsSync_def)
qed

lemma demo_dangling:
  "isHookCommandDangling settings_fs ''/h/plugins/cache/x''" "\<not> isHookCommandDangling settings_fs ''ls''"
proof -
  have p: "extractAbsolutePaths ''/h/plugins/cache/x'' = [''/h/plugins/cache/x'']" "extractAbsolutePaths ''ls'' = []"
    "contains ''/plugins/cache/'' ''/h/plugins/cache/x''" "\<not> looksShellAmbiguousLocal ''/h/plugins/cache/x''"
    by code_simp+
  have n: "fget ''/h/plugins/cache/x'' settings_fs = None" by (simp add: settings_fs_def fget_def)
  show "isHookCommandDangling settings_fs ''/h/plugins/cache/x''" "\<not> isHookCommandDangling settings_fs ''ls''"
    using p n by (simp_all add: isHookCommandDangling_def)
qed

definition demo_hardened :: json where
  "demo_hardened = JObj [(''hooks'', JArr [JObj [(''command'', JStr ''ls'')]])]"

lemma harden_clears_findings_witness:
  "collectHookCommands demo_hardened = [''ls'']
   \<and> detectHookPathDangling
       (demo_cx\<lparr>cx_fs := settings_fs, cx_settings := \<lparr>jr_ok = True, jr_value = demo_hardened, jr_raw = [], jr_error = []\<rparr>\<rparr>) = []"
proof -
  let ?cx = "demo_cx\<lparr>cx_fs := settings_fs, cx_settings := \<lparr>jr_ok = True, jr_value = demo_hardened, jr_raw = [], jr_error = []\<rparr>\<rparr>"
  have p: "applyPatch demo_settings (Some (buildHookPathDanglingPatch settings_fs ''/h/s'')) = Inr demo_hardened"
    by (simp add: buildHookPathDanglingPatch_def settings_read truthy_member_def demo_settings_def demo_hardened_def
        demo_dangling applyPatch_def set_patch_def)
  have l: "leaf_commands (opt_or (jget ''hooks'' demo_settings) JNull)" by (simp add: demo_settings_def)
  have c: "collectHookCommands demo_settings = [''/h/plugins/cache/x'', ''ls'']"
    by (simp add: demo_settings_def collectHookCommands_def)
  have a: "cx_fs ?cx = settings_fs" "jr_value (cx_settings ?cx) = demo_hardened" by simp_all
  from harden_clears_findings [OF settings_read a, THEN conjunct1] p l
  show ?thesis by (simp add: c demo_dangling)
qed

subsection \<open>What a plan has passed\<close>

definition shared_rules :: "classify_ctx \<Rightarrow> finding \<Rightarrow> bool" where
  \<comment> \<open>the rules of the clean classifier before the one on cleanable detectors\<close>
  "shared_rules cc f =
     (let tp = f_targetPath f; sf = f_surface f in
      cc_interruptions cc = []
      \<and> (\<forall>r \<in> set (cc_rules cc). \<not> rule_hits (cc_home cc) tp r) \<and> f_policyMatches f = []
      \<and> (tp \<noteq> [] \<longrightarrow> \<not> isSectorBoundary tp (cc_home cc))
      \<and> executionClass sf \<in> set (cc_allowed cc) \<and> rollbackClass sf \<noteq> NotApplicable
      \<and> (ownerClass sf \<in> {ClaudeManaged, UserOwned} \<or> f_id f = ''housekeeper.stale_lock'' \<and> ownerClass sf = HousekeeperOwned)
      \<and> tp \<notin> set (cc_symlinked cc) \<and> tp \<notin> set (cc_refByHook cc) \<and> tp \<notin> set (cc_mcp cc))"

definition reason_of :: "(string \<times> string) option \<Rightarrow> string" where
  "reason_of v = (case v of None \<Rightarrow> ''no-mutation-mapping-in-v0.2'' | Some rm \<Rightarrow> fst rm)"

lemma reason_guard:
  "r \<noteq> ''no-mutation-mapping-in-v0.2'' \<Longrightarrow>
   (reason_of (if c then Some (r, m) else y) = ''no-mutation-mapping-in-v0.2'')
     = (\<not> c \<and> reason_of y = ''no-mutation-mapping-in-v0.2'')"
  by (simp add: reason_of_def)

lemma classify_shared:
  assumes "reason_of (classifyFinding f cc) = ''no-mutation-mapping-in-v0.2''"
  shows "shared_rules cc f"
proof (cases "find (rule_hits (cc_home cc) (f_targetPath f)) (cc_rules cc)")
  case None
  then have r: "\<forall>r \<in> set (cc_rules cc). \<not> rule_hits (cc_home cc) (f_targetPath f) r" by (simp add: find_None_iff)
  show ?thesis
  proof (cases "f_policyMatches f")
    case Nil
    have lits: "''plan-state-error'' \<noteq> ''no-mutation-mapping-in-v0.2''" "''sector-boundary'' \<noteq> ''no-mutation-mapping-in-v0.2''"
      "''execution-class'' \<noteq> ''no-mutation-mapping-in-v0.2''" "''rollback-class'' \<noteq> ''no-mutation-mapping-in-v0.2''"
      "''owner'' \<noteq> ''no-mutation-mapping-in-v0.2''" "''plugin-symlinked-cache'' \<noteq> ''no-mutation-mapping-in-v0.2''"
      "''plugin-cache-referenced-by-hook'' \<noteq> ''no-mutation-mapping-in-v0.2''"
      "''plugin-cache-has-mcp-server'' \<noteq> ''no-mutation-mapping-in-v0.2''" by simp_all
    show ?thesis
      using assms
      unfolding classifyFinding_def shared_rules_def Let_def None Nil option.case list.case lits [THEN reason_guard]
      by (simp only: eqTrueI [OF r] List.member_iff de_Morgan_conj de_Morgan_disj not_not list.set insert_iff empty_iff simp_thms imp_conv_disj)
  next
    case (Cons m ms)
    with assms show ?thesis
      unfolding classifyFinding_def Let_def None Cons option.case list.case by (simp add: reason_of_def split: if_splits)
  qed
next
  case (Some r)
  with assms show ?thesis
    unfolding classifyFinding_def Let_def Some option.case by (simp add: reason_of_def split: if_splits)
qed

lemma safeAppendRefusal_run:
  "\<exists>s'. safeAppendRefusal e home d r p s = (Inr (), s') \<and> only_log (refusal_log home) s s'"
  unfolding safeAppendRefusal_def swallowI_def using appendRefusal_only by blast

lemma log_refusals_run:
  "\<exists>s'. log_refusals e home rs s = (Inr (), s') \<and> only_log (refusal_log home) s s'"
proof (induction rs arbitrary: s)
  case (Cons r rs)
  obtain t where t: "safeAppendRefusal e home (cf_detector r) (cf_reason r) (cf_target r) s = (Inr (), t)"
    "only_log (refusal_log home) s t" using safeAppendRefusal_run by blast
  obtain u where u: "log_refusals e home rs t = (Inr (), u)" "only_log (refusal_log home) t u"
    using Cons by blast
  from t u show ?case by (auto simp: bindI_def intro: only_log_trans)
qed (simp add: returnI_def)

lemma harden_candidates_run:
  assumes "harden_candidates h home opts registry fs s = (Inr (ops, rs), s')"
  shows "only_log (refusal_log home) s s'
     \<and> (\<forall>op \<in> set ops. \<exists>f \<in> set fs. \<exists>t. only_log (refusal_log home) s t \<and> plan_finding h opts registry t f = Inr (Inr op))"
  using assms
proof (induction fs arbitrary: s ops rs)
  case (Cons f fs)
  show ?case
  proof (cases "f_targetPath f = []")
    case True
    with Cons.prems have "harden_candidates h home opts registry fs s = (Inr (ops, rs), s')" by simp
    from Cons.IH [OF this] show ?thesis by auto
  next
    case False
    then obtain v where v: "plan_finding h opts registry s f = Inr v"
      using Cons.prems by (cases "plan_finding h opts registry s f") (auto simp: bindI_def liftI_def)
    show ?thesis
    proof (cases v)
      case (Inl rm)
      obtain t where t: "log_refusals (henv h) home [harden_refusal (f_id f) (f_targetPath f) rm] s = (Inr (), t)"
        "only_log (refusal_log home) s t" using log_refusals_run by blast
      obtain rs' where r: "harden_candidates h home opts registry fs t = (Inr (ops, rs'), s')"
        using Cons.prems False v Inl t(1)
        by (auto simp: bindI_def liftI_def returnI_def Let_def split: sum.splits prod.splits)
      from Cons.IH [OF r] have a: "only_log (refusal_log home) t s'"
        and b: "\<And>op. op \<in> set ops \<Longrightarrow> \<exists>f \<in> set fs. \<exists>u. only_log (refusal_log home) t u \<and> plan_finding h opts registry u f = Inr (Inr op)"
        by blast+
      have "\<exists>g \<in> set (f # fs). \<exists>u. only_log (refusal_log home) s u \<and> plan_finding h opts registry u g = Inr (Inr op)"
        if mem: "op \<in> set ops" for op
      proof -
        obtain g u where "g \<in> set fs" "only_log (refusal_log home) t u" "plan_finding h opts registry u g = Inr (Inr op)"
          using b [OF mem] by blast
        then show ?thesis using only_log_trans [OF t(2)] by (intro bexI [of _ g] exI [of _ u]) auto
      qed
      with only_log_trans [OF t(2) a] show ?thesis by blast
    next
      case (Inr op)
      obtain ops' where r: "harden_candidates h home opts registry fs s = (Inr (ops', rs), s')" "ops = op # ops'"
        using Cons.prems False v Inr by (auto simp: bindI_def liftI_def returnI_def split: sum.splits prod.splits)
      have "\<exists>g \<in> set (f # fs). \<exists>t. only_log (refusal_log home) s t \<and> plan_finding h opts registry t g = Inr (Inr op)"
        using v Inr by (intro bexI [of _ f] exI [of _ s]) simp_all
      with Cons.IH [OF r(1)] r(2) show ?thesis by auto
    qed
  qed
qed (simp add: returnI_def)

lemma plan_patch_op:
  assumes "plan_patch h s f p = Inr (Inr op)"
  shows "hp_detector op = f_id f" "hp_target op = f_targetPath f" "hp_files op = [f_targetPath f]"
    "hp_rewrite op = \<lparr>rw_target = f_targetPath f, rw_patch = Some p\<rparr>"
    "preApply (he_jsonc h) (hp_rewrite op) s = Inr (Planned (hp_bytes op))"
  using assms by (auto simp: plan_patch_def Let_def split: sum.splits pre_result.splits)

lemma rewrite_plan_ok:
  assumes "rewrite_plan h s tp on = Inr p"
  shows "existsSync s (snd on) \<and> executable_bits h s (snd on) \<and> he_owner h (snd on) = he_uid h
    \<and> (\<exists>name. source_server s tp (fst on) = Some name
         \<and> p = set_patch [KStr ''mcpServers'', KStr name, KStr ''command''] (JStr (snd on)))"
  using assms by (auto simp: rewrite_plan_def Let_def split: if_splits option.splits)

definition planned_op :: "harden_env \<Rightarrow> harden_opts \<Rightarrow> fs \<Rightarrow> harden_op \<Rightarrow> bool" where
  \<comment> \<open>what the checks of one candidate say of the operation they let through\<close>
  "planned_op h opts t op =
     (\<not> looksLikeNetworkFs t (hp_target op) (ho_forceNetworkFs opts)
      \<and> rw_target (hp_rewrite op) = hp_target op \<and> hp_files op = [hp_target op]
      \<and> preApply (he_jsonc h) (hp_rewrite op) t = Inr (Planned (hp_bytes op))
      \<and> (\<forall>old new. ho_rewrite opts = Some (old, new) \<longrightarrow> hp_detector op = ''settings.mcp_command_missing'' \<longrightarrow>
           existsSync t new \<and> executable_bits h t new \<and> he_owner h new = he_uid h
           \<and> (\<exists>name. source_server t (hp_target op) old = Some name
                \<and> rw_patch (hp_rewrite op)
                    = Some (set_patch [KStr ''mcpServers'', KStr name, KStr ''command''] (JStr new)))))"

lemma plan_finding_op:
  assumes "plan_finding h opts registry t f = Inr (Inr op)"
  shows "hp_detector op = f_id f \<and> hp_target op = f_targetPath f \<and> planned_op h opts t op"
proof -
  have net: "\<not> looksLikeNetworkFs t (f_targetPath f) (ho_forceNetworkFs opts)"
    using assms by (auto simp: plan_finding_def Let_def split: if_splits)
  show ?thesis
  proof (cases "ho_rewrite opts")
    case None
    with assms net have "plan_patch h t f (generatePatchForFinding t f registry) = Inr (Inr op)"
      by (simp add: plan_finding_def Let_def)
    from plan_patch_op [OF this] net None show ?thesis by (simp add: planned_op_def)
  next
    case (Some on)
    show ?thesis
    proof (cases "f_id f = ''settings.mcp_command_missing''")
      case True
      with assms net Some obtain p where p: "rewrite_plan h t (f_targetPath f) on = Inr p" "plan_patch h t f p = Inr (Inr op)"
        by (auto simp: plan_finding_def Let_def split: sum.splits)
      from plan_patch_op [OF p(2)] rewrite_plan_ok [OF p(1)] net Some show ?thesis
        by (auto simp: planned_op_def)
    next
      case False
      with assms net Some have "plan_patch h t f (generatePatchForFinding t f registry) = Inr (Inr op)"
        by (simp add: plan_finding_def Let_def)
      from plan_patch_op [OF this] net False show ?thesis by (simp add: planned_op_def)
    qed
  qed
qed

lemma keep_one_harden_run:
  "\<exists>ops' rs' s'. keep_one_harden e home (ops, rs) s = (Inr (ops', rs'), s') \<and> only_log (refusal_log home) s s'
     \<and> length ops' \<le> 1 \<and> set ops' \<subseteq> set ops"
proof (cases "1 < length ops")
  case True
  let ?l = "sort_key hp_target ops"
  have "?l \<noteq> []" using True by (metis length_0_conv length_sort not_less_zero)
  then have "hd ?l \<in> set ops" using hd_in_set [of ?l] by simp
  moreover obtain t where "log_refusals e home (map surplus_harden (tl ?l)) s = (Inr (), t)" "only_log (refusal_log home) s t"
    using log_refusals_run by blast
  ultimately show ?thesis using True by (simp add: keep_one_harden_def Let_def bindI_def returnI_def)
next
  case False
  then show ?thesis by (simp add: keep_one_harden_def returnI_def)
qed

lemma refuse_run:
  assumes "bindI (log_refusals e home rs) (\<lambda>_. returnI ([], rs)) s = (Inr (ops, refused), s')"
  shows "ops = [] \<and> only_log (refusal_log home) s s'"
proof -
  obtain t where "log_refusals e home rs s = (Inr (), t)" "only_log (refusal_log home) s t" using log_refusals_run by blast
  with assms show ?thesis by (simp add: bindI_def returnI_def)
qed

lemma if_either: "(if a then x else if b then y else z) u = r \<Longrightarrow> a \<or> b \<Longrightarrow> x u = r \<or> y u = r"
  by (cases a; cases b) simp_all

lemma harden_checks_run:
  assumes "harden_checks h home opts cands s = (Inr (ops, refused), s')"
  shows "only_log (refusal_log home) s s' \<and> length ops \<le> 1
    \<and> (ops \<noteq> [] \<longrightarrow>
        map_of (effectiveHardenableRegistry HARDENABLE_DETECTORS_V03 (ho_override opts)) (ho_target opts) \<noteq> None
        \<and> (\<exists>probe t. composeCleanPlan (he_exec h) home
             \<lparr>cl_target = ho_target opts, cl_path = ho_path opts, cl_mode = Some (opt_or (ho_mode opts) Safe),
              cl_allowed = Some (opt_or (ho_allowed opts) [Inert, KnownExecutionContext])\<rparr> s = (Inr probe, t)
             \<and> forwarded (cp_refused probe) = []))
    \<and> (\<forall>op \<in> set ops. \<exists>f \<in> set cands. \<exists>t. only_log (refusal_log home) s t
          \<and> hp_detector op = f_id f \<and> hp_target op = f_targetPath f \<and> planned_op h opts t op)"
proof (cases "cands = []")
  case True
  then have "bindI (log_refusals (henv h) home [no_finding opts]) (\<lambda>_. returnI ([], [no_finding opts])) s = (Inr (ops, refused), s')"
    using assms by (simp only: harden_checks_def Let_def simp_thms if_True)
  from refuse_run [OF this] show ?thesis by simp
next
  case False
  let ?o = "\<lparr>cl_target = ho_target opts, cl_path = ho_path opts, cl_mode = Some (opt_or (ho_mode opts) Safe),
              cl_allowed = Some (opt_or (ho_allowed opts) [Inert, KnownExecutionContext])\<rparr>"
  let ?reg = "effectiveHardenableRegistry HARDENABLE_DETECTORS_V03 (ho_override opts)"
  obtain probe u where probe: "composeCleanPlan (he_exec h) home ?o s = (Inr probe, u)"
    using assms False by (cases "composeCleanPlan (he_exec h) home ?o s") (auto simp: harden_checks_def Let_def bindI_def split: sum.splits)
  have lu: "only_log (refusal_log home) s u" by (rule compose_run [OF probe])
  have body: "(if forwarded (cp_refused probe) \<noteq> []
       then bindI (log_refusals (henv h) home (forwarded (cp_refused probe))) (\<lambda>_. returnI ([], forwarded (cp_refused probe)))
       else if map_of ?reg (ho_target opts) = None
       then bindI (log_refusals (henv h) home (map not_hardenable cands)) (\<lambda>_. returnI ([], map not_hardenable cands))
       else bindI (harden_candidates h home opts ?reg cands) (keep_one_harden (henv h) home)) u = (Inr (ops, refused), s')"
    using assms False probe by (simp add: harden_checks_def Let_def bindI_def)
  show ?thesis
  proof (cases "forwarded (cp_refused probe) = [] \<and> map_of ?reg (ho_target opts) \<noteq> None")
    case True
    with body obtain os rs t where c: "harden_candidates h home opts ?reg cands u = (Inr (os, rs), t)"
      "keep_one_harden (henv h) home (os, rs) t = (Inr (ops, refused), s')"
      by (auto simp: bindI_def split: sum.splits prod.splits)
    have k: "only_log (refusal_log home) t s'" "length ops \<le> 1" "set ops \<subseteq> set os"
      using keep_one_harden_run [of "henv h" home os rs t] c(2) by auto
    have ops: "\<exists>f \<in> set cands. \<exists>t. only_log (refusal_log home) s t
          \<and> hp_detector op = f_id f \<and> hp_target op = f_targetPath f \<and> planned_op h opts t op" if "op \<in> set ops" for op
    proof -
      have "op \<in> set os" using that k(3) by blast
      with harden_candidates_run [OF c(1)] obtain f v where "f \<in> set cands" "only_log (refusal_log home) u v"
        "plan_finding h opts ?reg v f = Inr (Inr op)" by blast
      with plan_finding_op only_log_trans [OF lu] show ?thesis by blast
    qed
    have "only_log (refusal_log home) u t" using harden_candidates_run [OF c(1)] by blast
    from only_log_trans [OF only_log_trans [OF lu this] k(1)] k(2) ops True probe show ?thesis by blast
  next
    case False
    then have "forwarded (cp_refused probe) \<noteq> [] \<or> map_of ?reg (ho_target opts) = None" by blast
    from if_either [OF body this] obtain rs
      where "bindI (log_refusals (henv h) home rs) (\<lambda>_. returnI ([], rs)) u = (Inr (ops, refused), s')" by blast
    from refuse_run [OF this] have "ops = [] \<and> only_log (refusal_log home) u s'" .
    with only_log_trans [OF lu] show ?thesis by simp
  qed
qed

definition harden_probe :: "harden_opts \<Rightarrow> clean_opts" where
  "harden_probe opts = \<lparr>cl_target = ho_target opts, cl_path = ho_path opts, cl_mode = Some (opt_or (ho_mode opts) Safe),
     cl_allowed = Some (opt_or (ho_allowed opts) [Inert, KnownExecutionContext])\<rparr>"

lemma probe_passes:
  assumes probe: "composeCleanPlan x home (harden_probe opts) s = (Inr probe, t)" "forwarded (cp_refused probe) = []"
    and rep: "assembleReport (xe_audit x) home (default_audit_opts (opt_or (ho_mode opts) Safe)) s = Inr rep"
    and f: "f \<in> set (candidates_of rep (ho_target opts) (ho_path opts))"
  shows "passes (opt_or (ho_allowed opts) [Inert, KnownExecutionContext]) home f
    \<and> targets_of ''housekeeper.interrupted_operation'' rep = []
    \<and> \<not> list_ex (rule_hits home (f_targetPath f)) (cfg_rules (loadConfig s home None))
    \<and> (f_targetPath f \<noteq> [] \<and> existsSync s (f_targetPath f) \<longrightarrow> no_link s (f_targetPath f))"
proof (rule compose_run [OF probe(1)])
  fix rep' cc
  let ?al = "opt_or (ho_allowed opts) [Inert, KnownExecutionContext]"
  assume r: "assembleReport (xe_audit x) home (default_audit_opts (opt_or (cl_mode (harden_probe opts)) Safe)) s = Inr rep'"
    and cc: "classify_context (xenv x) s home rep' (candidates_of rep' (cl_target (harden_probe opts)) (cl_path (harden_probe opts)))
       (opt_or (cl_allowed (harden_probe opts)) DEFAULT_ALLOWED_EXECUTION_CLASSES) = Inr cc"
    and all: "\<And>f rm. f \<in> set (candidates_of rep' (cl_target (harden_probe opts)) (cl_path (harden_probe opts))) \<Longrightarrow>
       classifyFinding f cc = Some rm \<Longrightarrow> refusal_of f rm \<in> set (cp_refused probe)"
  have rr: "rep' = rep" using r rep by (simp add: harden_probe_def)
  have cx: "classify_context (xenv x) s home rep (candidates_of rep (ho_target opts) (ho_path opts)) ?al = Inr cc"
    using cc rr by (simp add: harden_probe_def)
  have "reason_of (classifyFinding f cc) = ''no-mutation-mapping-in-v0.2''"
  proof (cases "classifyFinding f cc")
    case (Some rm)
    with all [of f rm] f rr have "refusal_of f rm \<in> set (cp_refused probe)" by (simp add: harden_probe_def)
    with probe(2) have "cf_reason (refusal_of f rm) = ''no-mutation-mapping-in-v0.2''"
      unfolding forwarded_def filter_empty_conv by blast
    with Some show ?thesis by (simp add: reason_of_def refusal_of_def)
  qed (simp add: reason_of_def)
  from classify_shared [OF this] context_fields(6) [OF cx f]
  show ?thesis
    unfolding shared_rules_def passes_def Let_def context_fields(1-5) [OF cx] by (auto simp: list_ex_iff)
qed

text \<open>C7: What a harden plan may contain: at most one operation; its detector is hardenable, no
  operation is interrupted, its target is a candidate of the fresh report that no protection rule
  covers, that is not a credential or a link, whose surface is inert or a known execution context,
  reversible and owned by the user; the json-rewrite handler has planned its bytes. A rewrite of an
  MCP command happens only to an existing, executable path of the running user, in a server whose
  command is the old path. Planning writes the refusal log only.\<close>

theorem harden_plan_sound:
  assumes "composeHardenPlan h home opts s = (Inr plan, s')"
  shows "\<exists>rep. assembleReport (xe_audit (he_exec h)) home (default_audit_opts (opt_or (ho_mode opts) Safe)) s = Inr rep
    \<and> length (hq_operations plan) \<le> 1 \<and> only_log (refusal_log home) s s'
    \<and> (\<forall>op \<in> set (hq_operations plan).
         map_of (effectiveHardenableRegistry HARDENABLE_DETECTORS_V03 (ho_override opts)) (hp_detector op) \<noteq> None
         \<and> targets_of ''housekeeper.interrupted_operation'' rep = []
         \<and> \<not> list_ex (rule_hits home (hp_target op)) (cfg_rules (loadConfig s home None))
         \<and> (hp_target op \<noteq> [] \<and> existsSync s (hp_target op) \<longrightarrow> no_link s (hp_target op))
         \<and> (\<exists>f \<in> set (candidates_of rep (ho_target opts) (ho_path opts)).
              f_id f = hp_detector op \<and> f_targetPath f = hp_target op
              \<and> passes (opt_or (ho_allowed opts) [Inert, KnownExecutionContext]) home f)
         \<and> (\<exists>t. only_log (refusal_log home) s t \<and> planned_op h opts t op))"
proof -
  obtain rep where rep: "assembleReport (xe_audit (he_exec h)) home (default_audit_opts (opt_or (ho_mode opts) Safe)) s = Inr rep"
    using assms by (auto simp: composeHardenPlan_def Let_def split: sum.splits)
  let ?c = "candidates_of rep (ho_target opts) (ho_path opts)"
  obtain ops rs where run: "harden_checks h home opts ?c s = (Inr (ops, rs), s')" "hq_operations plan = ops"
    using assms rep by (auto simp: composeHardenPlan_def Let_def bindI_def returnI_def split: sum.splits prod.splits)
  note facts = harden_checks_run [OF run(1)]
  have "map_of (effectiveHardenableRegistry HARDENABLE_DETECTORS_V03 (ho_override opts)) (hp_detector op) \<noteq> None
         \<and> targets_of ''housekeeper.interrupted_operation'' rep = []
         \<and> \<not> list_ex (rule_hits home (hp_target op)) (cfg_rules (loadConfig s home None))
         \<and> (hp_target op \<noteq> [] \<and> existsSync s (hp_target op) \<longrightarrow> no_link s (hp_target op))
         \<and> (\<exists>f \<in> set ?c. f_id f = hp_detector op \<and> f_targetPath f = hp_target op
              \<and> passes (opt_or (ho_allowed opts) [Inert, KnownExecutionContext]) home f)
         \<and> (\<exists>t. only_log (refusal_log home) s t \<and> planned_op h opts t op)" (is "?ok op") if op: "op \<in> set ops" for op
  proof -
    from op have "ops \<noteq> []" by auto
    with facts obtain probe t where probe: "composeCleanPlan (he_exec h) home (harden_probe opts) s = (Inr probe, t)"
      "forwarded (cp_refused probe) = []"
      and reg: "map_of (effectiveHardenableRegistry HARDENABLE_DETECTORS_V03 (ho_override opts)) (ho_target opts) \<noteq> None"
      unfolding harden_probe_def by blast
    from facts op obtain f u where f: "f \<in> set ?c" "only_log (refusal_log home) s u" "hp_detector op = f_id f"
      "hp_target op = f_targetPath f" "planned_op h opts u op" by blast
    have "f_id f = ho_target opts" using f(1) by (simp add: candidates_of_def)
    with probe_passes [OF probe rep f(1)] f reg show ?thesis by auto
  qed
  then have all: "\<forall>op \<in> set (hq_operations plan). ?ok op" unfolding run(2) by (rule ballI)
  have l: "only_log (refusal_log home) s s'" "length (hq_operations plan) \<le> 1" using facts run(2) by simp_all
  show ?thesis by (rule exI [of _ rep]) (rule conjI [OF rep conjI [OF l(2) conjI [OF l(1) all]]])
qed

subsection \<open>An example\<close>

definition live_harden :: harden_env where
  "live_harden = \<lparr>he_exec = demo_exec, he_jsonc = (\<lambda>t p v. None), he_owner = (\<lambda>p. 0), he_uid = 0,
     he_dirMode = (\<lambda>p. 493), he_message = (\<lambda>r p. [])\<rparr>"

definition live_target :: harden_opts where
  "live_target = \<lparr>ho_target = ''hooks.config_dangling'', ho_path = [], ho_mode = None, ho_allowed = None,
     ho_forceNetworkFs = False, ho_override = [], ho_rewrite = None\<rparr>"

definition live_logged :: fs where
  \<comment> \<open>the disk after the clean probe has logged its refusal\<close>
  "live_logged = snd (log_refusal (sample_env 0) ''/h'' ''hooks.config_dangling'' ''no-mutation-mapping-in-v0.2'' ''/h/settings.json'' live_fs)"

lemma live_logged_reads:
  "read_json live_logged ''/h/settings.json'' = Inr live_settings"
  "read_file live_logged ''/h/settings.json'' = Inr (json_pretty live_settings @ [nl])"
  "\<not> existsSync live_logged ''/x''" "\<not> existsSync live_logged ''/h/.housekeeper-network-fs''"
proof -
  have "fget (refusal_log ''/h'') live_fs = None" by code_simp
  then have "no_link live_fs (refusal_log ''/h'')" by (simp add: no_link_def)
  moreover obtain s' where s': "log_refusal (sample_env 0) ''/h'' ''hooks.config_dangling'' ''no-mutation-mapping-in-v0.2'' ''/h/settings.json'' live_fs
      = (Inr (), s')" "only_log (refusal_log ''/h'') live_fs s'" using log_refusal_run by blast
  moreover have "refusal_log ''/h'' \<noteq> ''/h/settings.json''" by code_simp
  moreover have "live_logged = s'" by (simp add: live_logged_def s'(1))
  ultimately have "fget ''/h/settings.json'' live_logged = fget ''/h/settings.json'' live_fs
      \<or> fget ''/h/settings.json'' live_fs = None" unfolding only_log_def by metis
  then have g: "fget ''/h/settings.json'' live_logged = Some (File (json_pretty live_settings @ [nl]) 420)"
    by (simp add: live_settings_node)
  then show "read_file live_logged ''/h/settings.json'' = Inr (json_pretty live_settings @ [nl])" by simp
  then show "read_json live_logged ''/h/settings.json'' = Inr live_settings"
    using json_parse_pretty_nl [OF live_settings_plain] by (simp add: read_json_def)
  show "\<not> existsSync live_logged ''/x''" "\<not> existsSync live_logged ''/h/.housekeeper-network-fs''" by code_simp+
qed

lemma live_hook_finding:
  "f_targetPath (live_finding live_hook) = ''/h/settings.json''" "f_id (live_finding live_hook) = ''hooks.config_dangling''"
  by (simp_all add: live_finding_def live_raws)

lemma live_planned:
  "\<exists>op. plan_finding live_harden live_target HARDENABLE_DETECTORS_V03 live_logged (live_finding live_hook) = Inr (Inr op)
      \<and> hp_target op = ''/h/settings.json''"
proof -
  let ?j = "JObj [(''hooks'', JArr [])]" and ?p = "set_patch [KStr ''hooks''] (JArr [])"
  have b: "buildHooksConfigDanglingPatch live_logged ''/h/settings.json'' = ?p"
    by (simp add: buildHooksConfigDanglingPatch_def parseSettingsSync_def live_logged_reads truthy_member_def live_settings_def
        cwd_missing_def)
  have g: "generatePatchForFinding live_logged (live_finding live_hook) HARDENABLE_DETECTORS_V03 = ?p"
    by (simp add: generatePatchForFinding_def live_hook_finding HARDENABLE_DETECTORS_V03_def b)
  have a: "applyPatch live_settings (Some ?p) = Inr ?j" "applyPatch ?j (Some ?p) = Inr ?j"
    by (simp_all add: applyPatch_def set_patch_def live_settings_def)
  have "json_plain ?j" by simp
  from json_parse_pretty [OF this] have "preApply_json live_settings (Some ?p) = Planned (length (json_pretty ?j))"
    using a by (simp add: preApply_json_def)
  then have "preApply (he_jsonc live_harden) \<lparr>rw_target = ''/h/settings.json'', rw_patch = Some ?p\<rparr> live_logged
      = Inr (Planned (length (json_pretty ?j)))"
    using json_parse_pretty_nl [OF live_settings_plain] by (simp add: preApply_def live_logged_reads)
  moreover have "path_join [dirname ''/h/settings.json'', ''.housekeeper-network-fs''] = ''/h/.housekeeper-network-fs''" by code_simp
  ultimately show ?thesis
    by (simp add: plan_finding_def plan_patch_def live_hook_finding looksLikeNetworkFs_def live_logged_reads g
        live_target_def Let_def)
qed

lemma live_hook_candidates: "candidates_of live_report ''hooks.config_dangling'' [] = [live_finding live_hook]"
  by (simp add: candidates_of_def live_findings) (simp add: live_finding_def live_raws)

lemma live_hook_classified:
  "\<exists>cc m. classify_context (sample_env 0) live_fs ''/h'' live_report [live_finding live_hook] [Inert, KnownExecutionContext] = Inr cc
      \<and> classifyFinding (live_finding live_hook) cc = Some (''no-mutation-mapping-in-v0.2'', m)"
proof -
  note t = live_hook_finding
  have d: "drifted_commands (sample_env 0) live_fs ''/h'' [live_finding live_hook] = Inr []" by (simp add: t)
  then obtain cc where cc: "classify_context (sample_env 0) live_fs ''/h'' live_report [live_finding live_hook] [Inert, KnownExecutionContext] = Inr cc"
    by (simp add: classify_context_def t Let_def)
  have no: "targets_of ''housekeeper.interrupted_operation'' live_report = []"
    "targets_of ''plugin.cache_referenced_by_hook'' live_report = []"
    by (simp_all add: targets_of_def live_findings) (simp_all add: live_finding_def live_raws)
  have "existsSync live_fs ''/h/settings.json''" "\<not> hasMcpServer live_fs ''/h/settings.json''"
    "\<not> isSectorBoundary ''/h/settings.json'' ''/h''"
    by code_simp+
  moreover have "no_link live_fs ''/h/settings.json''" by (simp add: no_link_def live_fs_def fget_def)
  ultimately have "\<exists>m. classifyFinding (live_finding live_hook) cc = Some (''no-mutation-mapping-in-v0.2'', m)"
    using context_fields(6) [OF cc, of "live_finding live_hook"]
    by (simp add: classifyFinding_def context_fields(1-5) [OF cc] no live_config t live_surfaces CLEANABLE_DETECTORS_V02_def Let_def)
  with cc show ?thesis by blast
qed

lemma live_env: "xe_audit demo_exec = demo_env" "ae_env demo_env = sample_env 0"
  by (simp_all add: demo_exec_def demo_env_def)

lemma live_probe:
  "\<exists>probe. composeCleanPlan demo_exec ''/h'' (harden_probe live_target) live_fs = (Inr probe, live_logged)
     \<and> forwarded (cp_refused probe) = []"
proof -
  obtain cc m where cc: "classify_context (sample_env 0) live_fs ''/h'' live_report [live_finding live_hook] [Inert, KnownExecutionContext] = Inr cc"
    "classifyFinding (live_finding live_hook) cc = Some (''no-mutation-mapping-in-v0.2'', m)"
    using live_hook_classified by blast
  obtain s' where "log_refusal (sample_env 0) ''/h'' ''hooks.config_dangling'' ''no-mutation-mapping-in-v0.2'' ''/h/settings.json'' live_fs
      = (Inr (), s')" using log_refusal_run by blast
  then have l: "log_refusal (sample_env 0) ''/h'' ''hooks.config_dangling'' ''no-mutation-mapping-in-v0.2'' ''/h/settings.json'' live_fs
      = (Inr (), live_logged)" by (simp add: live_logged_def)
  show ?thesis
    by (simp add: composeCleanPlan_def harden_probe_def live_target_def live_env live_assembled live_hook_candidates cc
        bindI_def returnI_def live_hook_finding l keep_one_def forwarded_def refusal_of_def Let_def)
qed

lemma harden_plan_sound_witness:
  "\<exists>plan s' op. composeHardenPlan live_harden ''/h'' live_target live_fs = (Inr plan, s')
     \<and> hq_operations plan = [op] \<and> hp_target op = ''/h/settings.json'' \<and> no_link live_fs (hp_target op)"
proof -
  obtain probe where p: "composeCleanPlan demo_exec ''/h'' (harden_probe live_target) live_fs = (Inr probe, live_logged)"
    "forwarded (cp_refused probe) = []" using live_probe by blast
  obtain op where op: "plan_finding live_harden live_target HARDENABLE_DETECTORS_V03 live_logged (live_finding live_hook) = Inr (Inr op)"
    "hp_target op = ''/h/settings.json''" using live_planned by blast
  have reg: "map_of HARDENABLE_DETECTORS_V03 ''hooks.config_dangling'' = Some buildHooksConfigDanglingPatch" by (simp add: HARDENABLE_DETECTORS_V03_def)
  have he: "he_exec live_harden = demo_exec" by (simp add: live_harden_def)
  have ho: "ho_target live_target = ''hooks.config_dangling''" "ho_path live_target = []" "ho_override live_target = []"
    "opt_or (ho_mode live_target) Safe = Safe" by (simp_all add: live_target_def)
  have c: "harden_candidates live_harden ''/h'' live_target HARDENABLE_DETECTORS_V03 [live_finding live_hook] live_logged
      = (Inr ([op], []), live_logged)"
    by (simp add: live_hook_finding bindI_def liftI_def returnI_def op(1))
  have "harden_checks live_harden ''/h'' live_target [live_finding live_hook] live_fs = (Inr ([op], []), live_logged)"
    using p(1) [unfolded harden_probe_def ho] p(2) c reg
    by (simp add: harden_checks_def Let_def ho he bindI_def keep_one_harden_def returnI_def del: harden_candidates.simps)
  then obtain plan where plan: "composeHardenPlan live_harden ''/h'' live_target live_fs = (Inr plan, live_logged)"
    "hq_operations plan = [op]"
    by (simp add: composeHardenPlan_def Let_def he ho live_env live_assembled live_hook_candidates bindI_def returnI_def)
  have "existsSync live_fs ''/h/settings.json''" by code_simp
  then have "no_link live_fs (hp_target op)" using harden_plan_sound [OF plan(1)] plan(2) op(2) by auto
  with plan op(2) show ?thesis by blast
qed

end
