(* ===== verification/Harden_Run.thy ===== *)
theory Harden_Run
  imports Harden_Facts
begin

text \<open>
  What running a harden operation does: the snapshot holds the old settings, the file holds
  exactly the planned bytes, the operation is verified, and no other file has changed.
\<close>

subsection \<open>One rewritten file\<close>

definition rewritten_as :: "json \<Rightarrow> string \<Rightarrow> json" where
  \<comment> \<open>the entry of a file that its mutation left with digest h\<close>
  "rewritten_as en h = jset ''applied'' (JBool True) (jset ''sha256After'' (JStr h) en)"

lemma rewritten_entry:
  assumes "entry_path en = Some p"
  shows "entry_path (rewritten_as en h) = Some p" "jget ''sha256After'' (rewritten_as en h) = Some (JStr h)"
    and "json_plain en \<Longrightarrow> json_plain (rewritten_as en h)"
proof -
  have "is_obj en" using assms by (cases en) (auto simp: entry_path_def)
  then show "jget ''sha256After'' (rewritten_as en h) = Some (JStr h)" by (simp add: rewritten_as_def)
qed (use assms in \<open>auto simp: rewritten_as_def entry_path_def\<close>)

lemma apply_entry_rewritten:
  assumes "f p s = (Inr (), s')" "fget p s' = Some (File out md)" "entry_path en = Some p"
  shows "apply_entry e (Some f) en s = (rewritten_as en (e_sha e out), False, s')"
  using assms by (simp add: apply_entry_def rewritten_as_def hashFile_def)

lemma rewritten_holds:
  assumes "entry_path en = Some p" "fget p s = Some (File out md)"
  shows "entry_holds e s (rewritten_as en (e_sha e out))"
  using assms rewritten_entry [OF assms(1)] by (simp add: entry_holds_def entry_hash_def hashFile_def)

lemma rewrite_function_run:
  assumes "preApply jsonc op s = Inr (Planned n)" and "fget (rw_target op) s = Some (File c md)"
    and "json_parse c = Some parsed" and "slot_ready hex (rw_target op) s" and "jsonc = he_jsonc h"
  shows "\<exists>r s'. rewrite_function h hex op p s = (Inr (), s') \<and> applyPatch parsed (rw_patch op) = Inr r
     \<and> length (json_pretty r) = n
     \<and> (\<forall>q. fget q s' = (if q = rw_target op then Some (File (json_pretty r @ [nl]) default_mode) else fget q s))"
proof -
  have rd: "read_file s (rw_target op) = Inr c"
    using assms(2) by simp
  obtain r where r: "rewrite_output jsonc op c = Inr (json_pretty r @ [nl])" "n = length (json_pretty r)"
    "applyPatch parsed (rw_patch op) = Inr r"
    using rewrite_output_planned [OF assms(1) rd assms(3)] by blast
  obtain s' where "atomicWrite hex (rw_target op) (json_pretty r @ [nl]) s = (Inr (), s')"
    "\<forall>q. fget q s' = (if q = rw_target op then Some (File (json_pretty r @ [nl]) default_mode) else fget q s)"
    using atomicWrite_ok [of hex "rw_target op" s "json_pretty r @ [nl]"] assms(4) unfolding slot_ready_def by blast
  then show ?thesis
    using r rd assms(5) by (simp add: rewrite_function_def rewrite_apply_def bindI_def returnI_def)
qed

subsection \<open>The run\<close>

definition harden_items :: "harden_op \<Rightarrow> item list" where
  "harden_items op = [(hp_target op, FileUnlink, [])]"

definition harden_ready :: "harden_env \<Rightarrow> nat \<Rightarrow> string list \<Rightarrow> string \<Rightarrow> harden_op \<Rightarrow> fs \<Rightarrow> bool" where
  \<comment> \<open>operation k can run in the home H/nm: as for a clean, and the temporary name of the rewrite
      is unused and none of the snapshot's own paths\<close>
  "harden_ready h k H nm op s =
     (run_ready (he_exec h) k H nm (harden_items op) s
      \<and> fget (abs_path (op_dir H @ [xe_opid (he_exec h) k @ ''.json.tmp.'' @ xe_hex (he_exec h) k 5])) s = None
      \<and> (\<exists>P w. hp_target op = abs_path (P @ [w]) \<and> (\<forall>x \<in> set (P @ [w]). valid_seg x) \<and> P \<noteq> []
           \<and> fget (abs_path P) s = Some Dir
           \<and> fget (abs_path (P @ [w @ ''.tmp.'' @ xe_hex (he_exec h) k 3])) s = None
           \<and> spare_path H (xe_opid (he_exec h) k) (P @ [w @ ''.tmp.'' @ xe_hex (he_exec h) k 3])))"

definition harden_manifest :: "env \<Rightarrow> json \<Rightarrow> json \<Rightarrow> string \<Rightarrow> json" where
  "harden_manifest e m en hash =
     verified_manifest e (applied_manifest e m [rewritten_as en hash] False) [rewritten_as en hash] True"

lemma harden_manifest_facts:
  assumes "is_obj m"
  shows "manifest_status (harden_manifest e m en hash) = Some ''verified''"
  using applied_manifest_facts(3) [OF assms] by (simp add: harden_manifest_def verified_status)

lemma harden_slot:
  assumes ok: "harden_ready h k H nm op s" and j: "j \<in> {4, 5}" and i: "i = xe_opid (he_exec h) k"
    and same: "\<And>w. valid_seg w \<Longrightarrow> w \<noteq> i @ ''.json'' \<Longrightarrow>
       fget (abs_path (op_dir H @ [w])) t = fget (abs_path (op_dir H @ [w])) s"
    and dir: "fget (abs_path (op_dir H)) t = Some Dir"
    and man: "fget (manifest_path (abs_path H) i) t \<noteq> Some Dir"
  shows "slot_ready (xe_hex (he_exec h) k j) (manifest_path (abs_path H) i) t"
proof -
  let ?x = "he_exec h" and ?w = "i @ ''.json''"
  have run: "run_ready ?x k H nm (harden_items op) s"
    using ok by (simp add: harden_ready_def)
  then have env: "snapshot_env_ok (xe_hex ?x k) H i (length (harden_items op)) s"
    by (simp add: run_ready_def i)
  have tmp: "fget (abs_path (op_dir H @ [?w @ ''.tmp.'' @ xe_hex ?x k j])) s = None"
    using ok j run by (auto simp: harden_ready_def run_ready_def harden_items_def i)
  note ef = env_ok_facts [OF env]
  have mp: "manifest_path (abs_path H) i = abs_path (op_dir H @ [?w])"
    by (rule snapshot_paths(3) [OF ef(10,3,4)])
  show ?thesis
    unfolding mp
  proof (rule tmp_slot [OF ef(8) _ ef(4,5) _ dir])
    show "op_dir H \<noteq> []" by (simp add: op_dir_def)
    show "fget (abs_path (op_dir H @ [?w @ ''.tmp.'' @ xe_hex ?x k j])) t = None"
      using same [OF valid_tmp [OF ef(4,5)]] tmp by simp
    show "fget (abs_path (op_dir H @ [?w])) t \<noteq> Some Dir"
      using man unfolding mp .
  qed
qed

lemma harden_rewrite_slot:
  assumes ok: "harden_ready h k H nm op s" and fl: "fget (hp_target op) t = Some (File c md)"
    and spare: "\<And>Q. spare_path H (xe_opid (he_exec h) k) Q \<Longrightarrow> fget (abs_path Q) t = fget (abs_path Q) s"
    and dirs: "\<And>q. fget q s = Some Dir \<Longrightarrow> fget q t = Some Dir"
  shows "slot_ready (xe_hex (he_exec h) k 3) (hp_target op) t"
proof -
  let ?x = "he_exec h"
  obtain P w where tp: "hp_target op = abs_path (P @ [w])" and v: "\<forall>x \<in> set (P @ [w]). valid_seg x" and ne: "P \<noteq> []"
    and d: "fget (abs_path P) s = Some Dir"
    and tmp: "fget (abs_path (P @ [w @ ''.tmp.'' @ xe_hex ?x k 3])) s = None"
    and sp: "spare_path H (xe_opid ?x k) (P @ [w @ ''.tmp.'' @ xe_hex ?x k 3])"
    using ok unfolding harden_ready_def by blast
  have "snapshot_env_ok (xe_hex ?x k) H (xe_opid ?x k) (length (harden_items op)) s"
    using ok by (simp add: harden_ready_def run_ready_def)
  then have hx: "sep \<notin> set (xe_hex ?x k 3)"
    by (rule env_ok_facts(5))
  show ?thesis
    unfolding tp
  proof (rule tmp_slot [OF _ ne _ hx])
    show "fget (abs_path (P @ [w @ ''.tmp.'' @ xe_hex ?x k 3])) t = None"
      using spare [OF sp] tmp by simp
    show "fget (abs_path P) t = Some Dir" by (rule dirs [OF d])
    show "fget (abs_path (P @ [w])) t \<noteq> Some Dir" using fl by (simp add: tp)
  qed (use v in auto)
qed

lemma harden_apply_verify:
  assumes ok: "harden_ready h k H nm op s" and i: "i = xe_opid (he_exec h) k" and e: "e = henv h"
    and m0: "readManifest (abs_path H) i s1 = Inr m0" "json_plain m0" "manifest_status m0 = Some ''snapshot_taken''"
      "manifest_files m0 = [en]" "jget ''files'' m0 = Some (JArr [en])"
    and en: "entry_path en = Some (hp_target op)" "entry_clean e s1 en"
    and fn: "f (hp_target op) s1 = (Inr (), s2)"
    and g2: "\<And>q. fget q s2 = (if q = hp_target op then Some (File out default_mode) else fget q s1)"
    and apart: "\<not> subtree_of (abs_path (op_dir H)) (hp_target op)"
    and od: "fget (abs_path (op_dir H)) s1 = Some Dir"
    and ops: "\<And>w. valid_seg w \<Longrightarrow> w \<noteq> i @ ''.json'' \<Longrightarrow>
          fget (abs_path (op_dir H @ [w])) s1 = fget (abs_path (op_dir H @ [w])) s"
    and m: "m = harden_manifest e m0 en (e_sha e out)"
  shows "\<exists>s3 s4. applyOperation e (xe_hex (he_exec h) k 4) i (abs_path H) [f] s1
        = (Inr (applied_manifest e m0 [rewritten_as en (e_sha e out)] False), s3)
     \<and> verify_op e (xe_hex (he_exec h) k 5) i (abs_path H) s3 = (Inr m, s4)
     \<and> readManifest (abs_path H) i s4 = Inr m \<and> no_link s4 (manifest_path (abs_path H) i)
     \<and> (\<forall>q. q \<noteq> manifest_path (abs_path H) i \<longrightarrow> fget q s4 = fget q s2)"
proof -
  let ?x = "he_exec h" and ?mp = "manifest_path (abs_path H) i" and ?en = "rewritten_as en (e_sha e out)"
  let ?mA = "applied_manifest e m0 [?en] False"
  have "snapshot_env_ok (xe_hex ?x k) H i (length (harden_items op)) s"
    using ok by (simp add: harden_ready_def run_ready_def i)
  note ef = env_ok_facts [OF this]
  have mp: "?mp = abs_path (op_dir H @ [i @ ''.json''])"
    by (rule snapshot_paths(3) [OF ef(10,3,4)])
  have ntd: "hp_target op \<noteq> abs_path (op_dir H)" "hp_target op \<noteq> abs_path (op_dir H @ [w])" for w
    using apart by (auto simp: subtree_of_def starts_with_iff)
  have nt: "hp_target op \<noteq> ?mp" unfolding mp by (rule ntd(2))
  have od2: "fget (abs_path (op_dir H)) s2 = Some Dir" using od g2 ntd(1) by simp
  have ops2: "fget (abs_path (op_dir H @ [w])) s2 = fget (abs_path (op_dir H @ [w])) s"
    if "valid_seg w" "w \<noteq> i @ ''.json''" for w
    using g2 [of "abs_path (op_dir H @ [w])"] ntd(2) [of w] ops [OF that] by simp
  have nd2: "fget ?mp s2 \<noteq> Some Dir"
    using g2 [of ?mp] read_manifest_file(1) [OF m0(1)] nt by simp
  have sl2: "slot_ready (xe_hex ?x k 4) ?mp s2"
    by (rule harden_slot [OF ok _ i ops2 od2 nd2]) simp_all
  have tg2: "fget (hp_target op) s2 = Some (File out default_mode)" by (simp add: g2)
  have ap: "apply_entries e [f] (manifest_files m0) s1 = ([?en], False, s2)"
    using apply_entry_rewritten [of f "hp_target op" s1 s2, OF fn tg2 en(1), of e] by (simp add: m0(4))
  have ob: "is_obj m0" by (rule manifest_status_obj [OF m0(3)])
  obtain s3 where s3: "applyOperation e (xe_hex ?x k 4) i (abs_path H) [f] s1 = (Inr ?mA, s3)"
    "readManifest (abs_path H) i s3 = Inr ?mA" and g3: "\<And>q. q \<noteq> ?mp \<Longrightarrow> fget q s3 = fget q s2"
    using apply_done [OF m0(1,2) _ _ ap sl2] m0(3-5) en(2) by (auto simp: guard_manifest_None)
  note af = applied_manifest_facts(1,2) [OF ob]
  have pl: "json_plain ?mA"
  proof (rule applied_manifest_facts(4) [OF ob m0(2)])
    show "\<forall>en' \<in> set [?en]. json_plain en'"
      using rewritten_entry(3) [OF en(1)] manifest_files_plain [OF m0(2)] by (simp add: m0(4))
  qed
  have neq: "abs_path (op_dir H @ [w]) \<noteq> ?mp" if "valid_seg w" "w \<noteq> i @ ''.json''" for w
    using abs_path_inj [of "op_dir H @ [w]" "op_dir H @ [i @ ''.json'']"] that ef(4,8) unfolding mp by auto
  have od3: "fget (abs_path (op_dir H)) s3 = Some Dir"
    using g3 [of "abs_path (op_dir H)"] od2 by (auto simp: mp)
  have ops3: "fget (abs_path (op_dir H @ [w])) s3 = fget (abs_path (op_dir H @ [w])) s"
    if "valid_seg w" "w \<noteq> i @ ''.json''" for w
    using g3 [OF neq [OF that]] ops2 [OF that] by simp
  have sl3: "slot_ready (xe_hex ?x k 5) ?mp s3"
    by (rule harden_slot [OF ok _ i ops3 od3 read_manifest_file(1) [OF s3(2)]]) simp_all
  have "fget (hp_target op) s3 = Some (File out default_mode)" using g3 [OF nt] tg2 by simp
  from rewritten_holds [OF en(1) this, of e]
  have ve: "verify_entries e s3 (manifest_files ?mA) = Inr ([?en], True)"
    unfolding af(2) by (intro verify_entries_ok) simp
  have gd: "guard_manifest i ''applied'' ?mA = None"
    unfolding guard_manifest_None using af(1) ob by (simp add: applied_manifest_def)
  obtain s4 where s4: "verify_op e (xe_hex ?x k 5) i (abs_path H) s3 = (Inr m, s4)"
    "readManifest (abs_path H) i s4 = Inr m" and g4: "\<And>q. q \<noteq> ?mp \<Longrightarrow> fget q s4 = fget q s3"
    using verify_done [OF s3(2) pl gd ve sl3] unfolding m harden_manifest_def by blast
  show ?thesis using s3(1) s4 verify_op_plain [OF s4(1) sl3] g3 g4 by (intro exI [of _ s3] exI [of _ s4]) simp
qed

lemma harden_paths:
  assumes ok: "harden_ready h k H nm op s" and i: "i = xe_opid (he_exec h) k"
  shows "hp_target op \<noteq> manifest_path (abs_path H) i" "hp_target op \<noteq> abs_path (log_segs H nm)"
    "\<not> subtree_of (abs_path (op_dir H)) (hp_target op)"
    "copy_path (abs_path (files_dir H i)) 0 p \<notin> {hp_target op, manifest_path (abs_path H) i, abs_path (log_segs H nm)}"
    "manifest_path (abs_path H) i \<noteq> abs_path (log_segs H nm)"
    "spare_path H i (log_segs H nm)"
    "dirname (abs_path (H @ [nm])) = abs_path H" "applied_log (abs_path (H @ [nm])) = abs_path (log_segs H nm)"
    "fget (manifest_path (abs_path H) i) s \<noteq> Some Dir"
proof -
  let ?x = "he_exec h"
  have run: "run_ready ?x k H nm (harden_items op) s"
    using ok by (simp add: harden_ready_def)
  then have nm: "valid_seg nm" and env: "snapshot_env_ok (xe_hex ?x k) H i (length (harden_items op)) s"
    by (simp_all add: run_ready_def i)
  have sp: "hp_target op \<noteq> abs_path (log_segs H nm)" "\<not> subtree_of (abs_path (op_dir H)) (hp_target op)"
    "\<not> subtree_of (abs_path (snap_dir H i)) (hp_target op)"
    using run by (auto simp: run_ready_def i dooms_def harden_items_def)
  note ef = env_ok_facts [OF env]
  note la = log_apart [OF ef(2) nm ef(3)]
  have mp: "manifest_path (abs_path H) i = abs_path (op_dir H @ [i @ ''.json''])"
    by (rule snapshot_paths(3) [OF ef(10,3,4)])
  show "hp_target op \<noteq> manifest_path (abs_path H) i" "\<not> subtree_of (abs_path (op_dir H)) (hp_target op)"
    "hp_target op \<noteq> abs_path (log_segs H nm)"
    using sp unfolding mp by (auto simp: subtree_of_def starts_with_iff)
  show "manifest_path (abs_path H) i \<noteq> abs_path (log_segs H nm)"
    using abs_path_inj [of "op_dir H @ [i @ ''.json'']" "log_segs H nm"] la(1,5) ef(4,8) unfolding mp
    by (auto simp: log_segs_def)
  show "fget (manifest_path (abs_path H) i) s \<noteq> Some Dir"
    using env unfolding mp snapshot_env_ok_def by blast
  show "spare_path H i (log_segs H nm)"
    using la by (simp add: spare_path_def log_segs_def)
  show "dirname (abs_path (H @ [nm])) = abs_path H" "applied_log (abs_path (H @ [nm])) = abs_path (log_segs H nm)"
    by (rule home_paths [OF ef(2,1) nm])+
  have cq: "copy_path (abs_path (files_dir H i)) 0 p = abs_path (snap_dir H i) @ sep # ''files'' @ sep # snapshot_name 0 p"
    using copy_path_abs [OF ef(11), of 0 p] by (simp add: files_dir_def)
  have "copy_path (abs_path (files_dir H i)) 0 p \<noteq> manifest_path (abs_path H) i"
    using copy_path_neq [OF ef(11), of 0 "op_dir H @ [i @ ''.json'']" p] ef(4,8) unfolding mp by (auto simp: dir_lengths)
  moreover have "copy_path (abs_path (files_dir H i)) 0 p \<noteq> abs_path (log_segs H nm)"
    using la(4) unfolding cq by (metis starts_with_iff)
  moreover have "subtree_of (abs_path (snap_dir H i)) (copy_path (abs_path (files_dir H i)) 0 p)"
    unfolding cq by (simp add: subtree_of_def starts_with_iff)
  then have "copy_path (abs_path (files_dir H i)) 0 p \<noteq> hp_target op"
    using sp(3) by metis
  ultimately show "copy_path (abs_path (files_dir H i)) 0 p
      \<notin> {hp_target op, manifest_path (abs_path H) i, abs_path (log_segs H nm)}"
    by blast
qed

text \<open>C8: Running the operation that harden planned. In a home where the operation can run, run_harden
  succeeds and returns the manifest on disk, in status verified; the target holds exactly the
  bytes of the planned patch, as many as the plan announced and a line break; the snapshot holds
  the bytes it had before; and no other file of the disk than the target, the manifest and
  the log has changed.\<close>

theorem harden_run_exact:
  assumes "plan_finding h opts registry s f = Inr (Inr op)" and "harden_ready h k H nm op s"
    and "fget (hp_target op) s = Some (File c md)" and "json_parse c = Some parsed"
  shows "\<exists>m s' r. run_harden h k (abs_path (H @ [nm])) op s = (Inr m, s')
     \<and> manifest_status m = Some ''verified'' \<and> readManifest (abs_path H) (xe_opid (he_exec h) k) s' = Inr m
     \<and> applyPatch parsed (rw_patch (hp_rewrite op)) = Inr r \<and> length (json_pretty r) = hp_bytes op
     \<and> fget (hp_target op) s' = Some (File (json_pretty r @ [nl]) default_mode)
     \<and> fget (copy_path (abs_path (files_dir H (xe_opid (he_exec h) k))) 0 (hp_target op)) s' = Some (File c default_mode)
     \<and> (\<forall>q. fget q s \<noteq> None \<longrightarrow> q \<notin> {hp_target op, manifest_path (abs_path H) (xe_opid (he_exec h) k),
              abs_path (log_segs H nm)} \<longrightarrow> fget q s' = fget q s)"
proof -
  define i where "i = xe_opid (he_exec h) k"
  let ?x = "he_exec h" and ?e = "henv h" and ?mp = "manifest_path (abs_path H) i" and ?log = "abs_path (log_segs H nm)"
    and ?tp = "hp_target op" and ?dir = "abs_path (files_dir H i)" and ?home = "abs_path (H @ [nm])"
  let ?ens = "expected_entries ?e ?dir (map fst (harden_items op)) s"
  let ?en = "snapshot_entry ?e 0 ?tp (copy_path ?dir 0 ?tp) (File c md)"
  let ?mt = "taken_manifest ?e i (abs_path H) (harden_options op) ?ens"
  have pl: "rw_target (hp_rewrite op) = ?tp" "preApply (he_jsonc h) (hp_rewrite op) s = Inr (Planned (hp_bytes op))"
    using plan_finding_op [OF assms(1)] by (auto simp: planned_op_def)
  have run: "run_ready ?x k H nm (harden_items op) s" and lg: "no_link s ?log"
    using assms(2) by (auto simp: harden_ready_def run_ready_def)
  note hp = harden_paths [OF assms(2) i_def]
  have its: "map fst (harden_items op) = [?tp]" and tg: "so_targets (harden_options op) = map fst (harden_items op)"
    by (simp_all add: harden_items_def harden_options_def)
  have ens: "?ens = [?en]" unfolding its by (simp add: expected_entries_def assms(3))
  obtain s1 where t: "takeSnapshot ?e i (xe_hex ?x k) (abs_path H) (harden_options op) s = (Inr (i, ?mt), s1)"
    and r1: "readManifest (abs_path H) i s1 = Inr ?mt"
    and c1: "fget (copy_path ?dir 0 ?tp) s1 = Some (File c default_mode)"
    and old: "\<And>q. fget q s \<noteq> None \<Longrightarrow> q \<noteq> ?mp \<Longrightarrow> fget q s1 = fget q s"
    and od: "fget (abs_path (op_dir H)) s1 = Some Dir"
    and ops: "\<And>w. valid_seg w \<Longrightarrow> w \<noteq> i @ ''.json'' \<Longrightarrow>
          fget (abs_path (op_dir H @ [w])) s1 = fget (abs_path (op_dir H @ [w])) s"
    and spare: "\<And>Q. spare_path H i Q \<Longrightarrow> fget (abs_path Q) s1 = fget (abs_path Q) s"
    using run_snapshot [OF run refl i_def refl refl tg] unfolding its by (auto simp: assms(3) copied_def)
  have tp1: "fget ?tp s1 = Some (File c md)" using old [of ?tp] hp(1) assms(3) by simp
  have dirs: "fget q s1 = Some Dir" if "fget q s = Some Dir" for q
    using old [of q] that hp(9) by auto
  have sl: "slot_ready (xe_hex ?x k 3) (rw_target (hp_rewrite op)) s1"
    unfolding pl(1) by (rule harden_rewrite_slot [OF assms(2) tp1 spare [unfolded i_def] dirs])
  have pre: "preApply (he_jsonc h) (hp_rewrite op) s1 = Inr (Planned (hp_bytes op))"
    using pl tp1 assms(3) by (simp add: preApply_def)
  obtain r s2 where fn: "rewrite_function h (xe_hex ?x k 3) (hp_rewrite op) ?tp s1 = (Inr (), s2)"
    and r: "applyPatch parsed (rw_patch (hp_rewrite op)) = Inr r" "length (json_pretty r) = hp_bytes op"
    and g2: "\<And>q. fget q s2 = (if q = ?tp then Some (File (json_pretty r @ [nl]) default_mode) else fget q s1)"
    using rewrite_function_run [OF pre tp1 [folded pl(1)] assms(4) sl refl, of ?tp] unfolding pl(1) by blast
  note tf = taken_manifest_facts [OF refl, of ?e i "abs_path H" "harden_options op" ?e ?dir "map fst (harden_items op)" s]
  have ef: "entry_path ?en = Some ?tp" by (rule snapshot_entry_facts(1))
  have cl: "entry_clean ?e s1 ?en"
    using tp1 by (simp add: entry_clean_def entry_hash_def snapshot_entry_facts(1,3) hashFile_def copied_def)
  have fs: "manifest_files ?mt = [?en]" "jget ''files'' ?mt = Some (JArr [?en])"
    using tf(2) taken_manifest_files [of ?e i "abs_path H" "harden_options op" ?e ?dir "map fst (harden_items op)" s]
    by (simp_all only: ens)
  let ?m = "harden_manifest ?e ?mt ?en (e_sha ?e (json_pretty r @ [nl]))"
  obtain s3 s4 where
    a: "applyOperation ?e (xe_hex ?x k 4) i (abs_path H) [rewrite_function h (xe_hex ?x k 3) (hp_rewrite op)] s1
        = (Inr (applied_manifest ?e ?mt [rewritten_as ?en (e_sha ?e (json_pretty r @ [nl]))] False), s3)"
    and v: "verify_op ?e (xe_hex ?x k 5) i (abs_path H) s3 = (Inr ?m, s4)"
    and r4: "readManifest (abs_path H) i s4 = Inr ?m" and n4: "no_link s4 ?mp"
    and g4: "\<And>q. q \<noteq> ?mp \<Longrightarrow> fget q s4 = fget q s2"
    using harden_apply_verify [where f = "rewrite_function h (xe_hex ?x k 3) (hp_rewrite op)",
        OF assms(2) i_def refl r1 tf(3,1) fs ef cl fn g2 hp(3) od ops refl]
    by blast
  have ob: "is_obj ?mt" by (rule manifest_status_obj [OF tf(1)])
  let ?rec = "obj_of [(''opId'', jget ''id'' ?m), (''status'', jget ''status'' ?m), (''command'', Some (JStr ''harden'')),
                (''targets'', Some (JArr [JStr ?tp])), (''filesCount'', Some (JNum (int (length (hp_files op)))))]"
  define s5 where "s5 = snd (appendApplied ?e ?home ?rec s4)"
  have go: "run_harden h k ?home op s = (Inr ?m, s5)"
    using t a v not_partial unfolding run_harden_def Let_def hp(7) s5_def
    by (simp add: bindI_def i_def [symmetric] swallowI_def returnI_def del: abs_path_append)
  have "fget ?log s4 = fget ?log s"
    using g4 [OF hp(5) [symmetric]] g2 [of ?log] spare [OF hp(6)] hp(2) by simp
  then have "no_link s4 ?log" using lg by (simp add: no_link_def)
  then have g5: "fget q s5 = fget q s4 \<or> fget q s4 = None \<and> fget q s5 = Some Dir" if "q \<noteq> ?log" for q
    using appendApplied_only [of ?home s4 ?e ?rec] that unfolding hp(8) s5_def only_log_def by blast
  have r5: "readManifest (abs_path H) i s5 = Inr ?m"
    using g5 [OF hp(5)] n4 r4 read_manifest_file(2) [OF r4] read_manifest_frame [of "abs_path H" i s5 s4] by auto
  have keep: "fget q s5 = Some n" if "fget q s2 = Some n" "q \<noteq> ?mp" "q \<noteq> ?log" for q n
    using g5 [OF that(3)] g4 [OF that(2)] that(1) by auto
  have tp5: "fget ?tp s5 = Some (File (json_pretty r @ [nl]) default_mode)"
    by (rule keep) (use g2 hp(1,2) in auto)
  have c5: "fget (copy_path ?dir 0 ?tp) s5 = Some (File c default_mode)"
    by (rule keep) (use g2 c1 hp(4) [of ?tp] in auto)
  have rest: "fget q s5 = fget q s" if some: "fget q s \<noteq> None" and q: "q \<notin> {?tp, ?mp, ?log}" for q
  proof -
    obtain n where n: "fget q s = Some n" using some by blast
    have "fget q s2 = Some n" using g2 [of q] old [of q] some q n by auto
    from keep [OF this] q n show ?thesis by simp
  qed
  show ?thesis
    unfolding i_def [symmetric]
    by (intro exI conjI allI impI) (rule go harden_manifest_facts [OF ob] r5 r tp5 c5 rest; assumption)+
qed

subsection \<open>An example\<close>

definition rewrite_fs :: fs where
  "rewrite_fs = [(''/'', Dir), (''/h'', Dir), (''/h/.claude'', Dir),
     (''/h/.claude/settings.json'', File (json_pretty live_settings @ [nl]) 420)]"

definition rewrite_finding :: finding where
  "rewrite_finding = (live_finding live_hook)\<lparr>f_targetPath := ''/h/.claude/settings.json''\<rparr>"

definition rewrite_planned :: harden_op where
  "rewrite_planned =
     \<lparr>hp_detector = ''hooks.config_dangling'', hp_target = ''/h/.claude/settings.json'',
      hp_rewrite = \<lparr>rw_target = ''/h/.claude/settings.json'', rw_patch = Some (set_patch [KStr ''hooks''] (JArr []))\<rparr>,
      hp_bytes = length (json_pretty (JObj [(''hooks'', JArr [])])), hp_files = [''/h/.claude/settings.json'']\<rparr>"

lemma rewrite_reads:
  "fget ''/h/.claude/settings.json'' rewrite_fs = Some (File (json_pretty live_settings @ [nl]) 420)"
  "read_file rewrite_fs ''/h/.claude/settings.json'' = Inr (json_pretty live_settings @ [nl])"
  "read_json rewrite_fs ''/h/.claude/settings.json'' = Inr live_settings"
proof -
  show g: "fget ''/h/.claude/settings.json'' rewrite_fs = Some (File (json_pretty live_settings @ [nl]) 420)"
    by (simp add: rewrite_fs_def fget_def)
  then show "read_file rewrite_fs ''/h/.claude/settings.json'' = Inr (json_pretty live_settings @ [nl])"
    by simp
  then show "read_json rewrite_fs ''/h/.claude/settings.json'' = Inr live_settings"
    using json_parse_pretty_nl [OF live_settings_plain] by (simp add: read_json_def)
qed

lemma rewrite_is_planned:
  "plan_finding live_harden live_target HARDENABLE_DETECTORS_V03 rewrite_fs rewrite_finding = Inr (Inr rewrite_planned)"
proof -
  let ?j = "JObj [(''hooks'', JArr [])]" and ?p = "set_patch [KStr ''hooks''] (JArr [])"
  have f: "f_targetPath rewrite_finding = ''/h/.claude/settings.json''" "f_id rewrite_finding = ''hooks.config_dangling''"
    using live_hook_finding by (simp_all add: rewrite_finding_def)
  have x: "\<not> existsSync rewrite_fs ''/x''" "\<not> existsSync rewrite_fs ''/h/.claude/.housekeeper-network-fs''"
    by code_simp+
  have b: "buildHooksConfigDanglingPatch rewrite_fs ''/h/.claude/settings.json'' = ?p"
    using x by (simp add: buildHooksConfigDanglingPatch_def parseSettingsSync_def rewrite_reads truthy_member_def live_settings_def
        cwd_missing_def)
  have g: "generatePatchForFinding rewrite_fs rewrite_finding HARDENABLE_DETECTORS_V03 = ?p"
    by (simp add: generatePatchForFinding_def f HARDENABLE_DETECTORS_V03_def b)
  have a: "applyPatch live_settings (Some ?p) = Inr ?j" "applyPatch ?j (Some ?p) = Inr ?j"
    by (simp_all add: applyPatch_def set_patch_def live_settings_def)
  have "json_plain ?j" by simp
  from json_parse_pretty [OF this] have "preApply_json live_settings (Some ?p) = Planned (length (json_pretty ?j))"
    using a by (simp add: preApply_json_def)
  then have "preApply (he_jsonc live_harden) \<lparr>rw_target = ''/h/.claude/settings.json'', rw_patch = Some ?p\<rparr> rewrite_fs
      = Inr (Planned (length (json_pretty ?j)))"
    using json_parse_pretty_nl [OF live_settings_plain] by (simp add: preApply_def rewrite_reads)
  moreover have "path_join [dirname ''/h/.claude/settings.json'', ''.housekeeper-network-fs'']
      = ''/h/.claude/.housekeeper-network-fs''" by code_simp
  ultimately show ?thesis
    by (simp add: plan_finding_def plan_patch_def f looksLikeNetworkFs_def x g live_target_def rewrite_planned_def Let_def)
qed

lemma rewrite_key:
  "fget p rewrite_fs \<noteq> None \<longleftrightarrow> p \<in> {''/'', ''/h'', ''/h/.claude'', ''/h/.claude/settings.json''}"
  unfolding fget_key by (simp add: rewrite_fs_def)

lemma rewrite_paths:
  "abs_path (snap_dir [''h''] ''op'') = ''/h/.claude/housekeeper/snapshots/op''"
  "abs_path (op_dir [''h'']) = ''/h/.claude/housekeeper/operations''"
  "abs_path (log_segs [''h''] ''.claude'') = ''/h/.claude/.claude/housekeeper/learning/applied.jsonl''"
  by code_simp+

lemma rewrite_run_ready: "run_ready demo_exec 0 [''h''] ''.claude'' (harden_items rewrite_planned) rewrite_fs"
proof -
  let ?its = "[(''/h/.claude/settings.json'', FileUnlink, [])]"
  have its: "harden_items rewrite_planned = ?its" by (simp add: harden_items_def rewrite_planned_def)
  have x: "xe_opid demo_exec 0 = ''op''" "xe_hex demo_exec 0 = (\<lambda>_. ''ab'')" by (simp_all add: demo_exec_def)
  have "\<forall>q. starts_with (abs_path (snap_dir [''h''] ''op'')) q \<longrightarrow> fget q rewrite_fs = None"
  proof (intro allI impI)
    fix q
    assume "starts_with (abs_path (snap_dir [''h''] ''op'')) q"
    then have "q \<notin> {''/'', ''/h'', ''/h/.claude'', ''/h/.claude/settings.json''}"
      unfolding rewrite_paths by (auto simp: starts_with_iff)
    then show "fget q rewrite_fs = None" using rewrite_key by blast
  qed
  moreover have "dir_creatable rewrite_fs (abs_path (snap_dir [''h''] ''op'' @ [''files'']))"
    "dir_creatable rewrite_fs (abs_path (op_dir [''h'']))"
    "fget (abs_path (op_dir [''h''] @ [''op'' @ ''.json''])) rewrite_fs = None"
    "fget (tmp_path ''ab'' (abs_path (op_dir [''h''] @ [''op'' @ ''.json'']))) rewrite_fs = None" by code_simp+
  ultimately have env: "snapshot_env_ok (\<lambda>_. ''ab'') [''h''] ''op'' 1 rewrite_fs"
    by (simp add: snapshot_env_ok_def valid_seg_def sep_def dot_def dotdot_def MAX_OPERATION_FILES_def)
  have sub: "\<forall>q. dooms ?its q \<longrightarrow> q \<noteq> abs_path (log_segs [''h''] ''.claude'')
      \<and> \<not> subtree_of (abs_path (op_dir [''h''])) q \<and> \<not> subtree_of (abs_path (snap_dir [''h''] ''op'')) q"
    unfolding rewrite_paths by (simp add: dooms_def subtree_of_def starts_with_iff sep_def)
  have sep: "separated rewrite_fs ?its"
    by (simp add: separated_def is_copyable_def rewrite_reads)
  have budget: "\<exists>b. sum_sizes rewrite_fs [''/h/.claude/settings.json''] = Inr b \<and> b \<le> MAX_OPERATION_BYTES"
  proof -
    have "sum_sizes rewrite_fs [''/h/.claude/settings.json''] = Inr 51" by code_simp
    then show ?thesis by (simp add: MAX_OPERATION_BYTES_def)
  qed
  have rules: "blocked_targets (abs_path [''h'']) (cfg_rules (loadConfig rewrite_fs (abs_path [''h'']) None))
      [''/h/.claude/settings.json''] = []"
    by code_simp
  have links: "no_link rewrite_fs (abs_path (op_dir [''h'']))" "no_link rewrite_fs (abs_path (log_segs [''h''] ''.claude''))"
    unfolding rewrite_paths by (simp_all add: no_link_def rewrite_fs_def fget_def)
  have tmps: "fget (abs_path (op_dir [''h''] @ [''op.json.tmp.ab''])) rewrite_fs = None" by code_simp
  show ?thesis
    unfolding run_ready_def its x using env sub sep budget rules links tmps
    by (simp add: valid_seg_def sep_def dot_def dotdot_def del: abs_path_append)
qed

lemma rewrite_ready: "harden_ready live_harden 0 [''h''] ''.claude'' rewrite_planned rewrite_fs"
proof -
  have x: "he_exec live_harden = demo_exec" "xe_opid demo_exec 0 = ''op''" "xe_hex demo_exec 0 = (\<lambda>_. ''ab'')"
    by (simp_all add: live_harden_def demo_exec_def)
  let ?P = "[''h'', ''.claude'']" and ?T = "[''h'', ''.claude''] @ [''settings.json'' @ ''.tmp.'' @ ''ab'']"
  have "fget (abs_path (op_dir [''h''] @ [''op'' @ ''.json.tmp.'' @ ''ab''])) rewrite_fs = None"
    "fget (abs_path ?T) rewrite_fs = None" "fget (abs_path ?P) rewrite_fs = Some Dir"
    "hp_target rewrite_planned = abs_path (?P @ [''settings.json''])"
    by code_simp+
  moreover have "spare_path [''h''] ''op'' ?T"
  proof -
    have "abs_path ?T = ''/h/.claude/settings.json.tmp.ab''" by code_simp
    then have "\<not> starts_with (abs_path (snap_dir [''h''] ''op'')) (abs_path ?T)"
      unfolding rewrite_paths by simp
    then show ?thesis
      by (simp add: spare_path_def files_dir_def snap_dir_def op_dir_def valid_seg_def sep_def dot_def dotdot_def
          del: abs_path_append)
  qed
  moreover have "\<forall>y \<in> set (?P @ [''settings.json'']). valid_seg y"
    by (simp add: valid_seg_def sep_def dot_def dotdot_def)
  ultimately show ?thesis
    using rewrite_run_ready unfolding harden_ready_def x by blast
qed

theorem harden_run_exact_witness:
  "\<exists>m s'. run_harden live_harden 0 (abs_path ([''h''] @ [''.claude''])) rewrite_planned rewrite_fs = (Inr m, s')
     \<and> manifest_status m = Some ''verified''
     \<and> fget ''/h/.claude/settings.json'' s' = Some (File (json_pretty (JObj [(''hooks'', JArr [])]) @ [nl]) default_mode)"
proof -
  have t: "hp_target rewrite_planned = ''/h/.claude/settings.json''"
    "applyPatch live_settings (rw_patch (hp_rewrite rewrite_planned)) = Inr (JObj [(''hooks'', JArr [])])"
    by (simp_all add: rewrite_planned_def applyPatch_def set_patch_def live_settings_def)
  have g: "fget (hp_target rewrite_planned) rewrite_fs = Some (File (json_pretty live_settings @ [nl]) 420)"
    by (simp add: t(1) rewrite_reads(1))
  from harden_run_exact [OF rewrite_is_planned rewrite_ready g json_parse_pretty_nl [OF live_settings_plain]]
  show ?thesis unfolding t by auto
qed

end
