(* ===== verification/Regex.thy ===== *)
theory Regex
  imports Prelude
begin

text \<open>
  The part of JavaScript's RegExp the program uses: greedy repetitions of a character class,
  word boundaries, sequence and alternation, with the backtracking order of the language.
  A match is listed with all the ways it can end, in the order the engine tries them, so the
  head of the list is the match the engine reports. A pattern is a list of parts, so that a
  replacement function can read what each part matched. Strings are byte strings, so a white
  space character outside ASCII counts as an ordinary one.
\<close>

datatype re =
    Cls "char \<Rightarrow> bool" nat "nat option"
  | Bound
  | Seq re re
  | Alt re re

definition is_word :: "char \<Rightarrow> bool" where
  "is_word c = (is_alnum c \<or> c = CHR ''_'')"

definition at_boundary :: "char option \<Rightarrow> string \<Rightarrow> bool" where
  "at_boundary p s =
     ((case p of None \<Rightarrow> False | Some c \<Rightarrow> is_word c) \<noteq>
      (case s of [] \<Rightarrow> False | c # _ \<Rightarrow> is_word c))"

definition last_of :: "char option \<Rightarrow> string \<Rightarrow> char option" where
  "last_of p a = (if a = [] then p else Some (last a))"

definition cls_ends :: "(char \<Rightarrow> bool) \<Rightarrow> nat \<Rightarrow> nat option \<Rightarrow> string \<Rightarrow> (string \<times> string) list" where
  "cls_ends P lo hi s =
     (let n = length (takeWhile P s);
          m = (case hi of None \<Rightarrow> n | Some h \<Rightarrow> min h n)
      in map (\<lambda>k. (take k s, drop k s)) (rev [lo ..< Suc m]))"

fun ends :: "re \<Rightarrow> char option \<Rightarrow> string \<Rightarrow> (string \<times> string) list" where
  "ends (Cls P lo hi) p s = cls_ends P lo hi s"
| "ends Bound p s = (if at_boundary p s then [([], s)] else [])"
| "ends (Seq r q) p s =
     concat (map (\<lambda>(a, t). map (\<lambda>(b, u). (a @ b, u)) (ends q (last_of p a) t)) (ends r p s))"
| "ends (Alt r q) p s = ends r p s @ ends q p s"

fun match_parts :: "re list \<Rightarrow> char option \<Rightarrow> string \<Rightarrow> (string list \<times> string) list" where
  "match_parts [] p s = [([], s)]"
| "match_parts (r # rs) p s =
     concat (map (\<lambda>(a, t). map (\<lambda>(ps, u). (a # ps, u)) (match_parts rs (last_of p a) t))
       (ends r p s))"

definition exec_at :: "re list \<Rightarrow> char option \<Rightarrow> string \<Rightarrow> (string list \<times> string) option" where
  "exec_at rs p s = (case match_parts rs p s of [] \<Rightarrow> None | m # _ \<Rightarrow> Some m)"

fun test_from :: "re list \<Rightarrow> char option \<Rightarrow> string \<Rightarrow> bool" where
  "test_from rs p [] = (exec_at rs p [] \<noteq> None)"
| "test_from rs p (c # cs) = (exec_at rs p (c # cs) \<noteq> None \<or> test_from rs (Some c) cs)"

definition re_test :: "re list \<Rightarrow> string \<Rightarrow> bool" where
  \<comment> \<open>RegExp.prototype.test without a sticky or global position\<close>
  "re_test rs s = test_from rs None s"

function replace_from :: "re list \<Rightarrow> (string list \<Rightarrow> string) \<Rightarrow> char option \<Rightarrow> string \<Rightarrow> string" where
  "replace_from rs f p s =
     (case exec_at rs p s of
        Some (ps, t) \<Rightarrow>
          if length t < length s then f ps @ replace_from rs f (last_of p (concat ps)) t
          else f ps @ (case s of [] \<Rightarrow> [] | c # cs \<Rightarrow> c # replace_from rs f (Some c) cs)
      | None \<Rightarrow> (case s of [] \<Rightarrow> [] | c # cs \<Rightarrow> c # replace_from rs f (Some c) cs))"
  by pat_completeness auto
termination
  by (relation "measure (\<lambda>(rs, f, p, s). length s)") auto

declare replace_from.simps [simp del]

definition replace_all :: "re list \<Rightarrow> (string list \<Rightarrow> string) \<Rightarrow> string \<Rightarrow> string" where
  \<comment> \<open>String.prototype.replace with a global pattern and a replacement function\<close>
  "replace_all rs f s = replace_from rs f None s"

subsection \<open>Spelling patterns\<close>

definition this_char :: "char \<Rightarrow> char \<Rightarrow> bool" where
  "this_char c x = (x = c)"

definition this_char_i :: "char \<Rightarrow> char \<Rightarrow> bool" where
  "this_char_i c x = (lower_char x = c)"

definition no_char :: "char \<Rightarrow> bool" where
  "no_char x = False"

fun lit :: "string \<Rightarrow> re" where
  "lit [] = Cls no_char 0 (Some 0)"
| "lit [c] = Cls (this_char c) 1 (Some 1)"
| "lit (c # d # cs) = Seq (Cls (this_char c) 1 (Some 1)) (lit (d # cs))"

fun lit_i :: "string \<Rightarrow> re" where
  \<comment> \<open>the literal, given in lower case, under the flag i\<close>
  "lit_i [] = Cls no_char 0 (Some 0)"
| "lit_i [c] = Cls (this_char_i c) 1 (Some 1)"
| "lit_i (c # d # cs) = Seq (Cls (this_char_i c) 1 (Some 1)) (lit_i (d # cs))"

subsection \<open>The character classes on the bits of a character\<close>

definition letter_bits :: "bool \<Rightarrow> bool \<Rightarrow> bool \<Rightarrow> bool \<Rightarrow> bool \<Rightarrow> bool" where
  \<comment> \<open>the low five bits, as a number, are between 1 and 26\<close>
  "letter_bits b0 b1 b2 b3 b4 =
     ((b0 \<or> b1 \<or> b2 \<or> b3 \<or> b4) \<and> \<not> (b4 \<and> b3 \<and> (b2 \<or> (b1 \<and> b0))))"

lemma is_digit_bits [code]:
  "is_digit (Char b0 b1 b2 b3 b4 b5 b6 b7) =
     (\<not> b7 \<and> \<not> b6 \<and> b5 \<and> b4 \<and> (b3 \<longrightarrow> \<not> b2 \<and> \<not> b1))"
  by (cases b0; cases b1; cases b2; cases b3; cases b4; cases b5; cases b6; cases b7)
    (simp_all add: is_digit_def of_char_def horner_sum_simps)

lemma is_upper_bits [code]:
  "is_upper (Char b0 b1 b2 b3 b4 b5 b6 b7) = (\<not> b7 \<and> b6 \<and> \<not> b5 \<and> letter_bits b0 b1 b2 b3 b4)"
  by (cases b0; cases b1; cases b2; cases b3; cases b4; cases b5; cases b6; cases b7)
    (simp_all add: is_upper_def letter_bits_def of_char_def horner_sum_simps)

lemma is_lower_bits [code]:
  "is_lower (Char b0 b1 b2 b3 b4 b5 b6 b7) = (\<not> b7 \<and> b6 \<and> b5 \<and> letter_bits b0 b1 b2 b3 b4)"
  by (cases b0; cases b1; cases b2; cases b3; cases b4; cases b5; cases b6; cases b7)
    (simp_all add: is_lower_def letter_bits_def of_char_def horner_sum_simps)

subsection \<open>A match splits the text\<close>

lemma cls_ends_split:
  assumes "(a, t) \<in> set (cls_ends P lo hi s)"
  shows "a @ t = s" and "lo \<le> length a" and "\<forall>c \<in> set a. P c"
proof -
  define n where "n = length (takeWhile P s)"
  define m where "m = (case hi of None \<Rightarrow> n | Some h \<Rightarrow> min h n)"
  have "m \<le> n"
    by (simp add: m_def split: option.split)
  moreover have "(a, t) \<in> (\<lambda>k. (take k s, drop k s)) ` {lo ..< Suc m}"
    using assms unfolding cls_ends_def Let_def n_def [symmetric] m_def [symmetric] set_map set_rev set_upt .
  ultimately obtain k where k: "lo \<le> k" "k \<le> length (takeWhile P s)" "a = take k s" "t = drop k s"
    by (auto simp: n_def)
  then show "a @ t = s" and "lo \<le> length a"
    using length_takeWhile_le [of P s] by auto
  have "a = take k (takeWhile P s)"
    using k by (metis min.absorb1 take_take takeWhile_eq_take)
  then show "\<forall>c \<in> set a. P c"
    by (auto dest: in_set_takeD set_takeWhileD)
qed

lemma ends_split: "(a, t) \<in> set (ends r p s) \<Longrightarrow> a @ t = s"
proof (induction r arbitrary: p s a t)
  case (Seq r q)
  then obtain b c u where "a = b @ c" "(b, u) \<in> set (ends r p s)"
    "(c, t) \<in> set (ends q (last_of p b) u)" by auto
  then show ?case using Seq.IH by (metis append_assoc)
qed (auto dest: cls_ends_split split: if_splits)

lemma match_parts_split: "(ps, t) \<in> set (match_parts rs p s) \<Longrightarrow> concat ps @ t = s"
proof (induction rs arbitrary: p s ps t)
  case (Cons r rs)
  then obtain a qs u where "ps = a # qs" "(a, u) \<in> set (ends r p s)"
    "(qs, t) \<in> set (match_parts rs (last_of p a) u)" by auto
  then show ?case using Cons.IH ends_split by fastforce
qed auto

lemma exec_at_mem: "exec_at rs p s = Some (ps, t) \<Longrightarrow> (ps, t) \<in> set (match_parts rs p s)"
  by (auto simp: exec_at_def split: list.splits)

lemma exec_at_split: "exec_at rs p s = Some (ps, t) \<Longrightarrow> concat ps @ t = s"
  by (rule match_parts_split [OF exec_at_mem])

lemma exec_at_some: "m \<in> set (match_parts rs p s) \<Longrightarrow> exec_at rs p s \<noteq> None"
  by (auto simp: exec_at_def split: list.splits)

lemma exec_at_length: "exec_at rs p s = Some (ps, t) \<Longrightarrow> length s = length (concat ps) + length t"
  using exec_at_split by fastforce

end
