(* ===== verification/Redact.thy ===== *)
theory Redact
  imports Regex Json Paths
begin

text \<open>
  The redaction module (scripts/lib/redact.mjs): the patterns as values of the regular
  expression type, redactString with its seven stages in the order of the code, and the walk
  over a report that applies it to the values and never to the field names. A report is the
  plain object the renderer receives, so it is a JSON value here; spread is the object literal
  that copies the members of a value.
\<close>

definition REDACTED :: string where
  "REDACTED = ''<redacted>''"

definition PROJECT :: string where
  "PROJECT = ''<project>''"

record redact_opts =
  ro_home :: "string option"
  ro_shareable :: bool
  ro_failClosed :: bool

subsection \<open>Patterns\<close>

definition tok_char :: "char \<Rightarrow> bool" where
  "tok_char c = (is_alnum c \<or> c = CHR ''_'' \<or> c = CHR ''-'')"

definition prefixed_token :: "string \<Rightarrow> re list" where
  "prefixed_token pre = [Seq (lit pre) (Cls tok_char 8 None)]"

definition TOKEN_SK :: "re list" where
  "TOKEN_SK = prefixed_token ''sk-''"

definition TOKEN_GHP :: "re list" where
  "TOKEN_GHP = prefixed_token ''ghp_''"

definition TOKEN_PAT :: "re list" where
  "TOKEN_PAT = prefixed_token ''github_pat_''"

definition akia_char :: "char \<Rightarrow> bool" where
  "akia_char c = (is_digit c \<or> is_upper c)"

definition TOKEN_AKIA :: "re list" where
  "TOKEN_AKIA =
     [Seq Bound (Seq (lit ''AKIA'')
       (Seq (Cls akia_char 16 (Some 16)) Bound))]"

definition bearer_char :: "char \<Rightarrow> bool" where
  "bearer_char c = (is_alnum c \<or> c \<in> {CHR ''_'', CHR ''.'', CHR ''-'', CHR ''+'', CHR ''/'', CHR ''=''})"

definition TOKEN_BEARER :: "re list" where
  "TOKEN_BEARER =
     [Seq Bound (Seq (lit ''Bearer'') (Seq (Cls is_space 1 None) (Cls bearer_char 1 None)))]"

definition STANDALONE_TOKEN_PATTERNS :: "re list list" where
  "STANDALONE_TOKEN_PATTERNS = [TOKEN_SK, TOKEN_GHP, TOKEN_PAT, TOKEN_AKIA, TOKEN_BEARER]"

definition env_char :: "char \<Rightarrow> bool" where
  "env_char c = (is_upper c \<or> is_digit c \<or> c = CHR ''_'')"

definition ENV_TOKEN :: "re list" where
  \<comment> \<open>the key, the equals sign, the value with the boundary after it\<close>
  "ENV_TOKEN =
     [Seq Bound (Seq (Cls is_upper 1 (Some 1)) (Cls env_char 0 None)),
      lit ''='',
      Seq (Cls tok_char 16 None) Bound]"

definition non_space :: "char \<Rightarrow> bool" where
  "non_space c = (\<not> is_space c)"

definition dash_char :: "char \<Rightarrow> bool" where
  "dash_char c = (c = CHR ''-'' \<or> c = CHR ''_'')"

definition FLAG_VALUE :: "re list" where
  "FLAG_VALUE =
     [Seq (lit ''--'')
        (Seq (Alt (lit_i ''token'') (Alt (lit_i ''password'') (Alt (lit_i ''secret'')
               (Alt (Seq (lit_i ''api'') (Seq (Cls dash_char 0 (Some 1)) (lit_i ''key'')))
                 (lit_i ''auth'')))))
          (Alt (lit ''='') (Cls is_space 1 None))),
      Cls non_space 1 None]"

definition alpha_char :: "char \<Rightarrow> bool" where
  "alpha_char c = is_lower (lower_char c)"

lemma alpha_char_either [code]: "alpha_char c = (is_upper c \<or> is_lower c)"
  by (auto simp: alpha_char_def lower_char_def is_upper_def is_lower_def Let_def)

definition scheme_char :: "char \<Rightarrow> bool" where
  "scheme_char c = (is_alnum c \<or> c = CHR ''+'' \<or> c = CHR ''.'' \<or> c = CHR ''-'')"

definition user_char :: "char \<Rightarrow> bool" where
  "user_char c = (\<not> is_space c \<and> c \<noteq> CHR '':'' \<and> c \<noteq> CHR ''@'' \<and> c \<noteq> CHR ''/'')"

definition pass_char :: "char \<Rightarrow> bool" where
  "pass_char c = (\<not> is_space c \<and> c \<noteq> CHR ''@'')"

definition URI_CRED :: "re list" where
  "URI_CRED =
     [Seq Bound (Seq (Cls alpha_char 1 (Some 1))
        (Seq (Cls scheme_char 0 None)
          (Seq (lit ''://'') (Cls user_char 1 None)))),
      lit '':'',
      Cls pass_char 1 None,
      lit ''@'']"

definition hex_lower :: "char \<Rightarrow> bool" where
  "hex_lower c = (is_digit c \<or> (let n = of_char c :: nat in 97 \<le> n \<and> n \<le> 102))"

definition SHA256_HEX :: "re list" where
  "SHA256_HEX = [Seq Bound (Seq (Cls hex_lower 64 (Some 64)) Bound)]"

definition residual_char :: "char \<Rightarrow> bool" where
  "residual_char c = (is_alnum c \<or> c = CHR ''_'' \<or> c = CHR ''+'')"

definition RESIDUAL_TOKEN :: "re list" where
  "RESIDUAL_TOKEN = [Cls residual_char 24 None]"

definition path_seg_char :: "char \<Rightarrow> bool" where
  "path_seg_char c =
     (\<not> is_space c \<and> c \<noteq> CHR ''/'' \<and> c \<noteq> CHR 0x27 \<and> c \<noteq> quote \<and> c \<noteq> CHR 0x60)"

definition project_path :: "string \<Rightarrow> re list" where
  "project_path root =
     [Seq (lit (root @ ''/'')) (Seq (Cls path_seg_char 1 None) (Seq (lit ''/'')
        (Seq (Cls path_seg_char 1 None) (Seq (lit ''/'') (Seq (Cls path_seg_char 1 None)
          (Seq (lit ''/.claude'') Bound))))))]"

definition PROJECT_PATH_RES :: "re list list" where
  "PROJECT_PATH_RES = [project_path ''/Users'', project_path ''/home'']"

subsection \<open>redactString\<close>

definition collapseHomePrefix :: "string \<Rightarrow> string option \<Rightarrow> string" where
  "collapseHomePrefix input home =
     (if input = [] then input
      else case home of
        None \<Rightarrow> input
      | Some hm \<Rightarrow>
          if hm = [] then input
          else let h = (if ends_with ''/'' hm then js_slice 0 (- 1) hm else hm) in
            if h = [] then input
            else if starts_with h input then CHR ''~'' # drop (length h) input
            else (case index_of h input of
                None \<Rightarrow> input
              | Some i \<Rightarrow> take i input @ ''~'' @ drop (i + length h) input))"

definition collapseProjectPaths :: "string \<Rightarrow> string" where
  "collapseProjectPaths input =
     fold (\<lambda>re. replace_all re (\<lambda>ps. PROJECT @ ''/.claude'')) PROJECT_PATH_RES input"

definition bearer_head :: "string \<Rightarrow> bool" where
  "bearer_head m = (to_lower (take 6 m) = ''bearer'' \<and> 6 < length m \<and> is_space (m ! 6))"

definition token_repl :: "string list \<Rightarrow> string" where
  "token_repl ps = (if bearer_head (concat ps) then ''Bearer '' @ REDACTED else REDACTED)"

definition first_part :: "string \<Rightarrow> string list \<Rightarrow> string" where
  \<comment> \<open>the first capture group, then a fixed tail\<close>
  "first_part tail ps = concat (take 1 ps) @ tail"

definition sha_repl :: "string list \<Rightarrow> string" where
  "sha_repl ps = take 8 (concat ps) @ ''...''"

definition hasResidualTokenShape :: "string \<Rightarrow> string \<Rightarrow> bool" where
  "hasResidualTokenShape redacted original =
     (if \<not> re_test RESIDUAL_TOKEN original then False
      else if contains REDACTED redacted then False
      else re_test RESIDUAL_TOKEN redacted)"

definition redact_paths :: "redact_opts \<Rightarrow> string \<Rightarrow> string" where
  "redact_paths opts s =
     (if ro_shareable opts then collapseProjectPaths (collapseHomePrefix s (ro_home opts)) else s)"

definition redact_tokens :: "string \<Rightarrow> string" where
  "redact_tokens s = fold (\<lambda>re. replace_all re token_repl) STANDALONE_TOKEN_PATTERNS s"

definition redact_stages :: "redact_opts \<Rightarrow> string \<Rightarrow> string" where
  "redact_stages opts input =
     (let s1 = redact_paths opts input;
          s2 = replace_all URI_CRED (first_part ('':'' @ REDACTED @ ''@'')) s1;
          s3 = replace_all FLAG_VALUE (first_part REDACTED) s2;
          s4 = redact_tokens s3;
          s5 = replace_all ENV_TOKEN (first_part (''='' @ REDACTED)) s4
      in if ro_shareable opts then replace_all SHA256_HEX sha_repl s5 else s5)"

definition redactString :: "redact_opts \<Rightarrow> string \<Rightarrow> string" where
  "redactString opts input =
     (let out = redact_stages opts input in
      if ro_failClosed opts \<and> hasResidualTokenShape out input then REDACTED else out)"

fun redact_value :: "redact_opts \<Rightarrow> json \<Rightarrow> json" where
  \<comment> \<open>redactString on a value that need not be a string\<close>
  "redact_value opts (JStr s) = JStr (redactString opts s)"
| "redact_value opts v = v"

subsection \<open>redactPlain, redactEvidence, redactFinding, redactReport\<close>

fun redactPlain :: "redact_opts \<Rightarrow> json \<Rightarrow> json" where
  "redactPlain ctx (JStr s) = JStr (redactString ctx s)"
| "redactPlain ctx (JArr xs) = JArr (map (redactPlain ctx) xs)"
| "redactPlain ctx (JObj kvs) = JObj (map (\<lambda>(k, v). (k, redactPlain ctx v)) kvs)"
| "redactPlain ctx v = v"

fun indexed :: "nat \<Rightarrow> json list \<Rightarrow> (string \<times> json) list" where
  "indexed i [] = []"
| "indexed i (x # xs) = (show_nat i, x) # indexed (Suc i) xs"

fun spread :: "json \<Rightarrow> json" where
  \<comment> \<open>the copy an object literal makes of the members of a value\<close>
  "spread (JObj kvs) = JObj kvs"
| "spread (JArr xs) = JObj (indexed 0 xs)"
| "spread (JStr s) = JObj (indexed 0 (map (\<lambda>c. JStr [c]) s))"
| "spread v = JObj []"

fun is_object :: "json \<Rightarrow> bool" where
  \<comment> \<open>value and typeof value is object\<close>
  "is_object (JObj kvs) = True"
| "is_object (JArr xs) = True"
| "is_object v = False"

definition member :: "string \<Rightarrow> json option \<Rightarrow> json option" where
  \<comment> \<open>v?.key\<close>
  "member k v = (case v of None \<Rightarrow> None | Some j \<Rightarrow> jget k j)"

definition set_if :: "string \<Rightarrow> json option \<Rightarrow> json \<Rightarrow> json" where
  "set_if k v out = (case v of None \<Rightarrow> out | Some x \<Rightarrow> jset k x out)"

definition EVIDENCE_KEYS :: "string list" where
  "EVIDENCE_KEYS = [''structural'', ''loader'', ''behavioral'', ''ownership'', ''freshness'',
     ''reversibility'', ''missing'']"

definition TEXT_FIELDS :: "string list" where
  "TEXT_FIELDS = [''summary'', ''nextAllowedStep'', ''targetPath'', ''why'', ''missingKey'', ''notAllowed'']"

definition redact_text :: "redact_opts \<Rightarrow> json \<Rightarrow> string \<Rightarrow> json \<Rightarrow> json" where
  "redact_text ctx src k out =
     set_if k (map_option (\<lambda>s. JStr (redactString ctx s)) (jstr (jget k src))) out"

definition redact_list :: "(json \<Rightarrow> json) \<Rightarrow> json \<Rightarrow> string \<Rightarrow> json \<Rightarrow> json" where
  "redact_list g src k out =
     set_if k (map_option (\<lambda>xs. JArr (map g xs)) (jarr (jget k src))) out"

definition redactEvidence :: "redact_opts \<Rightarrow> json \<Rightarrow> json" where
  "redactEvidence ctx evidence =
     fold (redact_list (redact_value ctx) evidence) EVIDENCE_KEYS (spread evidence)"

definition secret_class :: "json \<Rightarrow> bool" where
  "secret_class finding =
     (let sc = jstr (member ''sensitivityClass'' (jget ''surface'' finding))
      in sc = Some ''secret-adjacent'' \<or> sc = Some ''secret-content'')"

definition finding_ctx :: "string \<Rightarrow> bool \<Rightarrow> json \<Rightarrow> redact_opts" where
  "finding_ctx home globalRedact finding =
     (let on = (globalRedact \<or> secret_class finding)
      in \<lparr> ro_home = Some home, ro_shareable = on, ro_failClosed = on \<rparr>)"

definition set_truthy :: "(json \<Rightarrow> json) \<Rightarrow> json \<Rightarrow> string \<Rightarrow> json \<Rightarrow> json" where
  "set_truthy g src k out =
     (if truthy (jget k src) then set_if k (map_option g (jget k src)) out else out)"

definition redactFinding :: "string \<Rightarrow> bool \<Rightarrow> json \<Rightarrow> json" where
  "redactFinding home globalRedact finding =
     (if \<not> is_object finding then finding
      else let ctx = finding_ctx home globalRedact finding;
               o1 = fold (redact_text ctx finding) TEXT_FIELDS (spread finding);
               o2 = set_truthy spread finding ''surface'' o1;
               o3 = set_truthy (redactEvidence ctx) finding ''evidence'' o2;
               o4 = redact_list (redact_value ctx) finding ''blockedActions'' o3;
               o5 = redact_list (redactPlain ctx) finding ''policyMatches'' o4
           in set_truthy (redactPlain ctx) finding ''proposedProbe'' o5)"

definition redact_items :: "(json \<Rightarrow> json) \<Rightarrow> json option \<Rightarrow> json option" where
  "redact_items g v =
     (case v of Some (JArr xs) \<Rightarrow> Some (JArr (map g xs)) | _ \<Rightarrow> v)"

definition report_home :: "string option \<Rightarrow> json \<Rightarrow> string" where
  "report_home home report = opt_str_or home (opt_str_or (jstr (jget ''home'' report)) [])"

definition redactReport :: "string option \<Rightarrow> bool \<Rightarrow> json \<Rightarrow> json" where
  "redactReport home redact report =
     (if \<not> is_object report then report
      else let hm = report_home home report;
               ctx = \<lparr> ro_home = Some hm, ro_shareable = redact, ro_failClosed = redact \<rparr>;
               findings = redact_items (redactFinding hm redact) (jget ''findings'' report);
               boundaries = redact_items (redactPlain ctx) (jget ''boundaries'' report);
               degraded = redact_items (redactPlain ctx) (jget ''degraded'' report);
               homeOut = (if redact then Some (JStr ''~'') else jget ''home'' report)
           in set_if ''degraded'' degraded (set_if ''boundaries'' boundaries
                (set_if ''findings'' findings (set_if ''home'' homeOut (spread report)))))"

end
