(* ===== verification/Render.thy ===== *)
theory Render
  imports Redact Learning
begin

text \<open>
  The report renderer (scripts/lib/report.mjs): a report becomes text for the terminal, text of
  a plan, or the object that --json prints, always after the redaction layer. A report is the
  plain object the renderer receives, a JSON value as in the redaction module; its findings,
  boundaries and degraded entries are lists or absent, and a finding is an object.
\<close>

subsection \<open>Template literals and join\<close>

fun text_of :: "json \<Rightarrow> string" where
  \<comment> \<open>the string a template literal makes of a value; an array joins its elements\<close>
  "text_of JNull = ''null''"
| "text_of (JBool b) = (if b then ''true'' else ''false'')"
| "text_of (JNum i) = show_int i"
| "text_of (JDec d) = d"
| "text_of (JStr s) = s"
| "text_of (JArr xs) = join_with '','' (map (\<lambda>x. if x = JNull then [] else text_of x) xs)"
| "text_of (JObj kvs) = ''[object Object]''"

definition tmpl :: "json option \<Rightarrow> string" where
  "tmpl v = (case v of None \<Rightarrow> ''undefined'' | Some x \<Rightarrow> text_of x)"

definition tmpl_or :: "json option \<Rightarrow> string \<Rightarrow> string" where
  \<comment> \<open>the text of v || d\<close>
  "tmpl_or v d = (if truthy v then tmpl v else d)"

definition js_join :: "string \<Rightarrow> json list \<Rightarrow> string" where
  \<comment> \<open>Array.prototype.join: null shows as the empty string\<close>
  "js_join d xs = join_with d (map (\<lambda>x. if x = JNull then [] else text_of x) xs)"

definition list_or :: "json option \<Rightarrow> json list" where
  \<comment> \<open>v || []\<close>
  "list_or v = opt_or (jarr v) []"

fun is_number :: "json option \<Rightarrow> bool" where
  \<comment> \<open>typeof v is number\<close>
  "is_number (Some (JNum i)) = True"
| "is_number (Some (JDec d)) = True"
| "is_number _ = False"

definition has_stance :: "string \<Rightarrow> json \<Rightarrow> bool" where
  "has_stance st f = (jget ''stance'' f = Some (JStr st))"

subsection \<open>Vocabulary\<close>

definition STANCE_KEYS :: "string list" where
  "STANCE_KEYS = [''inform'', ''watch'', ''review'', ''probe'', ''protect'', ''prepare'', ''repair'', ''block'']"

definition STANCE_NEXT_STEP :: "(string \<times> string) list" where
  "STANCE_NEXT_STEP =
     [(''inform'', ''none''),
      (''watch'', ''no action now; revisit if it grows or starts affecting behavior''),
      (''review'', ''decide whether this is intentional before planning changes''),
      (''probe'', ''run a live probe after consent''),
      (''protect'', ''none; excluded from action by rule''),
      (''prepare'', ''generate a patch preview or operation plan''),
      (''repair'', ''snapshot, apply approved repair, verify''),
      (''block'', ''resolve missing key or boundary before action'')]"

definition next_step :: "json \<Rightarrow> string" where
  "next_step f =
     tmpl_or (jget ''nextAllowedStep'' f)
       (opt_str_or (map_of STANCE_NEXT_STEP (tmpl (jget ''stance'' f))) ''none'')"

definition title_of :: "json \<Rightarrow> string" where
  \<comment> \<open>finding.summary || finding.id\<close>
  "title_of f = tmpl_or (jget ''summary'' f) (tmpl (jget ''id'' f))"

subsection \<open>Helpers\<close>

definition applyRedactionLayer :: "string option \<Rightarrow> bool \<Rightarrow> json \<Rightarrow> json" where
  "applyRedactionLayer home redact report =
     redactReport (if opt_str_or home [] \<noteq> [] then home else jstr (jget ''home'' report)) redact report"

definition pickPrimary :: "json \<Rightarrow> json option" where
  "pickPrimary report =
     (case list_or (jget ''findings'' report) of
        [] \<Rightarrow> None
      | f # fs \<Rightarrow>
          if truthy (jget ''primary'' report)
          then Some (opt_or (find (\<lambda>g. jget ''id'' g = jget ''primary'' report) (f # fs)) f)
          else Some f)"

definition padStance :: "string \<Rightarrow> string" where
  "padStance key = take 8 (key @ ''       '')"

definition SHOWN_EVIDENCE :: "string list" where
  "SHOWN_EVIDENCE = [''structural'', ''loader'', ''behavioral'', ''ownership'', ''freshness'', ''reversibility'']"

definition formatEvidenceShort :: "json option \<Rightarrow> string" where
  "formatEvidenceShort evidence =
     (let parts = concat (map (\<lambda>k. list_or (member k evidence)) SHOWN_EVIDENCE)
      in if \<not> truthy evidence \<or> parts = [] then ''none'' else js_join ''; '' parts)"

definition missing_keys :: "json \<Rightarrow> json list" where
  \<comment> \<open>finding.evidence?.missing when it is an array\<close>
  "missing_keys f = list_or (member ''missing'' (jget ''evidence'' f))"

definition formatMissingKey :: "json \<Rightarrow> string" where
  "formatMissingKey f =
     (if missing_keys f \<noteq> [] then js_join ''; '' (missing_keys f)
      else tmpl_or (jget ''missingKey'' f) ''none'')"

definition boundary_type :: "string \<Rightarrow> json \<Rightarrow> bool" where
  "boundary_type t b = (jget ''type'' b = Some (JStr t))"

definition countBoundaries :: "json \<Rightarrow> nat \<times> nat \<times> nat" where
  \<comment> \<open>protected, sectorBoundary, secretAdjacent\<close>
  "countBoundaries report =
     (let bs = list_or (jget ''boundaries'' report)
      in (length (filter (\<lambda>b. \<not> boundary_type ''sector-boundary'' b \<and> \<not> boundary_type ''secret-adjacent'' b) bs),
          length (filter (boundary_type ''sector-boundary'') bs),
          length (filter (boundary_type ''secret-adjacent'') bs)))"

definition mode_of :: "json \<Rightarrow> string" where
  "mode_of report = tmpl_or (jget ''mode'' report) ''diagnose''"

definition formatSkipped :: "json \<Rightarrow> string" where
  "formatSkipped report =
     (let xs = (if jget ''mode'' report = Some (JStr ''safe'') then [''live Claude probes''] else []) @
               (if list_or (jget ''degraded'' report) \<noteq> [] then [''degraded subtree''] else [])
      in if xs = [] then ''none'' else join_with '', '' xs)"

subsection \<open>Sections: no lines when the section is absent\<close>

definition formatBlockedActionsSection :: "json option \<Rightarrow> string list" where
  "formatBlockedActionsSection primary =
     (let as = list_or (member ''blockedActions'' primary)
      in if as = [] then [] else ''BLOCKED ACTIONS'' # map (\<lambda>a. ''  '' @ text_of a) as)"

definition formatBlockSection :: "json \<Rightarrow> string list" where
  "formatBlockSection report =
     (case filter (has_stance ''block'') (list_or (jget ''findings'' report)) of
        [] \<Rightarrow> []
      | f # _ \<Rightarrow>
          [''BLOCKED'', ''  action: '' @ title_of f,
           ''  reason: '' @ tmpl_or (jget ''why'' f) ''policy or evidence boundary''] @
          (if truthy (jget ''missingKey'' f) \<or> formatMissingKey f \<noteq> ''none''
           then [''  missing key: '' @ formatMissingKey f] else []) @
          [''  allowed now: '' @ tmpl_or (jget ''nextAllowedStep'' f) ''report-only''] @
          (if list_or (jget ''blockedActions'' f) \<noteq> []
           then [''  not allowed: '' @ js_join '', '' (list_or (jget ''blockedActions'' f))] else []))"

definition protected_lines :: "json \<Rightarrow> string list" where
  "protected_lines f =
     [''  path: '' @ tmpl_or (jget ''targetPath'' f) ''(no path)'',
      ''  reason: '' @ tmpl_or (jget ''why'' f) ''do-not-touch rule''] @
     (if truthy (jget ''summary'' f) then [''  visible because: '' @ tmpl (jget ''summary'' f)] else []) @
     [''  action: none'']"

definition formatProtectedSection :: "json \<Rightarrow> string list" where
  "formatProtectedSection report =
     (let fs = filter (has_stance ''protect'') (list_or (jget ''findings'' report))
      in if fs = [] then [] else ''PROTECTED'' # concat (map protected_lines fs))"

definition formatMissingKeySection :: "json option \<Rightarrow> string list" where
  "formatMissingKeySection primary =
     (case primary of
        None \<Rightarrow> []
      | Some f \<Rightarrow>
          if \<not> has_stance ''probe'' f \<and> \<not> has_stance ''block'' f \<or> missing_keys f = [] then []
          else [''MISSING KEY'', ''  claim wanted: '' @ title_of f,
                ''  current evidence: '' @ formatEvidenceShort (jget ''evidence'' f),
                ''  missing evidence: '' @ js_join ''; '' (missing_keys f),
                ''  current stance: '' @ tmpl (jget ''stance'' f)])"

definition shown_member :: "string \<Rightarrow> json \<Rightarrow> string \<Rightarrow> string list" where
  \<comment> \<open>if (entry.key) lines.push(label and its text)\<close>
  "shown_member label entry k =
     (if truthy (jget k entry) then [''  '' @ label @ '': '' @ tmpl (jget k entry)] else [])"

definition degraded_lines :: "json \<Rightarrow> string list" where
  "degraded_lines entry =
     (case entry of
        JStr s \<Rightarrow> [''  '' @ s]
      | _ \<Rightarrow> shown_member ''budget hit'' entry ''budget'' @ shown_member ''skipped'' entry ''skipped'' @
             shown_member ''effect'' entry ''effect'' @ shown_member ''next step'' entry ''nextStep'')"

definition formatScanDegradedSection :: "json \<Rightarrow> string list" where
  "formatScanDegradedSection report =
     (let ds = list_or (jget ''degraded'' report)
      in if ds = [] then [] else ''SCAN DEGRADED'' # concat (map degraded_lines ds))"

definition spaced :: "string list \<Rightarrow> string list" where
  \<comment> \<open>a section that is present is preceded by an empty line\<close>
  "spaced ls = (if ls = [] then [] else [] # ls)"

subsection \<open>renderHumanReport\<close>

definition times_sign :: string where
  "times_sign = [CHR 0xC3, CHR 0x97]"

definition em_dash :: string where
  "em_dash = [CHR 0xE2, CHR 0x80, CHR 0x94]"

definition primary_lines :: "json option \<Rightarrow> string list" where
  "primary_lines primary =
     (case primary of
        None \<Rightarrow> [''  stance: inform'', ''  finding: no findings'', ''  evidence: none'',
                 ''  missing key: none'', ''  next step: none'']
      | Some f \<Rightarrow>
          [''  stance: '' @ tmpl (jget ''stance'' f), ''  finding: '' @ title_of f,
           ''  evidence: '' @ formatEvidenceShort (jget ''evidence'' f)] @
          (if is_number (jget ''falsePositiveSeenBefore'' f)
           then [''  false-positive signal: marked false-positive '' @
                 tmpl (jget ''falsePositiveSeenBefore'' f) @ times_sign @ '' before''] else []) @
          [''  missing key: '' @ formatMissingKey f, ''  next step: '' @ next_step f])"

definition stance_count :: "json option \<Rightarrow> string \<Rightarrow> json" where
  \<comment> \<open>summary?.[key] ?? 0\<close>
  "stance_count summary key =
     (case member key summary of None \<Rightarrow> JNum 0 | Some v \<Rightarrow> if v = JNull then JNum 0 else v)"

definition summary_lines :: "json \<Rightarrow> string list" where
  "summary_lines view =
     map (\<lambda>k. ''  '' @ padStance k @ '' '' @ text_of (stance_count (jget ''stanceSummary'' view) k)) STANCE_KEYS"

definition boundary_lines :: "nat \<times> nat \<times> nat \<Rightarrow> string list" where
  "boundary_lines c =
     (case c of (pr, sb, sa) \<Rightarrow>
        [''  protected: '' @ show_nat pr, ''  sector-boundary: '' @ show_nat sb,
         ''  secret-adjacent skipped: '' @ show_nat sa])"

definition human_lines :: "json \<Rightarrow> string list" where
  "human_lines view =
     (let primary = pickPrimary view in
      [''HOUSEKEEPER REPORT'', ''No files changed.'', [], ''PRIMARY''] @ primary_lines primary @
      [[], ''STANCE SUMMARY''] @ summary_lines view @
      [[], ''BOUNDARIES''] @ boundary_lines (countBoundaries view) @
      [[], ''SCAN'', ''  mode: '' @ mode_of view,
       ''  degraded: '' @ (if list_or (jget ''degraded'' view) \<noteq> [] then ''yes'' else ''no''),
       ''  skipped: '' @ formatSkipped view] @
      spaced (formatBlockedActionsSection primary) @ spaced (formatBlockSection view) @
      spaced (formatProtectedSection view) @ spaced (formatMissingKeySection primary) @
      spaced (formatScanDegradedSection view))"

definition renderHumanReport :: "string option \<Rightarrow> bool \<Rightarrow> json \<Rightarrow> string" where
  "renderHumanReport home redact report =
     join_with [nl] (human_lines (applyRedactionLayer home redact report))"

subsection \<open>renderPlanReport\<close>

definition plan_finding_lines :: "json \<Rightarrow> string list" where
  "plan_finding_lines f =
     [tmpl (jget ''id'' f) @ '' '' @ em_dash @ '' stance: '' @ tmpl (jget ''stance'' f)] @
     (if truthy (jget ''summary'' f) then [''  finding: '' @ tmpl (jget ''summary'' f)] else []) @
     (if truthy (jget ''targetPath'' f) then [''  path: '' @ tmpl (jget ''targetPath'' f)] else []) @
     [''  next step: '' @ next_step f] @
     (if list_or (jget ''blockedActions'' f) \<noteq> []
      then [''  blocked actions: '' @ js_join '', '' (list_or (jget ''blockedActions'' f))] else []) @
     (if truthy (jget ''proposedProbe'' f)
      then (let probe = jget ''proposedProbe'' f in
            [''  proposed probe: '' @ tmpl (member ''reference'' probe) @ '' (class: '' @
             tmpl (member ''class'' probe) @ '', consent: '' @ tmpl (member ''consent'' probe) @ '')''])
      else []) @ [[]]"

definition plan_head :: "json \<Rightarrow> string list" where
  "plan_head view =
     [''HOUSEKEEPER REPORT'', ''No files changed.'', [],
      ''PLAN for '' @ tmpl_or (jget ''home'' view) ''<home>'',
      ''mode: '' @ tmpl_or (jget ''mode'' view) ''plan'', []]"

definition renderPlanReport :: "string option \<Rightarrow> bool \<Rightarrow> json \<Rightarrow> string" where
  "renderPlanReport home redact report =
     (let view = applyRedactionLayer home redact report;
          fs = list_or (jget ''findings'' view)
      in if fs = [] then join_with [nl] (plan_head view @ [''No findings.''])
         else trim_end (join_with [nl] (plan_head view @ concat (map plan_finding_lines fs))))"

subsection \<open>renderJsonReport\<close>

definition value_or :: "json option \<Rightarrow> json \<Rightarrow> json option" where
  \<comment> \<open>v || d\<close>
  "value_or v d = (if truthy v then v else Some d)"

definition stripFindingForJson :: "json \<Rightarrow> json" where
  "stripFindingForJson f =
     obj_of (map (\<lambda>k. (k, jget k f)) [''id'', ''class'', ''claimLevel'', ''stance'', ''summary''] @
       [(''targetPath'', value_or (jget ''targetPath'' f) (JStr []))] @
       map (\<lambda>k. (k, jget k f)) [''surface'', ''evidence'', ''nextAllowedStep''] @
       [(''blockedActions'', value_or (jget ''blockedActions'' f) (JArr [])),
        (''proposedProbe'', if truthy (jget ''proposedProbe'' f) then jget ''proposedProbe'' f else None),
        (''falsePositiveSeenBefore'',
           if is_number (jget ''falsePositiveSeenBefore'' f) then jget ''falsePositiveSeenBefore'' f else None)])"

definition ensureStanceSummary :: "json option \<Rightarrow> json" where
  "ensureStanceSummary summary = JObj (map (\<lambda>k. (k, stance_count summary k)) STANCE_KEYS)"

definition json_view :: "json \<Rightarrow> json" where
  "json_view view =
     obj_of [(''schemaVersion'', jget ''schemaVersion'' view),
       (''mode'', value_or (jget ''mode'' view) (JStr ''diagnose'')),
       (''home'', jget ''home'' view), (''generatedAt'', jget ''generatedAt'' view),
       (''filesChanged'', Some (JBool False)),
       (''primary'', value_or (jget ''primary'' view) JNull),
       (''stanceSummary'', Some (ensureStanceSummary (jget ''stanceSummary'' view))),
       (''findings'', Some (JArr (map stripFindingForJson (list_or (jget ''findings'' view))))),
       (''boundaries'', value_or (jget ''boundaries'' view) (JArr [])),
       (''degraded'', value_or (jget ''degraded'' view) (JArr []))]"

definition renderJsonReport :: "string option \<Rightarrow> bool \<Rightarrow> json \<Rightarrow> json" where
  "renderJsonReport home redact report = json_view (applyRedactionLayer home redact report)"

end
