(* ===== verification/Redact_Facts.thy ===== *)
theory Redact_Facts
  imports Redact
begin

text \<open>
  What redaction removes and what it keeps. A secret is a run of characters of a class that no
  replacement text is made of: every replacement keeps at most a head and a tail of what it
  replaces and puts a separator between them, so no stage can build a new run, and the stage of
  a token's own pattern leaves none. The locale states this once; it is interpreted for each
  provider token and for the residual runs of the failure rule.
\<close>

subsection \<open>Matches of the patterns\<close>

lemma lit_ends: "(a, t) \<in> set (ends (lit w) p s) \<Longrightarrow> a = w"
proof (induction w arbitrary: p s a t rule: lit.induct)
  case 1
  then show ?case
    by (auto simp: no_char_def dest: cls_ends_split)
next
  case (2 c)
  then have "1 \<le> length a" "\<forall>x \<in> set a. x = c"
    by (auto dest: cls_ends_split simp: this_char_def)
  moreover have "length a \<le> 1"
    using 2 by (auto simp: cls_ends_def Let_def)
  ultimately show ?case
    by (cases a) auto
next
  case (3 c d cs)
  then obtain b u e where ab: "a = b @ e" "(b, u) \<in> set (ends (lit [c]) p s)"
    "(e, t) \<in> set (ends (lit (d # cs)) (last_of p b) u)"
    by auto
  then have "1 \<le> length b" "\<forall>x \<in> set b. x = c"
    by (auto dest: cls_ends_split simp: this_char_def)
  moreover have "length b \<le> 1"
    using ab(2) by (auto simp: cls_ends_def Let_def)
  ultimately have "b = [c]"
    by (cases b) auto
  then show ?case
    using 3 ab by auto
qed

lemma lit_self: "w \<noteq> [] \<Longrightarrow> (w, t) \<in> set (ends (lit w) p (w @ t))"
proof (induction w arbitrary: p rule: lit.induct)
  case (2 c)
  then show ?case
    by (auto simp: cls_ends_def this_char_def Let_def)
next
  case (3 c d cs)
  have "([c], (d # cs) @ t) \<in> set (cls_ends (this_char c) 1 (Some 1) ((c # d # cs) @ t))"
    by (auto simp: cls_ends_def this_char_def Let_def)
  moreover have "(d # cs, t) \<in> set (ends (lit (d # cs)) (last_of p [c]) ((d # cs) @ t))"
    by (rule "3.IH") simp
  ultimately show ?case
    by force
qed simp

declare lit.simps [simp del]

definition always_ends :: "string \<Rightarrow> re \<Rightarrow> bool" where
  "always_ends w r = (\<forall>p s a t. (a, t) \<in> set (ends r p s) \<longrightarrow> suffix w a)"

lemma always_ends_Seq: "always_ends w q \<Longrightarrow> always_ends w (Seq r q)"
  by (fastforce simp: always_ends_def suffix_def)

lemma always_ends_lit: "always_ends w (Seq (lit w) Bound)"
  by (auto simp: always_ends_def split: if_splits dest!: lit_ends)

lemma project_ends: "always_ends ''/.claude'' (hd (project_path root))"
  unfolding project_path_def list.sel(1) by (intro always_ends_Seq always_ends_lit)

lemma single_part:
  assumes "exec_at [r] p s = Some (ps, t)"
  shows "(concat ps, t) \<in> set (ends r p s)"
  using exec_at_mem [OF assms] by auto

lemma starts_lit:
  assumes "(a, t) \<in> set (ends (Seq (lit w) q) p s)"
  obtains b where "a = w @ b" and "\<exists>p s. (b, t) \<in> set (ends q p s)"
  using assms lit_ends by fastforce

lemma starts_bound:
  assumes "(a, t) \<in> set (ends (Seq Bound q) p s)"
  shows "\<exists>p s. (a, t) \<in> set (ends q p s)"
  using assms by (auto split: if_splits)

lemma prefixed_match:
  assumes "exec_at (prefixed_token pre) p s = Some (ps, t)"
  obtains v where "concat ps = pre @ v" and "8 \<le> length v" and "\<forall>c \<in> set v. tok_char c"
proof -
  have "(concat ps, t) \<in> set (ends (Seq (lit pre) (Cls tok_char 8 None)) p s)"
    using assms unfolding prefixed_token_def by (rule single_part)
  then obtain v where "concat ps = pre @ v" "\<exists>p s. (v, t) \<in> set (ends (Cls tok_char 8 None) p s)"
    by (rule starts_lit)
  then show thesis
    using that cls_ends_split by fastforce
qed

lemma akia_match: "exec_at TOKEN_AKIA p s = Some (ps, t) \<Longrightarrow> prefix ''AKIA'' (concat ps)"
  unfolding TOKEN_AKIA_def using starts_bound [OF single_part] starts_lit prefixI by metis

lemma bearer_match: "exec_at TOKEN_BEARER p s = Some (ps, t) \<Longrightarrow> prefix ''Bearer'' (concat ps)"
  unfolding TOKEN_BEARER_def using starts_bound [OF single_part] starts_lit prefixI by metis

lemma bearer_head_first: "bearer_head (c # cs) \<Longrightarrow> lower_char c = CHR ''b''"
  by (simp add: bearer_head_def to_lower_def)

lemma not_bearer_first: "lower_char (CHR ''s'') \<noteq> CHR ''b''" "lower_char (CHR ''g'') \<noteq> CHR ''b''"
  "lower_char (CHR ''A'') \<noteq> CHR ''b''"
  by code_simp+

lemma bearer_only:
  assumes re: "re \<in> set STANDALONE_TOKEN_PATTERNS" and e: "exec_at re p s = Some (ps, t)"
    and head: "bearer_head (concat ps)"
  shows "prefix ''Bearer'' (concat ps)"
proof -
  have no: False if "exec_at (prefixed_token (c # pre)) p s = Some (ps, t)" "lower_char c \<noteq> CHR ''b''" for c pre
    using prefixed_match [OF that(1)] bearer_head_first head that(2) by (metis append_Cons)
  consider "re = TOKEN_SK" | "re = TOKEN_GHP" | "re = TOKEN_PAT" | "re = TOKEN_AKIA" | "re = TOKEN_BEARER"
    using re by (auto simp: STANDALONE_TOKEN_PATTERNS_def)
  then show ?thesis
  proof cases
    case 4
    then show ?thesis
      using akia_match e bearer_head_first head not_bearer_first(3) by (force simp: prefix_def)
  next
    case 5
    then show ?thesis using bearer_match e by blast
  qed (use no e not_bearer_first in \<open>auto simp: TOKEN_SK_def TOKEN_GHP_def TOKEN_PAT_def\<close>)
qed

lemma cls_ends_exists:
  assumes "lo \<le> length w" and "\<forall>c \<in> set w. P c"
  shows "\<exists>a t. (a, t) \<in> set (cls_ends P lo None (w @ v))"
proof -
  define x where "x = takeWhile P (w @ v)"
  have "length w \<le> length x"
    using assms by (simp add: x_def takeWhile_append2)
  then have "length x \<in> {lo ..< Suc (length x)}"
    using assms by simp
  then have "(take (length x) (w @ v), drop (length x) (w @ v)) \<in> set (cls_ends P lo None (w @ v))"
    unfolding cls_ends_def Let_def set_map set_rev set_upt option.case x_def [symmetric] by (rule imageI)
  then show ?thesis by blast
qed

lemma test_from_elim:
  "test_from rs p s \<Longrightarrow> \<exists>u x q ps t. s = u @ x \<and> exec_at rs q x = Some (ps, t)"
proof (induction s arbitrary: p)
  case Nil
  then show ?case
    by (metis append_Nil not_Some_eq surj_pair test_from.simps(1))
next
  case (Cons c cs)
  show ?case
  proof (cases "exec_at rs p (c # cs)")
    case None
    then have "test_from rs (Some c) cs"
      using Cons.prems by simp
    then show ?thesis
      by (metis Cons.IH append_Cons)
  qed (metis append_Nil surj_pair)
qed

lemma test_from_intro:
  "\<forall>q. exec_at rs q x \<noteq> None \<Longrightarrow> test_from rs p (u @ x)"
proof (induction u arbitrary: p)
  case Nil
  then show ?case by (cases x) auto
qed auto

subsection \<open>Runs that no replacement can build\<close>

locale run_pattern =
  fixes K :: "char \<Rightarrow> bool" and bad :: "string \<Rightarrow> bool"
  assumes bad_chars: "bad w \<Longrightarrow> c \<in> set w \<Longrightarrow> K c"
    and bad_long: "bad w \<Longrightarrow> 11 \<le> length w"
    and K_class: "K c \<Longrightarrow> tok_char c \<or> c = CHR ''+''"
begin

definition free :: "string \<Rightarrow> bool" where
  "free s = (\<forall>w. sublist w s \<longrightarrow> \<not> bad w)"

lemma free_sub: "free s \<Longrightarrow> sublist t s \<Longrightarrow> free t"
  unfolding free_def using sublist_order.order_trans by blast

lemma free_short: "length s < 11 \<Longrightarrow> free s"
  unfolding free_def using bad_long sublist_length_le by fastforce

lemma free_sep:
  assumes x: "free x" and y: "free y" and c: "\<not> K c"
  shows "free (x @ c # y)"
proof -
  have "\<not> bad w" if "sublist w (x @ c # y)" for w
  proof
    assume bad: "bad w"
    consider "sublist w x" | "sublist w (c # y)"
      | a b where "w = a @ b" "suffix a x" "prefix b (c # y)"
      using \<open>sublist w (x @ c # y)\<close> unfolding sublist_append by blast
    then show False
    proof cases
      case 1
      then show False using x bad by (simp add: free_def)
    next
      case 2
      then have "sublist w y \<or> prefix w (c # y)"
        by (auto simp: sublist_Cons_right)
      then show False
        using y bad c bad_chars bad_long by (cases w) (fastforce simp: free_def)+
    next
      case 3
      show False
      proof (cases b)
        case Nil
        then show False
          using 3 x bad by (simp add: free_def suffix_imp_sublist)
      next
        case (Cons d ds)
        then show False
          using 3 bad c bad_chars by force
      qed
    qed
  qed
  then show ?thesis by (simp add: free_def)
qed

lemma free_Cons: "\<not> K c \<Longrightarrow> free (c # y) = free y"
  using free_sep [of "[]" y c] free_short [of "[]"] free_sub [of "c # y" y]
  by (auto simp: sublist_Cons_right)

lemma free_between:
  assumes "free x" and "free y" and S: "S \<noteq> []" "\<not> K (hd S)" "\<not> K (last S)" "free S"
  shows "free (x @ S @ y)"
proof -
  have "free (S @ y)"
    using free_sep [of "butlast S" y "last S"] S free_sub [of S "butlast S"] assms
    by (metis append_butlast_last_id append_Cons append_Nil append_assoc
        prefix_imp_sublist prefixeq_butlast)
  then have "free (tl S @ y)"
    using S by (metis free_sub hd_Cons_tl append_Cons sublist_Cons_right sublist_order.order_refl)
  then show ?thesis
    using S free_sep [of x "tl S @ y" "hd S"] assms by (metis append_Cons hd_Cons_tl)
qed

definition safe_repl :: "string \<Rightarrow> string \<Rightarrow> bool" where
  "safe_repl m r =
     (\<exists>a S b. r = a @ S @ b \<and> prefix a m \<and> suffix b m \<and>
        S \<noteq> [] \<and> \<not> K (hd S) \<and> \<not> K (last S) \<and> free S)"

lemma safe_replI:
  "prefix a m \<Longrightarrow> suffix b m \<Longrightarrow> S \<noteq> [] \<Longrightarrow> \<not> K (hd S) \<Longrightarrow> \<not> K (last S) \<Longrightarrow> free S
    \<Longrightarrow> safe_repl m (a @ S @ b)"
  unfolding safe_repl_def by blast

lemma replace_from_free:
  assumes safe: "\<And>p s ps t. exec_at rs p s = Some (ps, t) \<Longrightarrow> safe_repl (concat ps) (f ps)"
  shows "free (x @ s) \<Longrightarrow> free (x @ replace_from rs f p s)"
proof (induction "length s" arbitrary: p s x rule: less_induct)
  case less
  have rest: "free (b @ (case s of [] \<Rightarrow> [] | c # cs \<Rightarrow> c # replace_from rs f (Some c) cs))"
    if "free (b @ s)" for b
    using that less.hyps [of "tl s" "b @ [hd s]" "Some (hd s)"] by (cases s) auto
  show ?case
  proof (cases "exec_at rs p s")
    case None
    then show ?thesis
      using rest [OF less.prems] by (simp add: replace_from.simps [of rs f p s])
  next
    case (Some m)
    then obtain ps t where e: "exec_at rs p s = Some (ps, t)" by (cases m) auto
    then have s: "s = concat ps @ t" by (simp add: exec_at_split)
    from safe [OF e] obtain a S b where r: "f ps = a @ S @ b" "prefix a (concat ps)"
      "suffix b (concat ps)" "S \<noteq> []" "\<not> K (hd S)" "\<not> K (last S)" "free S"
      unfolding safe_repl_def by blast
    have "sublist (x @ a) (x @ s)"
      using r(2) s by (auto simp: prefix_def)
    then have xa: "free (x @ a)"
      using less.prems free_sub by blast
    have "sublist (b @ t) (x @ s)"
      using r(3) s by (auto simp: suffix_def)
    then have bt: "free (b @ t)"
      using less.prems free_sub by blast
    show ?thesis
    proof (cases "length t < length s")
      case True
      then have "free (b @ replace_from rs f (last_of p (concat ps)) t)"
        using less.hyps bt by blast
      then show ?thesis
        using free_between [OF xa _ r(4-7)] True e
        by (simp add: replace_from.simps [of rs f p s] r(1))
    next
      case False
      then have "concat ps = []" "t = s"
        using s by auto
      then show ?thesis
        using free_between [OF xa _ r(4-7)] rest [of b] bt e
        by (simp add: replace_from.simps [of rs f p s] r(1))
    qed
  qed
qed

lemma replace_all_free:
  assumes "\<And>p s ps t. exec_at rs p s = Some (ps, t) \<Longrightarrow> safe_repl (concat ps) (f ps)"
  shows "free s \<Longrightarrow> free (replace_all rs f s)"
  using replace_from_free [of rs f "[]" s None, OF assms] by (simp add: replace_all_def)

lemma replace_from_clears:
  assumes safe: "\<And>p s ps t. exec_at rs p s = Some (ps, t) \<Longrightarrow>
      concat ps \<noteq> [] \<and> f ps \<noteq> [] \<and> \<not> K (hd (f ps)) \<and> \<not> K (last (f ps)) \<and> free (f ps)"
    and hits: "\<And>w v p. bad w \<Longrightarrow> exec_at rs p (w @ v) \<noteq> None"
  shows "(\<And>u w v. x @ s = u @ w @ v \<Longrightarrow> bad w \<Longrightarrow> length x \<le> length u)
    \<Longrightarrow> free (x @ replace_from rs f p s)"
proof (induction "length s" arbitrary: p s x rule: less_induct)
  case less
  have x: "free x"
    unfolding free_def
  proof (intro allI impI notI)
    fix w assume "sublist w x" and bad: "bad w"
    then obtain u v where "x = u @ w @ v"
      unfolding sublist_def by blast
    moreover have "w \<noteq> []"
      using bad_long [OF bad] by auto
    ultimately show False
      using less.prems [of u w "v @ s"] bad by simp
  qed
  show ?case
  proof (cases "exec_at rs p s")
    case None
    show ?thesis
    proof (cases s)
      case Nil
      then show ?thesis
        using None x by (simp add: replace_from.simps [of rs f p "[]"])
    next
      case (Cons c cs)
      have "length (x @ [c]) \<le> length u" if eq: "(x @ [c]) @ cs = u @ w @ v" and bad: "bad w" for u w v
      proof -
        have "length x \<le> length u"
          using less.prems [of u w v] eq bad Cons by simp
        moreover have "length x \<noteq> length u"
        proof
          assume "length x = length u"
          then have "s = w @ v"
            using eq Cons by (simp add: append_eq_append_conv)
          then show False
            using hits [OF bad] None by blast
        qed
        ultimately show ?thesis by simp
      qed
      then have "free ((x @ [c]) @ replace_from rs f (Some c) cs)"
        using less.hyps [of cs "x @ [c]"] Cons by simp
      then show ?thesis
        using None Cons by (simp add: replace_from.simps [of rs f p "c # cs"])
    qed
  next
    case (Some m)
    then obtain ps t where e: "exec_at rs p s = Some (ps, t)" by (cases m) auto
    then have shorter: "length t < length s"
      using safe [OF e] exec_at_length [OF e] by auto
    have "free ([] @ replace_from rs f (last_of p (concat ps)) t)"
      using less.hyps [OF shorter, of "[]"] by simp
    then show ?thesis
      using free_between [OF x, of "replace_from rs f (last_of p (concat ps)) t" "f ps"]
        safe [OF e] e shorter
      by (simp add: replace_from.simps [of rs f p s])
  qed
qed

lemma replace_all_clears:
  assumes "\<And>p s ps t. exec_at rs p s = Some (ps, t) \<Longrightarrow>
      concat ps \<noteq> [] \<and> f ps \<noteq> [] \<and> \<not> K (hd (f ps)) \<and> \<not> K (last (f ps)) \<and> free (f ps)"
    and "\<And>w v p. bad w \<Longrightarrow> exec_at rs p (w @ v) \<noteq> None"
  shows "free (replace_all rs f s)"
  using replace_from_clears [of rs f "[]" s None, OF assms] by (simp add: replace_all_def)

lemma not_K:
  "\<not> K (CHR ''<'')" "\<not> K (CHR ''>'')" "\<not> K (CHR ''~'')" "\<not> K (CHR '':'')" "\<not> K (CHR ''='')"
  "\<not> K (CHR ''@'')" "\<not> K (CHR ''.'')" "\<not> K (CHR ''/'')" "\<not> K (CHR '' '')"
  using K_class by (force simp: tok_char_def is_alnum_def is_digit_def is_upper_def is_lower_def)+

lemmas free_lits = not_K free_Cons free_short

lemma collapse_home_free: "free s \<Longrightarrow> free (collapseHomePrefix s home)"
proof -
  assume s: "free s"
  have sub: "free (take i s @ CHR ''~'' # drop j s)" for i j
    using free_sub [OF s] free_sep not_K(3) sublist_take sublist_drop by blast
  show ?thesis
    using s sub [of 0] sub
    by (auto simp: collapseHomePrefix_def Let_def split: option.split)
qed

lemma project_free: "re \<in> set PROJECT_PATH_RES \<Longrightarrow> free s
    \<Longrightarrow> free (replace_all re (\<lambda>ps. PROJECT @ ''/.claude'') s)"
proof (erule rev_mp, rule impI, rule replace_all_free)
  fix p s ps t
  assume "re \<in> set PROJECT_PATH_RES" and e: "exec_at re p s = Some (ps, t)"
  moreover have "project_path root = [hd (project_path root)]" for root
    by (simp add: project_path_def)
  ultimately obtain root where "re = [hd (project_path root)]"
    unfolding PROJECT_PATH_RES_def by (metis empty_iff empty_set set_ConsD)
  then have "suffix ''/.claude'' (concat ps)"
    using project_ends [of root] single_part e unfolding always_ends_def by blast
  then have "suffix ''claude'' (concat ps)"
    by (auto simp: suffix_def)
  then have "safe_repl (concat ps) ([] @ ''<project>/.'' @ ''claude'')"
    by (intro safe_replI) (auto simp: free_lits)
  then show "safe_repl (concat ps) (PROJECT @ ''/.claude'')"
    by (simp add: PROJECT_def)
qed

lemma head_safe:
  assumes "concat (take 1 ps) = a" and "S \<noteq> []" "\<not> K (hd S)" "\<not> K (last S)" "free S"
  shows "safe_repl (concat ps) (first_part S ps)"
proof -
  have "prefix a (concat ps)"
    using assms(1) by (cases ps) auto
  then show ?thesis
    using safe_replI [of a "concat ps" "[]" S] assms by (simp add: first_part_def)
qed

lemma uri_free: "free s \<Longrightarrow> free (replace_all URI_CRED (first_part ('':'' @ REDACTED @ ''@'')) s)"
  by (rule replace_all_free) (auto intro!: head_safe simp: REDACTED_def free_lits)

lemma flag_free: "free s \<Longrightarrow> free (replace_all FLAG_VALUE (first_part REDACTED) s)"
  by (rule replace_all_free) (auto intro!: head_safe simp: REDACTED_def free_lits)

lemma env_free: "free s \<Longrightarrow> free (replace_all ENV_TOKEN (first_part (''='' @ REDACTED)) s)"
  by (rule replace_all_free) (auto intro!: head_safe simp: REDACTED_def free_lits)

lemma sha_free: "free s \<Longrightarrow> free (replace_all SHA256_HEX sha_repl s)"
proof (rule replace_all_free)
  fix p s ps t
  have "safe_repl (concat ps) (take 8 (concat ps) @ ''...'' @ [])"
    by (rule safe_replI) (auto simp: take_is_prefix free_lits)
  then show "safe_repl (concat ps) (sha_repl ps)"
    by (simp add: sha_repl_def)
qed

lemma token_free:
  "re \<in> set STANDALONE_TOKEN_PATTERNS \<Longrightarrow> free s \<Longrightarrow> free (replace_all re token_repl s)"
proof (erule rev_mp, rule impI, rule replace_all_free)
  fix p s ps t
  assume re: "re \<in> set STANDALONE_TOKEN_PATTERNS" and e: "exec_at re p s = Some (ps, t)"
  show "safe_repl (concat ps) (token_repl ps)"
  proof (cases "bearer_head (concat ps)")
    case True
    have "safe_repl (concat ps) (''Bearer'' @ ('' '' @ REDACTED) @ [])"
      by (rule safe_replI [OF bearer_only [OF re e True]]) (auto simp: REDACTED_def free_lits)
    then show ?thesis
      using True by (simp add: token_repl_def)
  next
    case False
    have "safe_repl (concat ps) ([] @ REDACTED @ [])"
      by (rule safe_replI) (auto simp: REDACTED_def free_lits)
    then show ?thesis
      using False by (simp add: token_repl_def)
  qed
qed

lemma fold_token_free:
  "set rs \<subseteq> set STANDALONE_TOKEN_PATTERNS \<Longrightarrow> free s
    \<Longrightarrow> free (fold (\<lambda>re. replace_all re token_repl) rs s)"
  by (induction rs arbitrary: s) (auto intro: token_free)

lemma fold_token_clears:
  assumes "re \<in> set rs" and "set rs \<subseteq> set STANDALONE_TOKEN_PATTERNS"
    and "\<And>s. free (replace_all re token_repl s)"
  shows "free (fold (\<lambda>re. replace_all re token_repl) rs s)"
  using assms(1,2)
proof (induction rs arbitrary: s)
  case (Cons r rs)
  show ?case
  proof (cases "re = r")
    case True
    then show ?thesis
      using Cons.prems assms(3) fold_token_free by simp
  qed (use Cons in simp)
qed simp

lemma paths_free: "free s \<Longrightarrow> free (redact_paths opts s)"
  by (auto simp: redact_paths_def collapseProjectPaths_def PROJECT_PATH_RES_def
      intro!: project_free collapse_home_free)

lemma before_tokens_free:
  "free s \<Longrightarrow> free (replace_all FLAG_VALUE (first_part REDACTED)
     (replace_all URI_CRED (first_part ('':'' @ REDACTED @ ''@'')) (redact_paths opts s)))"
  by (intro flag_free uri_free paths_free)

lemma after_tokens_free:
  assumes "free (redact_tokens (replace_all FLAG_VALUE (first_part REDACTED)
     (replace_all URI_CRED (first_part ('':'' @ REDACTED @ ''@'')) (redact_paths opts s))))"
  shows "free (redact_stages opts s)"
  using env_free [OF assms] sha_free by (simp add: redact_stages_def Let_def)

lemma stages_free: "free s \<Longrightarrow> free (redact_stages opts s)"
  using fold_token_free [OF subset_refl before_tokens_free]
  by (intro after_tokens_free) (simp add: redact_tokens_def)

lemma stages_clear:
  assumes "re \<in> set STANDALONE_TOKEN_PATTERNS" and "\<And>s. free (replace_all re token_repl s)"
  shows "free (redact_stages opts s)"
  using fold_token_clears [OF assms(1) subset_refl assms(2)]
  by (intro after_tokens_free) (simp add: redact_tokens_def)

lemma string_clear:
  assumes "re \<in> set STANDALONE_TOKEN_PATTERNS" and "\<And>s. free (replace_all re token_repl s)"
  shows "free (redactString opts s)"
  using stages_clear [OF assms] by (auto simp: redactString_def Let_def REDACTED_def free_lits)

end

subsection \<open>The provider tokens and the residual runs\<close>

definition bad_token :: "string \<Rightarrow> string \<Rightarrow> bool" where
  "bad_token pre w = (\<exists>v. w = pre @ v \<and> 8 \<le> length v \<and> (\<forall>c \<in> set v. tok_char c))"

definition bad_residual :: "string \<Rightarrow> bool" where
  "bad_residual w = (24 \<le> length w \<and> (\<forall>c \<in> set w. residual_char c))"

lemma bad_token_pattern:
  "3 \<le> length pre \<Longrightarrow> \<forall>c \<in> set pre. tok_char c \<Longrightarrow> run_pattern tok_char (bad_token pre)"
  by unfold_locales (auto simp: bad_token_def)

lemma provider_chars:
  "\<forall>c \<in> set ''sk-''. tok_char c" "\<forall>c \<in> set ''ghp_''. tok_char c" "\<forall>c \<in> set ''github_pat_''. tok_char c"
  by code_simp+

interpretation sk: run_pattern tok_char "bad_token ''sk-''"
  by (rule bad_token_pattern) (use provider_chars in auto)

interpretation ghp: run_pattern tok_char "bad_token ''ghp_''"
  by (rule bad_token_pattern) (use provider_chars in auto)

interpretation pat: run_pattern tok_char "bad_token ''github_pat_''"
  by (rule bad_token_pattern) (use provider_chars in auto)

interpretation res: run_pattern residual_char bad_residual
  by unfold_locales (auto simp: bad_residual_def residual_char_def tok_char_def)

lemma prefixed_hits:
  assumes "bad_token pre w" and "pre \<noteq> []"
  shows "exec_at (prefixed_token pre) p (w @ v) \<noteq> None"
proof -
  obtain u where w: "w = pre @ u" "8 \<le> length u" "\<forall>c \<in> set u. tok_char c"
    using assms(1) unfolding bad_token_def by blast
  obtain a t where at: "(a, t) \<in> set (cls_ends tok_char 8 None (u @ v))"
    using cls_ends_exists [OF w(2,3)] by blast
  have "(pre @ a, t) \<in> set (ends (Seq (lit pre) (Cls tok_char 8 None)) p (w @ v))"
    using lit_self [OF assms(2), of "u @ v" p] at w(1) by force
  then have "([pre @ a], t) \<in> set (match_parts (prefixed_token pre) p (w @ v))"
    unfolding prefixed_token_def by force
  then show ?thesis by (rule exec_at_some)
qed

lemma prefixed_clears:
  assumes pre: "pre \<noteq> []" "lower_char (hd pre) \<noteq> CHR ''b''"
    and e: "exec_at (prefixed_token pre) p s = Some (ps, t)"
  shows "concat ps \<noteq> []" and "token_repl ps = REDACTED"
proof -
  obtain v where "concat ps = pre @ v"
    using prefixed_match [OF e] by blast
  moreover obtain c cs where "pre = c # cs"
    using pre(1) by (cases pre) auto
  ultimately show "concat ps \<noteq> []" and "token_repl ps = REDACTED"
    using pre(2) bearer_head_first by (auto simp: token_repl_def)
qed

lemma prefixed_test_bad:
  assumes "re_test (prefixed_token pre) s"
  shows "\<exists>w. sublist w s \<and> bad_token pre w"
proof -
  obtain u x q ps t where s: "s = u @ x" and e: "exec_at (prefixed_token pre) q x = Some (ps, t)"
    using test_from_elim assms unfolding re_test_def by blast
  obtain v where "concat ps = pre @ v" "8 \<le> length v" "\<forall>c \<in> set v. tok_char c"
    by (rule prefixed_match [OF e])
  then have "bad_token pre (concat ps)"
    by (auto simp: bad_token_def)
  moreover have "sublist (concat ps) s"
    unfolding s exec_at_split [OF e, symmetric] by simp
  ultimately show ?thesis by blast
qed

lemma residual_test: "re_test RESIDUAL_TOKEN s \<longleftrightarrow> \<not> res.free s"
proof
  assume "re_test RESIDUAL_TOKEN s"
  then obtain u x q ps t where s: "s = u @ x" and e: "exec_at RESIDUAL_TOKEN q x = Some (ps, t)"
    using test_from_elim unfolding re_test_def by blast
  have "(concat ps, t) \<in> set (cls_ends residual_char 24 None x)"
    using single_part e unfolding RESIDUAL_TOKEN_def by fastforce
  then have "bad_residual (concat ps)"
    unfolding bad_residual_def using cls_ends_split by blast
  moreover have "sublist (concat ps) s"
    unfolding s exec_at_split [OF e, symmetric] by simp
  ultimately show "\<not> res.free s"
    unfolding res.free_def by blast
next
  assume "\<not> res.free s"
  then obtain u w v where s: "s = u @ w @ v" and w: "24 \<le> length w" "\<forall>c \<in> set w. residual_char c"
    unfolding res.free_def sublist_def bad_residual_def by blast
  obtain a t where "(a, t) \<in> set (cls_ends residual_char 24 None (w @ v))"
    using cls_ends_exists [OF w] by blast
  then have "([a], t) \<in> set (match_parts RESIDUAL_TOKEN q (w @ v))" for q
    unfolding RESIDUAL_TOKEN_def by force
  then show "re_test RESIDUAL_TOKEN s"
    unfolding s re_test_def using test_from_intro exec_at_some by blast
qed

lemma sk_clear: "sk.free (redactString opts s)"
proof (rule sk.string_clear)
  show "TOKEN_SK \<in> set STANDALONE_TOKEN_PATTERNS"
    by (simp add: STANDALONE_TOKEN_PATTERNS_def)
  show "sk.free (replace_all TOKEN_SK token_repl s)" for s
    unfolding TOKEN_SK_def using prefixed_clears [of "''sk-''"] not_bearer_first prefixed_hits [of "''sk-''"]
    by (intro sk.replace_all_clears) (auto simp: REDACTED_def sk.free_lits)
qed

lemma ghp_clear: "ghp.free (redactString opts s)"
proof (rule ghp.string_clear)
  show "TOKEN_GHP \<in> set STANDALONE_TOKEN_PATTERNS"
    by (simp add: STANDALONE_TOKEN_PATTERNS_def)
  show "ghp.free (replace_all TOKEN_GHP token_repl s)" for s
    unfolding TOKEN_GHP_def using prefixed_clears [of "''ghp_''"] not_bearer_first prefixed_hits [of "''ghp_''"]
    by (intro ghp.replace_all_clears) (auto simp: REDACTED_def ghp.free_lits)
qed

lemma pat_clear: "pat.free (redactString opts s)"
proof (rule pat.string_clear)
  show "TOKEN_PAT \<in> set STANDALONE_TOKEN_PATTERNS"
    by (simp add: STANDALONE_TOKEN_PATTERNS_def)
  show "pat.free (replace_all TOKEN_PAT token_repl s)" for s
    unfolding TOKEN_PAT_def using prefixed_clears [of "''github_pat_''"] not_bearer_first
      prefixed_hits [of "''github_pat_''"]
    by (intro pat.replace_all_clears) (auto simp: REDACTED_def pat.free_lits)
qed

lemma clear_no_token:
  "\<not> re_test TOKEN_SK (redactString opts s)"
  "\<not> re_test TOKEN_GHP (redactString opts s)"
  "\<not> re_test TOKEN_PAT (redactString opts s)"
  using prefixed_test_bad sk_clear ghp_clear pat_clear
  unfolding TOKEN_SK_def TOKEN_GHP_def TOKEN_PAT_def sk.free_def ghp.free_def pat.free_def by blast+

lemma contains_self: "contains REDACTED REDACTED"
  by code_simp

lemma closed_string:
  assumes "ro_failClosed opts"
  shows "contains REDACTED (redactString opts s) \<or> \<not> re_test RESIDUAL_TOKEN (redactString opts s)"
  using res.stages_free [of s opts] residual_test assms contains_self
  by (auto simp: redactString_def hasResidualTokenShape_def Let_def)

subsection \<open>The shape of a report\<close>

fun json_shape :: "json \<Rightarrow> json" where
  \<comment> \<open>the value with every string erased: keys, lengths, numbers and flags remain\<close>
  "json_shape (JStr s) = JStr []"
| "json_shape (JArr xs) = JArr (map json_shape xs)"
| "json_shape (JObj kvs) = JObj (map (\<lambda>(k, v). (k, json_shape v)) kvs)"
| "json_shape v = v"

definition finding_shaped :: "json \<Rightarrow> bool" where
  "finding_shaped f =
     (is_object f \<longrightarrow> is_obj f \<and>
        (truthy (jget ''surface'' f) \<longrightarrow> is_obj (the (jget ''surface'' f))) \<and>
        (truthy (jget ''evidence'' f) \<longrightarrow> is_obj (the (jget ''evidence'' f))))"

definition report_shaped :: "json \<Rightarrow> bool" where
  "report_shaped r =
     (is_obj r \<and> jstr (jget ''home'' r) \<noteq> None \<and>
      (case jarr (jget ''findings'' r) of None \<Rightarrow> True | Some fs \<Rightarrow> list_all finding_shaped fs))"

lemma shape_plain [simp]: "json_shape (redactPlain ctx v) = json_shape v"
  by (induction v) auto

lemma shape_value [simp]: "json_shape (redact_value ctx v) = json_shape v"
  by (cases v) auto

lemma shape_map: "(\<And>x. x \<in> set xs \<Longrightarrow> json_shape (g x) = json_shape x)
    \<Longrightarrow> json_shape (JArr (map g xs)) = json_shape (JArr xs)"
  by (induction xs) auto

lemma shape_get: "json_shape a = json_shape b \<Longrightarrow> map_option json_shape (jget k a) = map_option json_shape (jget k b)"
proof -
  have m: "map_option json_shape (map_of kvs k) = map_of (map (\<lambda>(k, v). (k, json_shape v)) kvs) k" for kvs
    by (induction kvs) auto
  have "map_option json_shape (jget k j) = jget k (json_shape j)" for j
    by (cases j) (simp_all add: m)
  then show "json_shape a = json_shape b \<Longrightarrow> ?thesis" by metis
qed

lemma shape_set:
  assumes "jget k j = Some v0" and "json_shape v = json_shape v0"
  shows "json_shape (jset k v j) = json_shape j"
proof -
  have "map_of kvs k = Some v0 \<Longrightarrow>
      map (\<lambda>(k, v). (k, json_shape v)) (AList.update k v kvs) = map (\<lambda>(k, v). (k, json_shape v)) kvs" for kvs
    using assms(2) by (induction kvs) auto
  then show ?thesis
    using assms(1) by (cases j) auto
qed

lemma shape_set_src:
  assumes "json_shape out = json_shape src" and "jget k src = Some v0" and "json_shape v = json_shape v0"
  shows "json_shape (jset k v out) = json_shape src"
proof -
  obtain v1 where "jget k out = Some v1" "json_shape v1 = json_shape v0"
    using shape_get [OF assms(1), of k] assms(2) by auto
  then show ?thesis
    using shape_set assms by metis
qed

lemma jstr_eq: "jstr x = Some s \<longleftrightarrow> x = Some (JStr s)"
  by (cases x rule: jstr.cases) auto

lemma jarr_eq: "jarr x = Some xs \<longleftrightarrow> x = Some (JArr xs)"
  by (cases x rule: jarr.cases) auto

lemma shape_text: "json_shape out = json_shape src \<Longrightarrow> json_shape (redact_text ctx src k out) = json_shape src"
  by (auto simp: redact_text_def set_if_def jstr_eq shape_set_src split: option.split)

lemma shape_list:
  "json_shape out = json_shape src \<Longrightarrow> (\<And>x. json_shape (g x) = json_shape x)
    \<Longrightarrow> json_shape (redact_list g src k out) = json_shape src"
  by (auto simp: redact_list_def set_if_def jarr_eq intro!: shape_set_src split: option.split)

lemma shape_fold:
  "(\<And>k out. json_shape out = json_shape src \<Longrightarrow> json_shape (g k out) = json_shape src)
    \<Longrightarrow> json_shape out = json_shape src \<Longrightarrow> json_shape (fold g ks out) = json_shape src"
  by (induction ks arbitrary: out) auto

lemma spread_obj [simp]: "is_obj j \<Longrightarrow> spread j = j"
  by (cases j) auto

lemma shape_evidence: "is_obj e \<Longrightarrow> json_shape (redactEvidence ctx e) = json_shape e"
  unfolding redactEvidence_def by (rule shape_fold) (auto intro: shape_list)

lemma shape_truthy:
  assumes "json_shape out = json_shape src"
    and "truthy (jget k src) \<Longrightarrow> json_shape (g (the (jget k src))) = json_shape (the (jget k src))"
  shows "json_shape (set_truthy g src k out) = json_shape src"
  using assms by (auto simp: set_truthy_def set_if_def intro!: shape_set_src split: option.split)

lemma shape_finding: "finding_shaped f \<Longrightarrow> json_shape (redactFinding home b f) = json_shape f"
  unfolding redactFinding_def Let_def
  by (auto simp: finding_shaped_def shape_evidence
      intro!: shape_truthy shape_list shape_fold shape_text)

lemma shape_items:
  assumes "json_shape out = json_shape src" and "\<And>xs x. jget k src = Some (JArr xs) \<Longrightarrow> x \<in> set xs \<Longrightarrow> json_shape (g x) = json_shape x"
  shows "json_shape (set_if k (redact_items g (jget k src)) out) = json_shape src"
proof (cases "jget k src")
  case None
  then show ?thesis using assms by (simp add: redact_items_def set_if_def)
next
  case (Some v)
  show ?thesis
    using assms Some shape_map
    by (cases v) (auto simp: redact_items_def set_if_def intro!: shape_set_src)
qed

lemma report_shape_redact:
  assumes "report_shaped r"
  shows "json_shape (redactReport home b r) = json_shape r"
proof -
  obtain hm where obj: "is_obj r" and home: "jget ''home'' r = Some (JStr hm)"
    using assms by (auto simp: report_shaped_def jstr_eq)
  have "is_object r"
    using obj by (cases r) auto
  moreover have "json_shape (set_if ''home'' (if b then Some (JStr ''~'') else jget ''home'' r) (spread r)) = json_shape r"
    using obj home by (auto simp: set_if_def intro!: shape_set_src)
  moreover have "json_shape (redactFinding hm' b x) = json_shape x"
    if "jget ''findings'' r = Some (JArr xs)" "x \<in> set xs" for hm' xs x
    using assms that shape_finding by (auto simp: report_shaped_def list_all_iff)
  ultimately show ?thesis
    unfolding redactReport_def Let_def by (auto intro!: shape_items)
qed

subsection \<open>Secret findings\<close>

definition safe_text :: "string \<Rightarrow> bool" where
  "safe_text t =
     (\<not> re_test TOKEN_SK t \<and> \<not> re_test TOKEN_GHP t \<and> \<not> re_test TOKEN_PAT t \<and>
      (contains REDACTED t \<or> \<not> re_test RESIDUAL_TOKEN t))"

lemma closed_safe: "ro_failClosed opts \<Longrightarrow> safe_text (redactString opts s)"
  unfolding safe_text_def using clear_no_token closed_string by blast

lemma set_if_other: "k \<noteq> k' \<Longrightarrow> jget k (set_if k' v out) = jget k out"
  by (simp add: set_if_def split: option.split)

lemma text_other: "k \<noteq> k' \<Longrightarrow> jget k (redact_text ctx src k' out) = jget k out"
  by (simp add: redact_text_def set_if_other)

lemma is_obj_text: "is_obj out \<Longrightarrow> is_obj (redact_text ctx src k out)"
  by (simp add: redact_text_def set_if_def split: option.split)

lemma fold_text:
  assumes "jget k src = Some (JStr s)"
  shows "is_obj out \<Longrightarrow> k \<in> set ks \<Longrightarrow> distinct ks
    \<Longrightarrow> jget k (fold (redact_text ctx src) ks out) = Some (JStr (redactString ctx s))"
proof (induction ks arbitrary: out)
  case (Cons x ks)
  have other: "jget k (fold (redact_text ctx src) zs o1) = jget k o1" if "k \<notin> set zs" for zs o1
    using that by (induction zs arbitrary: o1) (auto simp: text_other)
  show ?case
  proof (cases "x = k")
    case True
    then have "jget k (redact_text ctx src x out) = Some (JStr (redactString ctx s))"
      using assms Cons.prems by (simp add: redact_text_def set_if_def)
    then show ?thesis
      using Cons.prems True other by simp
  next
    case False
    then show ?thesis
      using Cons is_obj_text by simp
  qed
qed simp

lemma finding_text:
  assumes "is_obj f" and "k \<in> set TEXT_FIELDS" and "jget k f = Some (JStr s)"
  shows "jget k (redactFinding home b f) = Some (JStr (redactString (finding_ctx home b f) s))"
proof -
  have "is_object f"
    using assms(1) by (cases f) auto
  moreover have "k \<noteq> ''surface''" "k \<noteq> ''evidence''" "k \<noteq> ''blockedActions''" "k \<noteq> ''policyMatches''"
    "k \<noteq> ''proposedProbe''" "distinct TEXT_FIELDS"
    using assms(2) by (auto simp: TEXT_FIELDS_def)
  ultimately show ?thesis
    using assms fold_text [OF assms(3), of f TEXT_FIELDS]
    by (simp add: redactFinding_def Let_def set_truthy_def redact_list_def set_if_other)
qed

subsection \<open>Properties\<close>

text \<open>C15: No provider token survives redactString: whatever the options and the input, the
  result contains no match of the sk-, ghp_ and github_pat_ patterns, also when earlier stages
  rewrote the text around it or later ones shortened what follows.\<close>

theorem provider_tokens_redacted:
  "\<not> re_test TOKEN_SK (redactString opts s) \<and>
   \<not> re_test TOKEN_GHP (redactString opts s) \<and>
   \<not> re_test TOKEN_PAT (redactString opts s)"
  using clear_no_token by blast

definition secret_opts :: "string \<Rightarrow> redact_opts" where
  "secret_opts home = \<lparr> ro_home = Some home, ro_shareable = True, ro_failClosed = True \<rparr>"


definition env_finding :: json where
  "env_finding = JObj
     [(''id'', JStr ''home.secret''),
      (''summary'', JStr ''key sk-abcdefghijkl in .env''),
      (''surface'', JObj [(''sensitivityClass'', JStr ''secret-adjacent'')]),
      (''evidence'', JObj [(''structural'', JArr [JStr ''/h/.env''])])]"


text \<open>C21: Redacting a report keeps its shape: the same field names in the same order, lists of
  the same length, the same numbers and flags at every depth; only the contents of strings may
  differ. This holds for a report whose home is a string and whose findings have object
  surfaces and evidence, with or without the global flag.\<close>

theorem report_shape_kept:
  assumes "report_shaped r"
  shows "json_shape (redactReport home flag r) = json_shape r"
  using assms by (rule report_shape_redact)

definition env_report :: json where
  "env_report = JObj
     [(''schemaVersion'', JStr ''0.1''), (''home'', JStr ''/h''), (''findings'', JArr [env_finding]),
      (''boundaries'', JArr [JObj [(''type'', JStr ''secret-adjacent''), (''targetPath'', JStr ''/h/.env'')]]),
      (''degraded'', JArr [])]"

theorem report_shape_kept_witness:
  "json_shape (redactReport None True env_report) = json_shape env_report"
proof (rule report_shape_kept)
  show "report_shaped env_report" by code_simp
qed

subsection \<open>What redaction misses\<close>

lemma second_secret_survives:
  "redactString (secret_opts ''/h'') ''sk-abcdefgh aaaaaaaaaaaaaaaaaaaaaaaaaaaa'' =
     ''<redacted> aaaaaaaaaaaaaaaaaaaaaaaaaaaa''"
  by code_simp

lemma home_collapses_once:
  "redactString (secret_opts ''/h/u'') ''/h/u/a and /h/u/b'' = ''~/a and /h/u/b''"
  by code_simp

lemma home_prefix_of_sibling:
  "redactString (secret_opts ''/h/u'') ''/h/u2/a'' = ''~2/a''"
  by code_simp

lemma project_below_home_shown:
  "redactString (secret_opts ''/Users/elad'') ''/Users/elad/work/bank/.claude/x'' = ''~/work/bank/.claude/x''"
  by code_simp

lemma claude_home_dropped:
  "redactString (secret_opts ''/u/.claude'') ''/u/.claude/settings.json'' = ''~/settings.json''"
  by code_simp

end
