(* ===== verification/Render_Facts.thy ===== *)
theory Render_Facts
  imports Render Redact_Facts
begin

text \<open>
  What a rendered report can show. A provider token is a run of token characters, so a text put
  together from token-free texts with separators between them is token free; the interpretation
  below instantiates the run patterns with all three providers at once. Every text the renderer
  prints is a label the report came with or a redacted text, so a report rendered for sharing
  shows no token.
\<close>

subsection \<open>Token-free texts\<close>

definition bad_any :: "string \<Rightarrow> bool" where
  "bad_any w = (bad_token ''sk-'' w \<or> bad_token ''ghp_'' w \<or> bad_token ''github_pat_'' w)"

definition no_token :: "string \<Rightarrow> bool" where
  "no_token t = (\<not> re_test TOKEN_SK t \<and> \<not> re_test TOKEN_GHP t \<and> \<not> re_test TOKEN_PAT t)"

definition clean_lit :: "string \<Rightarrow> bool" where
  \<comment> \<open>a fixed text of the program that may stand before other texts\<close>
  "clean_lit L = (L \<noteq> [] \<and> \<not> tok_char (last L) \<and> \<not> contains ''sk-'' L \<and> \<not> contains ''ghp_'' L \<and>
     \<not> contains ''github_pat_'' L)"

interpretation tok: run_pattern tok_char bad_any
  using bad_token_pattern [OF _ provider_chars(1)] bad_token_pattern [OF _ provider_chars(2)]
    bad_token_pattern [OF _ provider_chars(3)]
  by unfold_locales (auto simp: bad_any_def bad_token_def provider_chars)

lemma tok_free_iff: "tok.free s \<longleftrightarrow> sk.free s \<and> ghp.free s \<and> pat.free s"
  unfolding tok.free_def sk.free_def ghp.free_def pat.free_def bad_any_def by blast

lemma prefixed_bad_test:
  assumes "sublist w s" and "bad_token pre w" and "pre \<noteq> []"
  shows "re_test (prefixed_token pre) s"
proof -
  obtain u v where "s = u @ w @ v"
    using assms(1) unfolding sublist_def by blast
  moreover have "exec_at (prefixed_token pre) q (w @ v) \<noteq> None" for q
    by (rule prefixed_hits [OF assms(2,3)])
  ultimately show ?thesis
    unfolding re_test_def using test_from_intro by blast
qed

lemma no_token_iff: "no_token t \<longleftrightarrow> tok.free t"
proof -
  have "re_test (prefixed_token pre) t \<longleftrightarrow> (\<exists>w. sublist w t \<and> bad_token pre w)" if "pre \<noteq> []" for pre
    using prefixed_test_bad prefixed_bad_test that by blast
  then show ?thesis
    unfolding no_token_def TOKEN_SK_def TOKEN_GHP_def TOKEN_PAT_def tok_free_iff
      sk.free_def ghp.free_def pat.free_def by blast
qed

lemma redacted_no_token [simp]: "no_token (redactString opts s)"
  unfolding no_token_def using clear_no_token by blast

lemma contains_sublist: "sublist p s \<Longrightarrow> contains p s"
proof (induction s)
  case (Cons c s)
  then show ?case
    by (cases p) (auto simp: sublist_Cons_right starts_with_iff prefix_def)
qed simp

lemma lit_free:
  assumes "\<not> contains ''sk-'' L" "\<not> contains ''ghp_'' L" "\<not> contains ''github_pat_'' L"
  shows "no_token L"
proof -
  have "\<not> bad_token pre w" if "sublist w L" "\<not> contains pre L" for pre w
    using that contains_sublist sublist_order.order_trans
    unfolding bad_token_def by (metis prefixI prefix_imp_sublist)
  then show ?thesis
    using assms unfolding no_token_iff tok.free_def bad_any_def by blast
qed

lemma free_before:
  assumes "no_token x" "no_token y" and c: "x = x1 @ [c]" "\<not> tok_char c"
  shows "no_token (x @ y)"
  using assms tok.free_sep [of x1 y c] tok.free_sub [of x x1]
  by (simp add: no_token_iff)

lemma lit_before: "clean_lit L \<Longrightarrow> no_token y \<Longrightarrow> no_token (L @ y)"
  using free_before [of L y "butlast L" "last L"] lit_free [of L] by (simp add: clean_lit_def)

lemma sep_after: "no_token x \<Longrightarrow> no_token y \<Longrightarrow> \<not> tok_char c \<Longrightarrow> no_token (x @ c # y)"
  by (simp add: no_token_iff tok.free_sep)

lemma no_token_Nil [simp]: "no_token []"
  by (simp add: no_token_iff tok.free_short)

lemma no_token_between:
  "no_token x \<Longrightarrow> no_token y \<Longrightarrow> clean_lit S \<Longrightarrow> \<not> tok_char (hd S) \<Longrightarrow> no_token (x @ S @ y)"
  using lit_free [of S] by (simp add: no_token_iff clean_lit_def tok.free_between)

lemma no_token_join:
  "list_all no_token ws \<Longrightarrow> clean_lit d \<Longrightarrow> \<not> tok_char (hd d) \<Longrightarrow> no_token (join_with d ws)"
  by (induction d ws rule: join_with.induct) (auto intro: no_token_between)

lemma no_token_sub: "no_token s \<Longrightarrow> sublist t s \<Longrightarrow> no_token t"
  by (simp add: no_token_iff tok.free_sub)

lemma digits_no_token:
  assumes "\<forall>c \<in> set s. is_digit c \<or> c = CHR ''-''"
  shows "no_token s"
proof -
  have "\<not> bad_any w" if "sublist w s" for w
  proof
    assume "bad_any w"
    then have "hd w \<in> set w" "hd w = CHR ''s'' \<or> hd w = CHR ''g''"
      unfolding bad_any_def bad_token_def by auto
    moreover have "is_digit (hd w) \<or> hd w = CHR ''-''"
      using assms set_mono_sublist [OF that] calculation(1) by blast
    moreover have "\<not> is_digit (CHR ''s'')" "\<not> is_digit (CHR ''g'')"
      by code_simp+
    ultimately show False by auto
  qed
  then show ?thesis
    by (simp add: no_token_iff tok.free_def)
qed

lemma nat_no_token: "no_token (show_nat n)"
  using show_nat_digits by (intro digits_no_token) blast

lemma int_no_token: "no_token (show_int i)"
  using show_nat_digits by (intro digits_no_token) (auto simp: show_int_def)

subsection \<open>Token-free values\<close>

fun json_texts :: "json \<Rightarrow> string list" where
  \<comment> \<open>every string value in a value, at every depth; member names are not values\<close>
  "json_texts (JStr s) = [s]"
| "json_texts (JArr xs) = concat (map json_texts xs)"
| "json_texts (JObj kvs) = concat (map (\<lambda>(k, v). json_texts v) kvs)"
| "json_texts v = []"

definition clean_value :: "json \<Rightarrow> bool" where
  "clean_value v = (json_plain v \<and> list_all no_token (json_texts v))"

definition opt_clean :: "json option \<Rightarrow> bool" where
  "opt_clean v = (case v of None \<Rightarrow> True | Some x \<Rightarrow> clean_value x)"

lemma opt_clean_simps [simp]: "opt_clean None" "opt_clean (Some x) = clean_value x"
  by (simp_all add: opt_clean_def)

lemma clean_simps [simp]:
  "clean_value JNull" "clean_value (JBool b)" "clean_value (JNum i)" "\<not> clean_value (JDec d)"
  "clean_value (JStr s) = no_token s"
  "clean_value (JArr xs) = list_all clean_value xs"
  by (auto simp: clean_value_def list_all_iff)

lemma clean_obj: "clean_value (JObj kvs) \<longleftrightarrow> distinct (map fst kvs) \<and> (\<forall>kv \<in> set kvs. clean_value (snd kv))"
  by (force simp: clean_value_def list_all_iff)

lemma clean_member: "clean_value j \<Longrightarrow> opt_clean (jget k j)"
  by (cases j) (auto simp: clean_obj opt_clean_def split: option.split dest!: map_of_SomeD)

lemma opt_clean_member: "opt_clean v \<Longrightarrow> opt_clean (member k v)"
  by (cases v) (simp_all add: member_def clean_member)

lemma clean_list: "opt_clean v \<Longrightarrow> list_all clean_value (list_or v)"
  by (cases v rule: jarr.cases) (auto simp: list_or_def)

lemma text_no_token: "clean_value v \<Longrightarrow> no_token (text_of v)"
proof (induction v rule: text_of.induct)
  case (6 xs)
  have "clean_lit '','' \<and> \<not> tok_char (hd '','')" by code_simp
  moreover have "list_all no_token (map (\<lambda>x. if x = JNull then [] else text_of x) xs)"
    using 6 by (auto simp: list_all_iff)
  ultimately show ?case
    by (simp add: no_token_join)
next
  case (7 kvs)
  show ?case by (intro lit_free) code_simp+
qed (simp_all add: int_no_token lit_free)

lemma js_join_no_token:
  "list_all clean_value xs \<Longrightarrow> clean_lit d \<Longrightarrow> \<not> tok_char (hd d) \<Longrightarrow> no_token (js_join d xs)"
  unfolding js_join_def by (rule no_token_join) (auto simp: list_all_iff text_no_token)

lemma tmpl_no_token: "opt_clean v \<Longrightarrow> no_token (tmpl v)"
  by (cases v) (simp_all add: tmpl_def text_no_token lit_free)

lemma tmpl_or_no_token: "opt_clean v \<Longrightarrow> no_token d \<Longrightarrow> no_token (tmpl_or v d)"
  by (simp add: tmpl_or_def tmpl_no_token)

subsection \<open>What the redaction layer leaves\<close>

definition redactable :: "json \<Rightarrow> bool" where
  \<comment> \<open>a string, which redaction rewrites, or a value that is shown as it is\<close>
  "redactable v = (jstr (Some v) \<noteq> None \<or> clean_value v)"

definition redactable_list :: "json \<Rightarrow> bool" where
  "redactable_list v =
     (case jarr (Some v) of None \<Rightarrow> clean_value v | Some xs \<Rightarrow> list_all redactable xs)"

definition opt_all :: "('a \<Rightarrow> bool) \<Rightarrow> 'a option \<Rightarrow> bool" where
  "opt_all P v = (case v of None \<Rightarrow> True | Some x \<Rightarrow> P x)"

definition evidence_ok :: "json \<Rightarrow> bool" where
  "evidence_ok e =
     (case e of
        JObj kvs \<Rightarrow> distinct (map fst kvs) \<and>
          list_all (\<lambda>(k, v). if k \<in> set EVIDENCE_KEYS then redactable_list v else clean_value v) kvs
      | _ \<Rightarrow> \<not> truthy (Some e) \<and> clean_value e)"

definition LABELS :: "string list" where
  \<comment> \<open>the members of a finding that are shown and never redacted\<close>
  "LABELS = [''id'', ''class'', ''claimLevel'', ''stance'', ''falsePositiveSeenBefore'']"

definition finding_ok :: "json \<Rightarrow> bool" where
  "finding_ok f =
     (is_obj f \<and> list_all (\<lambda>k. opt_clean (jget k f)) LABELS \<and>
      list_all (\<lambda>k. opt_all redactable (jget k f)) TEXT_FIELDS \<and>
      opt_all (\<lambda>v. is_obj v \<and> clean_value v) (jget ''surface'' f) \<and>
      opt_all evidence_ok (jget ''evidence'' f) \<and>
      opt_all redactable_list (jget ''blockedActions'' f) \<and>
      opt_all json_plain (jget ''proposedProbe'' f))"

definition SHOWN :: "string list" where
  "SHOWN = LABELS @ TEXT_FIELDS @ [''surface'', ''evidence'', ''blockedActions'', ''proposedProbe'']"

definition finding_clean :: "json \<Rightarrow> bool" where
  "finding_clean f = list_all (\<lambda>k. opt_clean (jget k f)) SHOWN"

lemma plain_clean: "json_plain v \<Longrightarrow> clean_value (redactPlain ctx v)"
proof (induction v)
  case (JObj kvs)
  have "map fst (map (\<lambda>(k, v). (k, redactPlain ctx v)) kvs) = map fst kvs"
    by (induction kvs) auto
  then have "distinct (map fst (map (\<lambda>(k, v). (k, redactPlain ctx v)) kvs))"
    using JObj.prems by (simp only: json_plain.simps)
  moreover have "clean_value (redactPlain ctx v)" if "(k, v) \<in> set kvs" for k v
    using JObj that by (force simp: snds.simps)
  ultimately show ?case
    unfolding redactPlain.simps clean_obj by auto
qed (auto simp: list_all_iff)

lemma value_clean: "redactable v \<Longrightarrow> clean_value (redact_value ctx v)"
  by (cases v) (auto simp: redactable_def)

lemma jget_set_if: "is_obj out \<Longrightarrow> jget k (set_if k v out) = (case v of None \<Rightarrow> jget k out | Some x \<Rightarrow> Some x)"
  by (simp add: set_if_def split: option.split)

lemma is_obj_set_if [simp]: "is_obj (set_if k v out) = is_obj out"
  by (simp add: set_if_def split: option.split)

lemma is_obj_list [simp]: "is_obj (redact_list g src k out) = is_obj out"
  by (simp add: redact_list_def)

lemma is_obj_truthy [simp]: "is_obj (set_truthy g src k out) = is_obj out"
  by (simp add: set_truthy_def)

lemma list_other: "k \<noteq> k' \<Longrightarrow> jget k (redact_list g src k' out) = jget k out"
  by (simp add: redact_list_def set_if_other)

lemma truthy_other: "k \<noteq> k' \<Longrightarrow> jget k (set_truthy g src k' out) = jget k out"
  by (simp add: set_truthy_def set_if_other)

lemma list_clean:
  assumes "is_obj out" "opt_all redactable_list (jget k src)" "jget k out = jget k src"
  shows "opt_clean (jget k (redact_list (redact_value ctx) src k out))"
proof (cases "jarr (jget k src)")
  case None
  then show ?thesis
    using assms by (auto simp: redact_list_def set_if_def opt_all_def redactable_list_def opt_clean_def
        split: option.splits)
next
  case (Some xs)
  then have "jget k src = Some (JArr xs)"
    by (simp add: jarr_eq)
  then show ?thesis
    using assms(1,2) value_clean
    by (auto simp: redact_list_def set_if_def opt_all_def redactable_list_def list_all_iff)
qed

fun keyed :: "json \<Rightarrow> bool" where
  "keyed (JObj kvs) = distinct (map fst kvs)"
| "keyed v = False"

lemma keyed_obj: "keyed j \<Longrightarrow> is_obj j"
  by (cases j) auto

lemma keyed_set_if [simp]: "keyed out \<Longrightarrow> keyed (set_if k v out)"
  by (cases out) (auto simp: set_if_def distinct_update split: option.split)

lemma keyed_clean: "keyed j \<Longrightarrow> (\<And>k. opt_clean (jget k j)) \<Longrightarrow> clean_value j"
proof (cases j)
  case (JObj kvs)
  assume j: "keyed j" and c: "\<And>k. opt_clean (jget k j)"
  have "clean_value (snd kv)" if "kv \<in> set kvs" for kv
    using c [of "fst kv"] that j JObj by (cases kv) (auto simp: map_of_is_SomeI opt_clean_def)
  then show ?thesis
    using j JObj by (simp add: clean_obj)
qed auto

lemma list_get:
  "is_obj out \<Longrightarrow> jget k (redact_list g src k out) =
     (case jarr (jget k src) of None \<Rightarrow> jget k out | Some xs \<Rightarrow> Some (JArr (map g xs)))"
  by (simp add: redact_list_def jget_set_if split: option.split)

lemma fold_list_get:
  "is_obj out \<Longrightarrow> jget k (fold (redact_list g src) ks out) =
     (if k \<in> set ks then (case jarr (jget k src) of None \<Rightarrow> jget k out | Some xs \<Rightarrow> Some (JArr (map g xs)))
      else jget k out)"
proof (induction ks arbitrary: out)
  case (Cons x ks)
  show ?case
    using Cons list_get [of out k g src] list_other [of k x g src out]
    by (cases "x = k") (auto split: option.split)
qed simp

lemma fold_list_keyed: "keyed out \<Longrightarrow> keyed (fold (redact_list g src) ks out)"
  by (induction ks arbitrary: out) (simp_all add: redact_list_def)

lemma evidence_clean:
  assumes "evidence_ok e" and "truthy (Some e)"
  shows "clean_value (redactEvidence ctx e)"
proof -
  obtain kvs where e: "e = JObj kvs" and d: "distinct (map fst kvs)"
    and kvs: "\<And>k v. (k, v) \<in> set kvs \<Longrightarrow> if k \<in> set EVIDENCE_KEYS then redactable_list v else clean_value v"
    using assms by (cases e) (auto simp: evidence_ok_def list_all_iff)
  have "opt_clean (jget k (redactEvidence ctx e))" for k
  proof (cases "map_of kvs k")
    case None
    then show ?thesis
      by (simp add: redactEvidence_def e fold_list_get)
  next
    case (Some v)
    have "opt_clean (jget k (redactEvidence ctx e)) \<longleftrightarrow>
        (if k \<in> set EVIDENCE_KEYS then opt_clean (jget k (redact_list (redact_value ctx) e k e)) else clean_value v)"
      by (simp add: redactEvidence_def e fold_list_get list_get Some)
    moreover have "opt_clean (jget k (redact_list (redact_value ctx) e k e))" if "k \<in> set EVIDENCE_KEYS"
      using kvs [OF map_of_SomeD [OF Some]] that Some by (intro list_clean) (simp_all add: e opt_all_def)
    ultimately show ?thesis
      using kvs [OF map_of_SomeD [OF Some]] by presburger
  qed
  moreover have "keyed (redactEvidence ctx e)"
    by (simp add: redactEvidence_def e d fold_list_keyed)
  ultimately show ?thesis
    by (intro keyed_clean)
qed

lemma fold_text_other:
  "k \<notin> set ks \<or> jstr (jget k src) = None \<Longrightarrow> jget k (fold (redact_text ctx src) ks out) = jget k out"
proof (induction ks arbitrary: out)
  case (Cons x ks)
  have "jget k (redact_text ctx src x out) = jget k out"
    using Cons.prems
    by (cases "x = k") (auto simp: text_other redact_text_def set_if_def split: option.split)
  then show ?case
    using Cons.IH [of "redact_text ctx src x out"] Cons.prems by auto
qed simp

lemma is_obj_fold_text: "is_obj out \<Longrightarrow> is_obj (fold (redact_text ctx src) ks out)"
  by (induction ks arbitrary: out) (simp_all add: is_obj_text)

lemma truthy_get:
  "is_obj out \<Longrightarrow> jget k out = jget k src \<Longrightarrow>
     jget k (set_truthy g src k out) = (if truthy (jget k src) then map_option g (jget k src) else jget k src)"
  by (auto simp: set_truthy_def jget_set_if split: option.split)

lemma falsy_clean: "\<not> truthy (Some v) \<Longrightarrow> clean_value v"
  by (cases v) auto

lemmas other_members = truthy_other list_other fold_text_other is_obj_fold_text

lemma finding_redacted:
  assumes ok: "finding_ok f"
  shows "finding_clean (redactFinding home b f)"
proof -
  define ctx where "ctx = finding_ctx home b f"
  define o1 where "o1 = fold (redact_text ctx f) TEXT_FIELDS f"
  define o2 where "o2 = set_truthy spread f ''surface'' o1"
  define o3 where "o3 = set_truthy (redactEvidence ctx) f ''evidence'' o2"
  define o4 where "o4 = redact_list (redact_value ctx) f ''blockedActions'' o3"
  define o5 where "o5 = redact_list (redactPlain ctx) f ''policyMatches'' o4"
  define out where "out = set_truthy (redactPlain ctx) f ''proposedProbe'' o5"
  have obj: "is_obj f" and "is_object f"
    using ok by (cases f; simp add: finding_ok_def)+
  then have out: "redactFinding home b f = out"
    by (simp add: redactFinding_def Let_def ctx_def o1_def o2_def o3_def o4_def o5_def out_def)
  have objs: "is_obj o1" "is_obj o2" "is_obj o3" "is_obj o4" "is_obj o5"
    by (simp_all add: o5_def o4_def o3_def o2_def o1_def obj is_obj_fold_text)
  have rest: "jget k out = jget k o1"
    if "k \<notin> {''surface'', ''evidence'', ''blockedActions'', ''policyMatches'', ''proposedProbe''}" for k
    using that by (simp add: out_def o5_def o4_def o3_def o2_def other_members)
  have o1: "jget k o1 = jget k f" if "k \<notin> set TEXT_FIELDS \<or> jstr (jget k f) = None" for k
    using that unfolding o1_def by (rule fold_text_other)
  have "opt_clean (jget k out)" if "k \<in> set LABELS" for k
  proof -
    have "jget k out = jget k f"
      using that by (subst rest, force simp: LABELS_def, subst o1, force simp: LABELS_def TEXT_FIELDS_def) simp
    then show ?thesis
      using that ok by (simp add: finding_ok_def list_all_iff)
  qed
  moreover have "opt_clean (jget k out)" if "k \<in> set TEXT_FIELDS" for k
  proof -
    have k: "jget k out = jget k o1"
      using that by (intro rest) (auto simp: TEXT_FIELDS_def)
    show ?thesis
    proof (cases "jstr (jget k f)")
      case None
      then show ?thesis
        using that ok o1 [of k] unfolding k
        by (auto simp: finding_ok_def list_all_iff opt_all_def redactable_def opt_clean_def split: option.splits)
    next
      case (Some s)
      then have "jget k out = Some (JStr (redactString (finding_ctx home b f) s))"
        using finding_text [OF obj that, of s home b] unfolding out by (simp add: jstr_eq)
      then show ?thesis by simp
    qed
  qed
  moreover have "opt_clean (jget ''surface'' out)"
  proof -
    have "jget ''surface'' out = jget ''surface'' o2"
      by (simp add: out_def o5_def o4_def o3_def other_members)
    moreover have "jget ''surface'' o1 = jget ''surface'' f"
      by (rule o1) (simp add: TEXT_FIELDS_def)
    ultimately show ?thesis
      using ok truthy_get [OF objs(1)] unfolding o2_def
      by (auto simp: finding_ok_def opt_all_def opt_clean_def split: option.splits)
  qed
  moreover have "opt_clean (jget ''evidence'' out)"
  proof -
    have "jget ''evidence'' out = jget ''evidence'' o3"
      by (simp add: out_def o5_def o4_def other_members)
    moreover have "jget ''evidence'' o2 = jget ''evidence'' f"
      unfolding o2_def by (subst truthy_other, simp, rule o1, simp add: TEXT_FIELDS_def)
    moreover have "opt_all evidence_ok (jget ''evidence'' f)"
      using ok by (simp add: finding_ok_def)
    ultimately show ?thesis
      using truthy_get [OF objs(2)] evidence_clean unfolding o3_def
      by (cases "jget ''evidence'' f") (auto simp: opt_all_def evidence_ok_def opt_clean_def split: json.splits)
  qed
  moreover have "opt_clean (jget ''blockedActions'' out)"
  proof -
    have "jget ''blockedActions'' out = jget ''blockedActions'' o4"
      by (simp add: out_def o5_def other_members)
    moreover have "jget ''blockedActions'' o3 = jget ''blockedActions'' f"
      by (simp add: o3_def o2_def other_members o1 TEXT_FIELDS_def)
    ultimately show ?thesis
      using ok list_clean [OF objs(3)] unfolding o4_def by (simp add: finding_ok_def)
  qed
  moreover have "opt_clean (jget ''proposedProbe'' out)"
  proof -
    have "jget ''proposedProbe'' o5 = jget ''proposedProbe'' f"
      by (simp add: o5_def o4_def o3_def o2_def other_members o1 TEXT_FIELDS_def)
    then have "jget ''proposedProbe'' out = (if truthy (jget ''proposedProbe'' f)
        then map_option (redactPlain ctx) (jget ''proposedProbe'' f) else jget ''proposedProbe'' f)"
      unfolding out_def by (rule truthy_get [OF objs(5)])
    moreover have "opt_all json_plain (jget ''proposedProbe'' f)"
      using ok by (simp add: finding_ok_def)
    ultimately show ?thesis
      by (cases "jget ''proposedProbe'' f") (simp_all add: opt_all_def plain_clean falsy_clean)
  qed
  ultimately show ?thesis
    unfolding out finding_clean_def SHOWN_def list_all_append list.pred_inject
    by (auto simp: list_all_iff)
qed

definition REPORT_LABELS :: "string list" where
  "REPORT_LABELS = [''schemaVersion'', ''mode'', ''generatedAt'', ''primary'', ''stanceSummary'']"

definition report_ok :: "json \<Rightarrow> bool" where
  \<comment> \<open>the labels show no token; everything redaction rewrites may\<close>
  "report_ok r =
     (is_obj r \<and> list_all (\<lambda>k. opt_clean (jget k r)) REPORT_LABELS \<and>
      list_all finding_ok (list_or (jget ''findings'' r)) \<and>
      list_all json_plain (list_or (jget ''boundaries'' r)) \<and>
      list_all json_plain (list_or (jget ''degraded'' r)) \<and>
      list_all (\<lambda>k. jget k r = None \<or> jarr (jget k r) \<noteq> None) [''findings'', ''boundaries'', ''degraded''])"

definition view_clean :: "json \<Rightarrow> bool" where
  "view_clean v =
     (list_all (\<lambda>k. opt_clean (jget k v)) (REPORT_LABELS @ [''home'', ''boundaries'', ''degraded'']) \<and>
      list_all finding_clean (list_or (jget ''findings'' v)))"

lemma report_redacted:
  assumes ok: "report_ok r" and home: "b \<or> opt_clean (jget ''home'' r)"
  shows "view_clean (redactReport home b r)"
proof -
  define hm where "hm = report_home home r"
  define ctx where "ctx = \<lparr> ro_home = Some hm, ro_shareable = b, ro_failClosed = b \<rparr>"
  define o1 where "o1 = set_if ''home'' (if b then Some (JStr ''~'') else jget ''home'' r) r"
  define o2 where "o2 = set_if ''findings'' (redact_items (redactFinding hm b) (jget ''findings'' r)) o1"
  define o3 where "o3 = set_if ''boundaries'' (redact_items (redactPlain ctx) (jget ''boundaries'' r)) o2"
  define out where "out = set_if ''degraded'' (redact_items (redactPlain ctx) (jget ''degraded'' r)) o3"
  have obj: "is_obj r" and "is_object r"
    using ok by (cases r; simp add: report_ok_def)+
  then have out: "redactReport home b r = out"
    by (simp add: redactReport_def Let_def hm_def ctx_def o1_def o2_def o3_def out_def)
  have objs: "is_obj o1" "is_obj o2" "is_obj o3"
    by (simp_all add: o1_def o2_def o3_def obj)
  have items: "jget k (set_if k (redact_items g (jget k r)) o') = redact_items g (jget k r)"
    if "is_obj o'" "jget k o' = jget k r" for g k o'
    using that by (simp add: jget_set_if redact_items_def split: option.split json.split)
  have get: "jget ''home'' out = (if b then Some (JStr ''~'') else jget ''home'' r)"
    "jget ''findings'' out = redact_items (redactFinding hm b) (jget ''findings'' r)"
    "jget ''boundaries'' out = redact_items (redactPlain ctx) (jget ''boundaries'' r)"
    "jget ''degraded'' out = redact_items (redactPlain ctx) (jget ''degraded'' r)"
    by (simp_all add: out_def o3_def o2_def o1_def set_if_other items obj) (simp add: jget_set_if obj split: option.split)
  have "jget k out = jget k r" if "k \<in> set REPORT_LABELS" for k
    using that by (auto simp: REPORT_LABELS_def out_def o3_def o2_def o1_def set_if_other)
  then have labels: "list_all (\<lambda>k. opt_clean (jget k out)) REPORT_LABELS"
    using ok by (simp add: report_ok_def list_all_iff)
  have plain: "opt_clean (redact_items (redactPlain ctx) (jget k r))"
    if "list_all json_plain (list_or (jget k r))" "jget k r = None \<or> jarr (jget k r) \<noteq> None" for k
    using that plain_clean
    by (cases "jget k r" rule: jarr.cases) (auto simp: redact_items_def list_or_def list_all_iff)
  have "list_all finding_clean (list_or (redact_items (redactFinding hm b) (jget ''findings'' r)))"
    using ok finding_redacted
    by (cases "jget ''findings'' r" rule: jarr.cases)
      (auto simp: redact_items_def list_or_def list_all_iff report_ok_def)
  moreover have "no_token ''~''"
    by (rule lit_free; code_simp)
  moreover have "\<not> b \<Longrightarrow> opt_clean (jget ''home'' r)"
    using home by blast
  ultimately show ?thesis
    using ok labels plain unfolding out view_clean_def list_all_append list.pred_inject get
    by (simp add: report_ok_def)
qed

subsection \<open>The lines of a report\<close>

lemma shown_member_clean: "finding_clean f \<Longrightarrow> k \<in> set SHOWN \<Longrightarrow> opt_clean (jget k f)"
  by (simp add: finding_clean_def list_all_iff)

lemma shown_keys:
  "''id'' \<in> set SHOWN" "''stance'' \<in> set SHOWN" "''summary'' \<in> set SHOWN" "''nextAllowedStep'' \<in> set SHOWN"
  "''targetPath'' \<in> set SHOWN" "''why'' \<in> set SHOWN" "''missingKey'' \<in> set SHOWN" "''evidence'' \<in> set SHOWN"
  "''blockedActions'' \<in> set SHOWN" "''proposedProbe'' \<in> set SHOWN" "''falsePositiveSeenBefore'' \<in> set SHOWN"
  "''class'' \<in> set SHOWN" "''claimLevel'' \<in> set SHOWN" "''surface'' \<in> set SHOWN"
  by (simp_all add: SHOWN_def LABELS_def TEXT_FIELDS_def)

lemma member_text: "finding_clean f \<Longrightarrow> k \<in> set SHOWN \<Longrightarrow> no_token (tmpl (jget k f))"
  by (simp add: shown_member_clean tmpl_no_token)

lemma member_text_or: "finding_clean f \<Longrightarrow> k \<in> set SHOWN \<Longrightarrow> no_token d \<Longrightarrow> no_token (tmpl_or (jget k f) d)"
  by (simp add: shown_member_clean tmpl_or_no_token)

lemma title_no_token: "finding_clean f \<Longrightarrow> no_token (title_of f)"
  unfolding title_of_def using shown_keys by (intro member_text_or member_text) auto

lemma none_no_token: "no_token ''none''"
  by (rule lit_free; code_simp)

lemma step_texts: "list_all (\<lambda>t. clean_lit (t @ ''.'')) (map snd STANCE_NEXT_STEP)"
  by code_simp

lemma step_no_token: "clean_lit (t @ ''.'') \<Longrightarrow> no_token t"
  using lit_before [of "t @ ''.''" "[]"] no_token_sub [of "t @ ''.''" t] by simp

lemma steps_no_token: "no_token (opt_str_or (map_of STANCE_NEXT_STEP k) ''none'')"
proof -
  have "no_token t" if "map_of STANCE_NEXT_STEP k = Some t" for t
    using step_texts map_of_SomeD [OF that] step_no_token [of t] by (auto simp: list_all_iff)
  then show ?thesis
    by (simp add: opt_str_or_def str_or_def none_no_token split: option.split)
qed

lemma next_step_no_token: "finding_clean f \<Longrightarrow> no_token (next_step f)"
  unfolding next_step_def using shown_keys by (intro member_text_or steps_no_token) auto

lemma semi_join: "list_all clean_value xs \<Longrightarrow> no_token (js_join ''; '' xs)"
  by (rule js_join_no_token; (assumption | code_simp))

lemma comma_join: "list_all clean_value xs \<Longrightarrow> no_token (js_join '', '' xs)"
  by (rule js_join_no_token; (assumption | code_simp))


lemma evidence_no_token: "opt_clean v \<Longrightarrow> no_token (formatEvidenceShort v)"
proof -
  assume "opt_clean v"
  then have "list_all clean_value (concat (map (\<lambda>k. list_or (member k v)) SHOWN_EVIDENCE))"
    using clean_list opt_clean_member by (fastforce simp: list_all_iff)
  then show ?thesis
    unfolding formatEvidenceShort_def Let_def by (simp only: semi_join none_no_token split: if_split) simp
qed

lemma missing_clean: "finding_clean f \<Longrightarrow> list_all clean_value (missing_keys f)"
  unfolding missing_keys_def using shown_keys by (intro clean_list opt_clean_member shown_member_clean) auto

lemma missing_no_token: "finding_clean f \<Longrightarrow> no_token (formatMissingKey f)"
  using semi_join [OF missing_clean [of f]] member_text_or [of f "''missingKey''", OF _ _ none_no_token] shown_keys
  by (auto simp only: formatMissingKey_def split: if_split)

lemma blocked_clean: "finding_clean f \<Longrightarrow> list_all clean_value (list_or (jget ''blockedActions'' f))"
  using shown_keys by (intro clean_list shown_member_clean) auto

lemma blocked_no_token: "finding_clean f \<Longrightarrow> no_token (js_join '', '' (list_or (jget ''blockedActions'' f)))"
  by (intro comma_join blocked_clean)

lemma list_all_if: "list_all P (if c then xs else ys) = ((c \<longrightarrow> list_all P xs) \<and> (\<not> c \<longrightarrow> list_all P ys))"
  by simp

lemma list_all_concat_map:
  "list_all Q xs \<Longrightarrow> (\<And>x. Q x \<Longrightarrow> list_all P (g x)) \<Longrightarrow> list_all P (concat (map g xs))"
  by (induction xs) auto

lemma list_all_filter: "list_all P xs \<Longrightarrow> list_all P (filter c xs)"
  by (induction xs) auto

lemmas line_splits = list_all_append list.pred_inject list_all_if
lemmas finding_texts = title_no_token next_step_no_token evidence_no_token missing_no_token blocked_no_token
  member_text member_text_or shown_member_clean

lemma primary_no_token:
  assumes "opt_all finding_clean primary"
  shows "list_all no_token (primary_lines primary)"
proof (cases primary)
  case None
  show ?thesis
    unfolding None primary_lines_def option.case line_splits by (intro conjI lit_free; code_simp)
next
  case (Some f)
  have f: "finding_clean f"
    using assms Some by (simp add: opt_all_def)
  have fp: "no_token (tmpl (jget ''falsePositiveSeenBefore'' f) @ times_sign @ '' before'')"
  proof (rule no_token_between [of _ "'' before''" times_sign, OF member_text [OF f]])
    show "no_token '' before''" by (rule lit_free; code_simp)
    show "clean_lit times_sign" "\<not> tok_char (hd times_sign)" by code_simp+
  qed (rule shown_keys)
  have fp: "no_token (''  false-positive signal: marked false-positive '' @
      tmpl (jget ''falsePositiveSeenBefore'' f) @ times_sign @ '' before'')"
    by (rule lit_before [OF _ fp]) code_simp
  show ?thesis
    unfolding Some primary_lines_def option.case line_splits
    by (intro conjI impI TrueI fp lit_before finding_texts shown_keys f; code_simp)
qed

lemma lit_line: "clean_lit L \<Longrightarrow> no_token L"
  using lit_before [of L "[]"] by simp

lemma fixed_line: "clean_lit (L @ ''.'') \<Longrightarrow> no_token L"
  by (rule step_no_token)

lemma pad_clean: "list_all (\<lambda>k. clean_lit (''  '' @ padStance k @ '' '')) STANCE_KEYS"
  by code_simp

lemma summary_no_token:
  assumes "opt_clean (jget ''stanceSummary'' v)"
  shows "list_all no_token (summary_lines v)"
proof -
  have "no_token (text_of (stance_count (jget ''stanceSummary'' v) k))" for k
    using opt_clean_member [OF assms, of k]
    by (cases "member k (jget ''stanceSummary'' v)") (simp_all add: stance_count_def text_no_token int_no_token)
  then show ?thesis
    using pad_clean lit_before [of "''  '' @ padStance k @ '' ''" for k]
    by (auto simp: summary_lines_def list_all_iff)
qed

lemma boundary_no_token: "list_all no_token (boundary_lines c)"
  unfolding boundary_lines_def
  by (cases c) (simp only: prod.case line_splits, intro conjI TrueI lit_before nat_no_token; code_simp)

lemma bullets_no_token: "list_all clean_value xs \<Longrightarrow> list_all no_token (map (\<lambda>a. ''  '' @ text_of a) xs)"
  by (simp only: list.pred_map o_def) (erule list.pred_mono_strong, rule lit_before, code_simp, rule text_no_token)

lemma blocked_section_no_token:
  assumes "opt_all finding_clean primary"
  shows "list_all no_token (formatBlockedActionsSection primary)"
proof -
  have "list_all clean_value (list_or (member ''blockedActions'' primary))"
    using assms blocked_clean by (cases primary) (simp_all add: opt_all_def member_def list_or_def)
  then have "list_all no_token (map (\<lambda>a. ''  '' @ text_of a) (list_or (member ''blockedActions'' primary)))"
    by (rule bullets_no_token)
  moreover have "no_token ''BLOCKED ACTIONS''"
    by (rule fixed_line) code_simp
  ultimately show ?thesis
    unfolding formatBlockedActionsSection_def Let_def line_splits
    by (intro conjI impI) (simp_all only: list.pred_inject)
qed

lemma block_section_no_token:
  assumes "list_all finding_clean (list_or (jget ''findings'' v))"
  shows "list_all no_token (formatBlockSection v)"
proof (cases "filter (has_stance ''block'') (list_or (jget ''findings'' v))")
  case Nil
  then show ?thesis by (simp add: formatBlockSection_def)
next
  case (Cons f fs)
  then have f: "finding_clean f"
    using list_all_filter [OF assms, of "has_stance ''block''"] by simp
  have d: "no_token ''policy or evidence boundary''" "no_token ''report-only''" "no_token ''BLOCKED''"
    by (rule fixed_line, code_simp)+
  show ?thesis
    unfolding formatBlockSection_def Cons list.case line_splits
    by (intro conjI impI TrueI d lit_before finding_texts shown_keys f; code_simp)
qed

lemma protected_no_token:
  assumes f: "finding_clean f"
  shows "list_all no_token (protected_lines f)"
proof -
  have d: "no_token ''(no path)''" "no_token ''do-not-touch rule''" "no_token ''  action: none''"
    by (rule fixed_line, code_simp)+
  show ?thesis
    unfolding protected_lines_def line_splits
    by (intro conjI impI TrueI d lit_before finding_texts shown_keys f; code_simp)
qed

lemma protected_section_no_token:
  assumes "list_all finding_clean (list_or (jget ''findings'' v))"
  shows "list_all no_token (formatProtectedSection v)"
proof -
  have "no_token ''PROTECTED''"
    by (rule fixed_line) code_simp
  moreover have "list_all no_token (concat (map protected_lines (filter (has_stance ''protect'') (list_or (jget ''findings'' v)))))"
    by (rule list_all_concat_map [OF list_all_filter [OF assms] protected_no_token])
  ultimately show ?thesis
    unfolding formatProtectedSection_def Let_def line_splits by simp
qed

lemma missing_section_no_token:
  assumes "opt_all finding_clean primary"
  shows "list_all no_token (formatMissingKeySection primary)"
proof (cases primary)
  case None
  then show ?thesis by (simp add: formatMissingKeySection_def)
next
  case (Some f)
  have f: "finding_clean f"
    using assms Some by (simp add: opt_all_def)
  have d: "no_token ''MISSING KEY''"
    by (rule fixed_line) code_simp
  show ?thesis
    unfolding formatMissingKeySection_def Some option.case line_splits
    by (intro conjI impI TrueI d lit_before semi_join missing_clean finding_texts shown_keys f; code_simp)
qed

lemma degraded_no_token: "clean_value entry \<Longrightarrow> list_all no_token (degraded_lines entry)"
proof -
  assume c: "clean_value entry"
  have m: "list_all no_token (shown_member label entry k)" if "clean_lit (''  '' @ label @ '': '')" for label k
    using lit_before [OF that tmpl_no_token [OF clean_member [OF c, of k]]]
    by (simp add: shown_member_def)
  have "list_all no_token (shown_member ''budget hit'' entry ''budget'' @ shown_member ''skipped'' entry ''skipped'' @
      shown_member ''effect'' entry ''effect'' @ shown_member ''next step'' entry ''nextStep'')"
    unfolding list_all_append by (intro conjI m; code_simp)
  moreover have "no_token (''  '' @ s)" if "entry = JStr s" for s
    using that c by (intro lit_before) (code_simp, simp)
  ultimately show ?thesis
    unfolding degraded_lines_def by (cases entry) (simp_all only: json.case line_splits)
qed

lemma degraded_section_no_token:
  assumes "opt_clean (jget ''degraded'' v)"
  shows "list_all no_token (formatScanDegradedSection v)"
proof -
  have "no_token ''SCAN DEGRADED''"
    by (rule fixed_line) code_simp
  moreover have "list_all no_token (concat (map degraded_lines (list_or (jget ''degraded'' v))))"
    by (rule list_all_concat_map [OF clean_list [OF assms] degraded_no_token])
  ultimately show ?thesis
    unfolding formatScanDegradedSection_def Let_def line_splits by simp
qed

lemma skipped_no_token: "no_token (formatSkipped v)"
proof -
  define ts where "ts = [''none'', ''live Claude probes'', ''degraded subtree'', ''live Claude probes, degraded subtree'']"
  have "formatSkipped v \<in> set ts"
    by (simp add: formatSkipped_def ts_def)
  moreover have "list_all (\<lambda>t. clean_lit (t @ ''.'')) ts"
    unfolding ts_def by code_simp
  ultimately show ?thesis
    using fixed_line by (simp add: list_all_iff)
qed

lemma spaced_no_token: "list_all no_token ls \<Longrightarrow> list_all no_token (spaced ls)"
  by (simp add: spaced_def)

lemma find_clean: "list_all P xs \<Longrightarrow> P d \<Longrightarrow> P (opt_or (find c xs) d)"
  by (induction xs) auto

lemma primary_clean:
  assumes "list_all finding_clean (list_or (jget ''findings'' v))"
  shows "opt_all finding_clean (pickPrimary v)"
proof (cases "list_or (jget ''findings'' v)")
  case (Cons f fs)
  then have "list_all finding_clean fs" and f: "finding_clean f"
    using assms by simp_all
  then have "finding_clean (opt_or (find c fs) f)" for c
    by (rule find_clean)
  then show ?thesis
    using Cons f by (simp add: pickPrimary_def opt_all_def)
qed (simp add: pickPrimary_def opt_all_def)

lemma view_members:
  assumes "view_clean v"
  shows "list_all finding_clean (list_or (jget ''findings'' v))"
    "opt_clean (jget ''mode'' v)" "opt_clean (jget ''home'' v)" "opt_clean (jget ''degraded'' v)"
    "opt_clean (jget ''stanceSummary'' v)" "opt_clean (jget ''boundaries'' v)" "opt_clean (jget ''primary'' v)"
    "opt_clean (jget ''schemaVersion'' v)" "opt_clean (jget ''generatedAt'' v)"
  using assms by (simp_all add: view_clean_def REPORT_LABELS_def)

lemma lines_joined: "list_all no_token ls \<Longrightarrow> no_token (join_with [nl] ls)"
  by (rule no_token_join; (assumption | code_simp))

lemma human_no_token:
  assumes v: "view_clean v"
  shows "list_all no_token (human_lines v)"
proof -
  have lits: "no_token ''HOUSEKEEPER REPORT''" "no_token ''No files changed.''" "no_token ''PRIMARY''"
    "no_token ''STANCE SUMMARY''" "no_token ''BOUNDARIES''" "no_token ''SCAN''" "no_token ''yes''" "no_token ''no''"
    "no_token ''diagnose''"
    by (rule fixed_line, code_simp)+
  note m = view_members [OF v]
  have mode: "no_token (mode_of v)"
    unfolding mode_of_def by (intro tmpl_or_no_token m(2) lits)
  have deg: "no_token (if list_or (jget ''degraded'' v) \<noteq> [] then ''yes'' else ''no'')"
    using lits by simp
  show ?thesis
    unfolding human_lines_def Let_def line_splits
    by (intro conjI TrueI no_token_Nil lits mode deg primary_no_token primary_clean m summary_no_token
        boundary_no_token spaced_no_token blocked_section_no_token block_section_no_token
        protected_section_no_token missing_section_no_token degraded_section_no_token lit_before
        skipped_no_token; code_simp)
qed

lemma probe_no_token:
  assumes "opt_clean probe"
  shows "no_token (''  proposed probe: '' @ tmpl (member ''reference'' probe) @ '' (class: '' @
     tmpl (member ''class'' probe) @ '', consent: '' @ tmpl (member ''consent'' probe) @ '')'')"
proof -
  have t: "no_token (tmpl (member k probe))" for k
    by (rule tmpl_no_token [OF opt_clean_member [OF assms]])
  have c: "no_token (tmpl (member ''consent'' probe) @ '')'')"
    by (rule sep_after [OF t no_token_Nil]) code_simp
  have b: "no_token (tmpl (member ''class'' probe) @ '', consent: '' @ tmpl (member ''consent'' probe) @ '')'')"
    by (rule no_token_between [OF t c]; code_simp)
  have "no_token (tmpl (member ''reference'' probe) @ '' (class: '' @ tmpl (member ''class'' probe) @
      '', consent: '' @ tmpl (member ''consent'' probe) @ '')'')"
    by (rule no_token_between [OF t b]; code_simp)
  then show ?thesis
    by (rule lit_before [rotated]) code_simp
qed

lemma plan_finding_no_token:
  assumes f: "finding_clean f"
  shows "list_all no_token (plan_finding_lines f)"
proof -
  have st: "no_token (em_dash @ '' stance: '' @ tmpl (jget ''stance'' f))"
    by (intro lit_before member_text shown_keys f; code_simp)
  have i: "no_token (tmpl (jget ''id'' f))"
    using f shown_keys by (intro member_text) auto
  have hd: "no_token (tmpl (jget ''id'' f) @ '' '' @ em_dash @ '' stance: '' @ tmpl (jget ''stance'' f))"
    by (rule no_token_between [OF i st]; code_simp)
  have p: "opt_clean (jget ''proposedProbe'' f)"
    using f shown_keys by (intro shown_member_clean) auto
  show ?thesis
    unfolding plan_finding_lines_def Let_def line_splits
    by (intro conjI impI TrueI no_token_Nil hd probe_no_token [OF p] lit_before finding_texts shown_keys f;
        code_simp)
qed

lemma plan_no_token:
  assumes v: "view_clean v"
  shows "list_all no_token (plan_head v @ [''No findings.''])"
    and "list_all no_token (plan_head v @ concat (map plan_finding_lines (list_or (jget ''findings'' v))))"
proof -
  note m = view_members [OF v]
  have lits: "no_token ''HOUSEKEEPER REPORT''" "no_token ''No files changed.''" "no_token ''No findings.''"
    "no_token ''<home>''" "no_token ''plan''"
    by (rule fixed_line, code_simp)+
  have hd: "list_all no_token (plan_head v)"
    unfolding plan_head_def line_splits
    by (intro conjI TrueI no_token_Nil lits tmpl_or_no_token m lit_before; code_simp)
  show "list_all no_token (plan_head v @ [''No findings.''])"
    using hd lits by simp
  show "list_all no_token (plan_head v @ concat (map plan_finding_lines (list_or (jget ''findings'' v))))"
    unfolding list_all_append using hd list_all_concat_map [OF m(1) plan_finding_no_token] by simp
qed

lemma trim_end_no_token: "no_token s \<Longrightarrow> no_token (trim_end s)"
proof -
  have "rev (dropWhile is_space (rev s)) @ rev (takeWhile is_space (rev s)) = s"
    by (metis rev_append rev_rev_ident takeWhile_dropWhile_id)
  then have "sublist (trim_end s) s"
    unfolding trim_end_def by (metis prefixI prefix_imp_sublist)
  then show "no_token s \<Longrightarrow> ?thesis"
    by (rule no_token_sub [rotated])
qed

subsection \<open>The object that --json prints\<close>

definition texts_clean :: "json \<Rightarrow> bool" where
  "texts_clean v = list_all no_token (json_texts v)"

lemma clean_texts: "clean_value v \<Longrightarrow> texts_clean v"
  by (simp add: clean_value_def texts_clean_def)

lemma opt_clean_texts: "opt_clean v \<Longrightarrow> opt_all texts_clean v"
  by (cases v) (simp_all add: opt_all_def clean_texts)

lemma obj_texts: "list_all (\<lambda>kv. opt_all texts_clean (snd kv)) kvs \<Longrightarrow> texts_clean (obj_of kvs)"
  by (induction kvs)
    (auto simp: obj_of_def texts_clean_def opt_all_def List.map_filter_simps split: option.splits)

lemma value_or_texts: "opt_clean v \<Longrightarrow> clean_value d \<Longrightarrow> opt_all texts_clean (value_or v d)"
  using opt_clean_texts [of v] clean_texts [of d] by (simp add: value_or_def opt_all_def)

lemma stripped_texts:
  assumes f: "finding_clean f"
  shows "texts_clean (stripFindingForJson f)"
proof -
  have m: "opt_all texts_clean (jget k f)" if "k \<in> set SHOWN" for k
    by (rule opt_clean_texts [OF shown_member_clean [OF f that]])
  have v: "opt_all texts_clean (value_or (jget ''targetPath'' f) (JStr []))"
    "opt_all texts_clean (value_or (jget ''blockedActions'' f) (JArr []))"
    using f shown_keys by (auto intro!: value_or_texts shown_member_clean)
  show ?thesis
    unfolding stripFindingForJson_def using m v shown_keys
    by (intro obj_texts) (simp add: opt_all_def split del: option.split)
qed

lemma summary_texts:
  assumes "opt_clean v"
  shows "texts_clean (ensureStanceSummary v)"
proof -
  have "texts_clean (stance_count v k)" for k
    using opt_clean_member [OF assms, of k]
    by (cases "member k v") (auto simp: stance_count_def clean_texts)
  then have "list_all no_token (concat (map (\<lambda>k. json_texts (stance_count v k)) ks))" for ks
    by (induction ks) (simp_all add: texts_clean_def)
  then show ?thesis
    by (simp add: ensureStanceSummary_def texts_clean_def o_def)
qed

lemma json_no_token:
  assumes v: "view_clean v"
  shows "texts_clean (json_view v)"
proof -
  note m = view_members [OF v]
  have "list_all no_token (concat (map json_texts (map stripFindingForJson fs)))" if "list_all finding_clean fs" for fs
    using that stripped_texts by (induction fs) (simp_all add: texts_clean_def)
  then have fs: "texts_clean (JArr (map stripFindingForJson (list_or (jget ''findings'' v))))"
    using m(1) by (simp add: texts_clean_def)
  have "no_token ''diagnose''"
    by (rule fixed_line) code_simp
  then have d: "clean_value (JStr ''diagnose'')" "clean_value JNull" "clean_value (JArr [])"
    by simp_all
  show ?thesis
    unfolding json_view_def
  proof (rule obj_texts, unfold list.pred_inject snd_conv, intro conjI TrueI)
    show "opt_all texts_clean (Some (JArr (map stripFindingForJson (list_or (jget ''findings'' v)))))"
      using fs by (simp add: opt_all_def)
    show "opt_all texts_clean (Some (ensureStanceSummary (jget ''stanceSummary'' v)))"
      using summary_texts [OF m(5)] by (simp add: opt_all_def)
    show "opt_all texts_clean (Some (JBool False))"
      by (simp add: opt_all_def texts_clean_def)
  qed (simp_all only: list.pred_inject value_or_texts opt_clean_texts m d)
qed

subsection \<open>Property\<close>

lemma layer_clean:
  "report_ok r \<Longrightarrow> redact \<or> opt_clean (jget ''home'' r) \<Longrightarrow> view_clean (applyRedactionLayer home redact r)"
  unfolding applyRedactionLayer_def by (rule report_redacted)

text \<open>C17: A rendered report shows no provider token, on the terminal, as a plan or as JSON, with
  or without --redact, whatever summaries, paths, reasons, evidence, blocked actions, probes,
  boundaries and degraded entries the audit put into it. What has to be free of tokens
  already are the labels that no redaction touches (ids, classes, stances, the surface
  vocabulary, the mode, the version) and, without --redact, the home path.\<close>

theorem rendered_report_shows_no_token:
  assumes "report_ok r" and "redact \<or> opt_clean (jget ''home'' r)"
  shows "no_token (renderHumanReport home redact r) \<and> no_token (renderPlanReport home redact r) \<and>
    list_all no_token (json_texts (renderJsonReport home redact r))"
proof -
  note v = layer_clean [OF assms, of home]
  have "no_token (renderHumanReport home redact r)"
    unfolding renderHumanReport_def by (rule lines_joined [OF human_no_token [OF v]])
  moreover have "no_token (renderPlanReport home redact r)"
    unfolding renderPlanReport_def Let_def
    by (simp only: lines_joined [OF plan_no_token(1) [OF v]]
        trim_end_no_token [OF lines_joined [OF plan_no_token(2) [OF v]]] split: if_split) simp
  moreover have "list_all no_token (json_texts (renderJsonReport home redact r))"
    using json_no_token [OF v] by (simp add: renderJsonReport_def texts_clean_def)
  ultimately show ?thesis by blast
qed

definition leaky_summary :: string where
  "leaky_summary = ''server run with sk-abcdefghijkl''"

definition leaky_report :: json where
  "leaky_report = JObj
     [(''schemaVersion'', JStr ''0.1''), (''mode'', JStr ''diagnose''), (''home'', JStr ''/h''),
      (''primary'', JStr ''settings.mcp_command_missing''), (''stanceSummary'', JObj [(''probe'', JNum 1)]),
      (''findings'', JArr [JObj
         [(''id'', JStr ''settings.mcp_command_missing''), (''stance'', JStr ''probe''),
          (''summary'', JStr leaky_summary),
          (''evidence'', JObj [(''structural'', JArr [JStr ''arg ghp_0123456789ab'']),
             (''missing'', JArr [JStr ''loader result''])]),
          (''blockedActions'', JArr [JStr ''start-server'']), (''falsePositiveSeenBefore'', JNum 2)]]),
      (''boundaries'', JArr []), (''degraded'', JArr [JStr ''github_pat_abcdefgh1''])]"

theorem rendered_report_shows_no_token_witness:
  "\<not> no_token leaky_summary \<and>
   no_token (renderHumanReport None False leaky_report) \<and> no_token (renderPlanReport None False leaky_report) \<and>
   list_all no_token (json_texts (renderJsonReport None False leaky_report))"
proof -
  have "\<not> no_token leaky_summary"
    by code_simp
  moreover have "report_ok leaky_report"
    by code_simp
  moreover have "opt_clean (jget ''home'' leaky_report)"
    by code_simp
  ultimately show ?thesis
    using rendered_report_shows_no_token [of leaky_report False None] by blast
qed

end
