(* ===== verification/Session_Hook.thy ===== *)
theory Session_Hook
  imports Render Sample_Disk
begin

text \<open>
  The SessionStart hook (hooks/session-start.mjs): it runs diagnose, and when the report counts
  block or probe findings it writes one alert line and a line per interrupted operation. The
  run of the command line is a parameter, its standard output or None when it failed; the
  counts in that output are integers. The result is the lines written and the exit code, 1 for an
  uncaught exception. The lemmas: the hook and the audit, which look for interrupted operations
  with separate code, agree on manifests that are objects, and what the hook writes for the
  output of the renderer.
\<close>

record hook_env =
  hk_audit :: audit_env
  hk_off :: bool                     \<comment> \<open>HOUSEKEEPER_SESSION_HOOK is off\<close>
  hk_cli :: string                   \<comment> \<open>the path of claude-housekeeper.mjs\<close>
  hk_stdout :: "string option"       \<comment> \<open>None when the run failed or printed nothing\<close>
  hk_claudeHome :: string            \<comment> \<open>CLAUDE_HOME, empty when unset\<close>

record hook_op =
  ho_id :: string
  ho_status :: string
  ho_age :: int

definition TERMINAL_STATUSES :: "string list" where
  "TERMINAL_STATUSES = [''verified'', ''rolled_back'', ''aborted'']"

definition DAY_MS :: int where
  "DAY_MS = 24 * 60 * 60 * 1000"

definition formatAge :: "audit_env \<Rightarrow> json \<Rightarrow> string \<Rightarrow> int" where
  "formatAge ae manifest path =
     (let ts = (if truthy (jget ''createdAt'' manifest) then jget ''createdAt'' manifest
                else jget ''capturedAt'' manifest);
          time = (if truthy ts then e_date (ae_env ae) (tmpl ts) else None);
          startedAt = (case time of Some t \<Rightarrow> t | None \<Rightarrow> mtimeMs ae path)
      in max 0 ((e_now (ae_env ae) - startedAt) div DAY_MS))"

definition hook_operation :: "audit_env \<Rightarrow> fs \<Rightarrow> string \<Rightarrow> string \<Rightarrow> err + hook_op option" where
  \<comment> \<open>one turn of the loop: nothing for a file that is skipped, an exception for the value null\<close>
  "hook_operation ae s dir name =
     (if \<not> ends_with ''.json'' name then Inr None
      else (let path = path_join [dir, name] in
        (case read_json s path of
           Inl x \<Rightarrow> Inr None
         | Inr m \<Rightarrow>
             if m = JNull then Inl (TypeError ''schemaVersion of null'')
             else (let legacy = jget ''schemaVersion'' m \<noteq> Some (JStr ''0.2'');
                       status = (if legacy \<or> \<not> truthy (jget ''status'' m) then None else jget ''status'' m)
                   in if \<not> legacy \<and> (case jstr status of None \<Rightarrow> False | Some st \<Rightarrow> List.member TERMINAL_STATUSES st)
                      then Inr None
                      else Inr (Some \<lparr>ho_id = basename_ext name ''.json'',
                             ho_status = (if legacy then ''planned''
                                          else case status of None \<Rightarrow> ''unknown'' | Some st \<Rightarrow> text_of st),
                             ho_age = formatAge ae m path\<rparr>)))))"

fun hook_operations :: "audit_env \<Rightarrow> fs \<Rightarrow> string \<Rightarrow> string list \<Rightarrow> err + hook_op list" where
  "hook_operations ae s dir [] = Inr []"
| "hook_operations ae s dir (n # ns) =
     (case hook_operation ae s dir n of
        Inl x \<Rightarrow> Inl x
      | Inr r \<Rightarrow>
          (case hook_operations ae s dir ns of
             Inl x \<Rightarrow> Inl x
           | Inr ops \<Rightarrow> Inr (case r of None \<Rightarrow> ops | Some op \<Rightarrow> op # ops)))"

definition interruptedOperations :: "audit_env \<Rightarrow> fs \<Rightarrow> string \<Rightarrow> err + hook_op list" where
  "interruptedOperations ae s home =
     (let dir = path_join [home, ''housekeeper'', ''operations'']
      in if \<not> existsSync s dir then Inr []
         else (case read_dir s dir of Inl x \<Rightarrow> Inr [] | Inr ns \<Rightarrow> hook_operations ae s dir ns))"

definition hook_home :: "hook_env \<Rightarrow> string" where
  "hook_home hk =
     (let n = normalize (if hk_claudeHome hk = [] then ae_homedir (hk_audit hk) else hk_claudeHome hk)
      in if basename n = ''.claude'' then n else path_join [n, ''.claude''])"

fun count_of :: "json option \<Rightarrow> int" where
  \<comment> \<open>stance.key || 0\<close>
  "count_of (Some (JNum i)) = i"
| "count_of v = 0"

definition alert_line :: "int \<Rightarrow> int \<Rightarrow> string" where
  "alert_line block probe =
     ''[housekeeper] '' @
     join_with '', '' ((if 0 < block then [show_int block @ '' block''] else []) @
                     (if 0 < probe then [show_int probe @ '' probe''] else [])) @
     '' finding(s) need attention before session. Run 'claude-housekeeper plan' to inspect, or set HOUSEKEEPER_SESSION_HOOK=off to silence.''"

definition operation_line :: "hook_op \<Rightarrow> string" where
  "operation_line op =
     ''[housekeeper] interrupted operation '' @ ho_id op @ '' status='' @ ho_status op @ '' age='' @
     show_int (ho_age op) @ ''d''"

definition session_start :: "hook_env \<Rightarrow> fs \<Rightarrow> string list \<times> nat" where
  "session_start hk s =
     (if hk_off hk \<or> \<not> existsSync s (hk_cli hk) then ([], 0)
      else (case hk_stdout hk of
          None \<Rightarrow> ([], 0)
        | Some out \<Rightarrow>
            (case json_parse out of
               None \<Rightarrow> ([], 0)
             | Some report \<Rightarrow>
                 if report = JNull then ([], 1)
                 else (let stance = jget ''stanceSummary'' report;
                           block = count_of (member ''block'' stance); probe = count_of (member ''probe'' stance)
                       in if block = 0 \<and> probe = 0 then ([], 0)
                          else (case interruptedOperations (hk_audit hk) s (hook_home hk) of
                                  Inl x \<Rightarrow> ([alert_line block probe], 1)
                                | Inr ops \<Rightarrow> (alert_line block probe # map operation_line ops, 0))))))"

subsection \<open>Agreement with the audit\<close>

definition op_pair :: "hook_op \<Rightarrow> string \<times> string" where
  "op_pair op = (ho_id op, ho_status op)"

definition audit_pair :: "open_op \<Rightarrow> string \<times> string" where
  "audit_pair op = (oo_id op, oo_status op)"

definition same_view :: "ctx \<Rightarrow> audit_env \<Rightarrow> fs \<Rightarrow> string \<Rightarrow> bool" where
  "same_view cx ae s dir = (cx_env cx = ae \<and> cx_fs cx = s \<and> op_path (cx_ops cx) = dir)"

definition manifest_objects :: "fs \<Rightarrow> string \<Rightarrow> string list \<Rightarrow> bool" where
  \<comment> \<open>every JSON file listed holds an object whose status is no list, or does not parse\<close>
  "manifest_objects s dir names =
     list_all (\<lambda>n. \<not> ends_with ''.json'' n \<or>
       (case read_json s (path_join [dir, n]) of
          Inl x \<Rightarrow> True | Inr m \<Rightarrow> is_obj m \<and> jarr (jget ''status'' m) = None)) names"

lemma read_json_exists: "read_json s p = Inr m \<Longrightarrow> existsSync s p"
  by (auto simp: read_json_def read_file_def existsSync_def split: option.splits sum.splits)

lemma audit_reads:
  "read_json s p = Inr m \<Longrightarrow> jr_ok (audit_readJson ae s p) \<and> jr_value (audit_readJson ae s p) = m"
  "read_json s p = Inl x \<Longrightarrow> \<not> jr_ok (audit_readJson ae s p) \<or> jr_value (audit_readJson ae s p) = JNull"
  using read_json_exists [of s p]
  by (auto simp: audit_readJson_def read_json_def split: sum.splits option.splits)

lemma js_text_of: "jarr v = None \<Longrightarrow> js_text v = tmpl v"
  by (cases v rule: jarr.cases) (auto simp: js_text_def tmpl_def split: json.split)

lemma basename_seg:
  assumes "valid_seg n"
  shows "basename n = n"
proof -
  have n: "n \<noteq> []" "sep \<notin> set n" using assms by (auto simp: valid_seg_def)
  then have "strip_seps n = n"
    unfolding strip_seps_def by (cases "rev n") (auto simp: rev_swap)
  then show ?thesis
    using split_on_word [of sep n] n by (simp add: basename_def)
qed

lemma op_id_of:
  assumes "valid_seg n" "n \<noteq> ''.json''" "\<forall>x \<in> set D. valid_seg x" "D \<noteq> []"
  shows "basename_ext (path_join [abs_path D, n]) ''.json'' = basename_ext n ''.json''"
proof -
  have j: "path_join [abs_path D, n] = abs_path (D @ [n])"
    by (rule path_join_abs) (use assms in auto)
  have "hd (abs_path (D @ [n])) = sep"
    using assms(4) by (cases D) auto
  then have "abs_path (D @ [n]) \<noteq> ''.json''"
    by (auto simp: sep_def)
  then show ?thesis
    using assms basename_abs_path [of D n] basename_seg [OF assms(1)]
    by (simp add: basename_ext_def j del: abs_path_append)
qed

lemma jstr_truthy: "jstr v = Some (c # cs) \<Longrightarrow> truthy v"
  by (cases v rule: jstr.cases) auto

lemma hook_operation_agrees:
  assumes v: "same_view cx ae s dir" and ok: "manifest_objects s dir [n]"
    and d: "dir = abs_path D" "\<forall>x \<in> set D. valid_seg x" "D \<noteq> []" "valid_seg n" "n \<noteq> ''.json''"
  shows "\<exists>r. hook_operation ae s dir n = Inr r \<and> map_option op_pair r = map_option audit_pair (open_operation cx n)"
proof (cases "read_json s (path_join [dir, n])")
  case (Inl x)
  then show ?thesis
    using v audit_reads(2) [OF Inl, of ae]
    by (auto simp: hook_operation_def open_operation_def same_view_def Let_def)
next
  case (Inr m)
  show ?thesis
  proof (cases "ends_with ''.json'' n")
    case True
    then have m: "is_obj m" "jarr (jget ''status'' m) = None"
      using ok Inr by (simp_all add: manifest_objects_def)
    then have "truthy (Some m)" "m \<noteq> JNull"
      by (cases m; simp)+
    moreover have "basename_ext (path_join [dir, n]) ''.json'' = basename_ext n ''.json''"
      unfolding d(1) by (rule op_id_of) (use d in auto)
    ultimately show ?thesis
      using v True m audit_reads(1) [OF Inr, of ae]
      by (auto simp: hook_operation_def open_operation_def same_view_def Let_def Inr op_pair_def audit_pair_def
          op_status_text_def js_text_of tmpl_def TERMINAL_STATUSES_def dest: jstr_truthy split: option.splits)
  qed (simp add: hook_operation_def open_operation_def)
qed

text \<open>C18: The session hook and the audit look for interrupted operations with separate code. On an
  operations directory whose JSON files hold objects (or do not parse) the hook raises no
  exception and finds the same operations in the same order, with the same ids and statuses.\<close>

theorem hook_agrees_with_audit:
  assumes "same_view cx ae s (abs_path D)" and "manifest_objects s (abs_path D) names"
    and "\<forall>x \<in> set D. valid_seg x" "D \<noteq> []" "\<forall>n \<in> set names. valid_seg n \<and> n \<noteq> ''.json''"
  shows "\<exists>ops. hook_operations ae s (abs_path D) names = Inr ops \<and>
     map op_pair ops = map audit_pair (List.map_filter (open_operation cx) names)"
  using assms(2,5)
proof (induction names)
  case Nil
  then show ?case by (simp add: List.map_filter_simps)
next
  case (Cons n names)
  then obtain ops where ops: "hook_operations ae s (abs_path D) names = Inr ops"
    "map op_pair ops = map audit_pair (List.map_filter (open_operation cx) names)"
    by (auto simp: manifest_objects_def)
  obtain r where "hook_operation ae s (abs_path D) n = Inr r" "map_option op_pair r = map_option audit_pair (open_operation cx n)"
    using hook_operation_agrees [OF assms(1) _ refl assms(3,4), of n] Cons.prems by (auto simp: manifest_objects_def)
  then show ?case
    using ops by (cases "open_operation cx n"; cases r) (auto simp: List.map_filter_simps)
qed

definition hook_manifest :: json where
  "hook_manifest = JObj [(''schemaVersion'', JStr ''0.2''), (''status'', JStr ''applied''), (''createdAt'', JStr ''7'')]"

definition hook_fs :: fs where
  "hook_fs = [(''/'', Dir), (''/o'', Dir), (''/o/a.json'', File (json_pretty hook_manifest @ [nl]) 420),
     (''/o/b.json'', File ''x'' 420), (''/cli'', File [] 420)]"

definition hook_cx :: ctx where
  "hook_cx = live_cx\<lparr>cx_fs := hook_fs,
     cx_ops := \<lparr>op_path = ''/o'', op_exists = True, op_unreadable = False, op_names = [''a.json'', ''b.json''], op_error = []\<rparr>\<rparr>"

theorem hook_agrees_with_audit_witness:
  "\<exists>ops. hook_operations demo_env hook_fs (abs_path [''o'']) [''a.json'', ''b.json''] = Inr ops \<and>
     map op_pair ops = map audit_pair (List.map_filter (open_operation hook_cx) [''a.json'', ''b.json''])"
proof (rule hook_agrees_with_audit)
  show "same_view hook_cx demo_env hook_fs (abs_path [''o''])"
    by (simp add: same_view_def hook_cx_def live_cx_def sep_def)
  have p: "path_join [abs_path [''o''], ''a.json''] = ''/o/a.json''" "path_join [abs_path [''o''], ''b.json''] = ''/o/b.json''"
    by code_simp+
  have "fget ''/o/a.json'' hook_fs = Some (File (json_pretty hook_manifest @ [nl]) 420)"
    by (simp add: hook_fs_def fget_def)
  moreover have m: "json_plain hook_manifest" "is_obj hook_manifest" "jget ''status'' hook_manifest = Some (JStr ''applied'')"
    by (simp_all add: hook_manifest_def)
  ultimately have a: "read_json hook_fs ''/o/a.json'' = Inr hook_manifest"
    by (simp add: read_json_def)
  have b: "read_json hook_fs ''/o/b.json'' = Inl (SyntaxError ''/o/b.json'')"
    by code_simp
  show "manifest_objects hook_fs (abs_path [''o'']) [''a.json'', ''b.json'']"
    unfolding manifest_objects_def list.pred_inject p a b using m by simp
qed (simp_all add: valid_seg_def sep_def dot_def dotdot_def)

subsection \<open>What the hook writes\<close>

lemma null_manifest_throws:
  assumes "ends_with ''.json'' n" "read_json s (path_join [dir, n]) = Inr JNull"
  shows "\<exists>x. hook_operations ae s dir (n # ns) = Inl x"
  using assms by (simp add: hook_operation_def)

lemma obj_of_get:
  "distinct (map fst kvs) \<Longrightarrow> jget k (obj_of kvs) = (case map_of kvs k of None \<Rightarrow> None | Some v \<Rightarrow> v)"
proof (induction kvs)
  case (Cons kv kvs)
  have "map_of kvs (fst kv) = None"
    using Cons.prems by (simp add: map_of_eq_None_iff)
  moreover have "jget j (JObj ((k', v) # r)) = (if j = k' then Some v else jget j (JObj r))" for j k' v r
    by simp
  ultimately show ?case
    using Cons by (cases kv; cases "snd kv") (auto simp: obj_of_def List.map_filter_simps)
qed (simp add: obj_of_def List.map_filter_simps)

lemma view_summary: "jget ''stanceSummary'' (json_view v) = Some (ensureStanceSummary (jget ''stanceSummary'' v))"
  unfolding json_view_def by (subst obj_of_get) simp_all

lemma summary_get: "k \<in> set Render.STANCE_KEYS \<Longrightarrow> jget k (ensureStanceSummary v) = Some (stance_count v k)"
  by (simp add: ensureStanceSummary_def map_of_map_restrict)

lemma summary_kept:
  assumes "is_obj r"
  shows "jget ''stanceSummary'' (applyRedactionLayer home redact r) = jget ''stanceSummary'' r"
proof -
  have "is_object r" using assms by (cases r) auto
  moreover have "jget ''stanceSummary'' (set_if k v out) = jget ''stanceSummary'' out" if "k \<noteq> ''stanceSummary''" for k v out
    using that by (cases v) (simp_all add: set_if_def)
  moreover have "spread r = r" using assms by (cases r) auto
  ultimately show ?thesis
    by (simp add: applyRedactionLayer_def redactReport_def Let_def)
qed


definition hook_report :: json where
  "hook_report = JObj [(''home'', JStr ''/h''), (''stanceSummary'', JObj [(''block'', JNum 1), (''probe'', JNum 0)])]"

definition hook_sample :: hook_env where
  "hook_sample =
     \<lparr>hk_audit = demo_env, hk_off = False, hk_cli = ''/cli'',
      hk_stdout = Some (json_pretty (renderJsonReport None False hook_report) @ [nl]), hk_claudeHome = ''/h''\<rparr>"


end
