(* ===== verification/Repo_Checks.thy ===== *)
theory Repo_Checks
  imports Prelude
begin

text \<open>
  The checks of the repository itself: the scan for forbidden phrases before a commit
  (scripts/pre-commit-check.mjs) and the formatting check (scripts/format-check.mjs). What git
  prints is a parameter: the staged paths and the staged content of a file, None when git fails.
  The result is the exit code. Positions and the window before a word count bytes, as they
  count characters in a text that is ASCII. The main lemma: the cursor loop over the text
  misses no occurrence, so the scan is clean exactly when the text satisfies the rules as they
  are documented.
\<close>

subsection \<open>Vocabulary\<close>

definition FORBIDDEN_PHRASES :: "string list" where
  "FORBIDDEN_PHRASES =
     [''safe to delete'', ''safe cleanup'', ''trash'', ''junk'', ''obviously unused'', ''auto-fix'',
      ''guaranteed rollback'', ''deletion-ready'', ''definitely unused'', ''optimized'',
      ''clean bill of health'', ''fixed everything'', ''rollback guaranteed'']"

record context_rule =
  cr_phrase :: string
  cr_allowed :: "string list"

definition CONTEXTUAL_RULES :: "context_rule list" where
  "CONTEXTUAL_RULES =
     [\<lparr>cr_phrase = ''unused'',
       cr_allowed = [''not referenced'', ''candidate'', ''may be'', ''call '', ''say '', ''label '']\<rparr>,
      \<lparr>cr_phrase = ''healthy'', cr_allowed = [''after verification'', ''live probe'', ''claim '', ''call '']\<rparr>]"

definition ALLOWED_EXTENSIONS :: "string list" where
  "ALLOWED_EXTENSIONS = [''.mjs'', ''.js'', ''.json'', ''.md'', ''.yaml'', ''.yml'', ''.txt'', ''.sh'']"

definition SELF_EXEMPT :: "string list" where
  "SELF_EXEMPT = [''scripts/pre-commit-check.mjs'', ''test/forbidden-language.test.mjs'']"

fun from_last :: "char \<Rightarrow> string \<Rightarrow> string option" where
  \<comment> \<open>s.slice(s.lastIndexOf(c)), None when c does not occur\<close>
  "from_last c [] = None"
| "from_last c (x # xs) =
     (case from_last c xs of Some t \<Rightarrow> Some t | None \<Rightarrow> if x = c then Some (x # xs) else None)"

definition isTextFile :: "string \<Rightarrow> bool" where
  "isTextFile filePath =
     (if List.member SELF_EXEMPT filePath then False
      else (case from_last (CHR ''.'') filePath of
              None \<Rightarrow> False | Some ext \<Rightarrow> List.member ALLOWED_EXTENSIONS (to_lower ext)))"

subsection \<open>scanContent\<close>

definition is_word_char :: "char \<Rightarrow> bool" where
  "is_word_char c = (is_alnum c \<or> c = CHR ''_'')"

definition isWordBoundary :: "string \<Rightarrow> nat \<Rightarrow> nat \<Rightarrow> bool" where
  "isWordBoundary text idx n =
     ((idx = 0 \<or> \<not> is_word_char (text ! (idx - 1))) \<and>
      (length text \<le> idx + n \<or> \<not> is_word_char (text ! (idx + n))))"

definition snippet :: "string \<Rightarrow> nat \<Rightarrow> nat \<Rightarrow> string" where
  "snippet text idx n =
     (let start = idx - 30; stop = min (length text) (idx + n + 30)
      in [CHR 0x22] @ map (\<lambda>c. if c = nl then CHR '' '' else c) (take (stop - start) (drop start text)) @ [CHR 0x22])"

record violation =
  vi_line :: nat
  vi_phrase :: string
  vi_context :: string

definition index_at :: "string \<Rightarrow> string \<Rightarrow> nat \<Rightarrow> nat option" where
  \<comment> \<open>s.indexOf(needle, cursor)\<close>
  "index_at needle s cursor = map_option (\<lambda>k. cursor + k) (index_of needle (drop cursor s))"

fun line_violations :: "nat \<Rightarrow> string list \<Rightarrow> violation list" where
  "line_violations i [] = []"
| "line_violations i (l # ls) =
     List.map_filter (\<lambda>phrase. map_option
         (\<lambda>idx. \<lparr>vi_line = i + 1, vi_phrase = phrase, vi_context = snippet l idx (length phrase)\<rparr>)
         (index_of (to_lower phrase) (to_lower l))) FORBIDDEN_PHRASES @
     line_violations (Suc i) ls"

definition before_window :: "string \<Rightarrow> nat \<Rightarrow> string" where
  \<comment> \<open>lower.slice(Math.max(0, idx - 80), idx)\<close>
  "before_window lower idx = take (idx - (idx - 80)) (drop (idx - 80) lower)"

definition rule_allows :: "context_rule \<Rightarrow> string \<Rightarrow> nat \<Rightarrow> bool" where
  "rule_allows rule lower idx = list_ex (\<lambda>p. contains (to_lower p) (before_window lower idx)) (cr_allowed rule)"

definition line_start :: "string \<Rightarrow> nat \<Rightarrow> nat" where
  \<comment> \<open>content.lastIndexOf("\n", idx - 1) + 1\<close>
  "line_start content idx = idx - length (takeWhile (\<lambda>c. c \<noteq> nl) (rev (take idx content)))"

definition word_violation :: "string \<Rightarrow> context_rule \<Rightarrow> nat \<Rightarrow> violation" where
  "word_violation content rule idx =
     (let start = line_start content idx;
          lineText = takeWhile (\<lambda>c. c \<noteq> nl) (drop start content)
      in \<lparr>vi_line = length (split_on nl (take idx content)), vi_phrase = cr_phrase rule,
          vi_context = snippet lineText (idx - start) (length (cr_phrase rule))\<rparr>)"

fun word_violations :: "nat \<Rightarrow> string \<Rightarrow> context_rule \<Rightarrow> nat \<Rightarrow> violation list" where
  \<comment> \<open>the loop over the text; every turn moves the cursor, so the length of the text is fuel enough\<close>
  "word_violations 0 content rule cursor = []"
| "word_violations (Suc n) content rule cursor =
     (let lower = to_lower content; needle = to_lower (cr_phrase rule) in
      if cursor < length lower
      then (case index_at needle lower cursor of
              None \<Rightarrow> []
            | Some idx \<Rightarrow>
                (let rest = word_violations n content rule (idx + length needle)
                 in if isWordBoundary lower idx (length needle) \<and> \<not> rule_allows rule lower idx
                    then word_violation content rule idx # rest else rest))
      else [])"

definition scanContent :: "string \<Rightarrow> violation list" where
  "scanContent content =
     line_violations 0 (split_on nl content) @
     concat (map (\<lambda>rule. word_violations (length content) content rule 0) CONTEXTUAL_RULES)"

definition staged_files :: "string \<Rightarrow> string list" where
  "staged_files out = filter isTextFile (filter (\<lambda>f. f \<noteq> []) (map trim (split_on nl out)))"

definition precommit_exit :: "string option \<Rightarrow> (string \<Rightarrow> string option) \<Rightarrow> nat" where
  "precommit_exit staged show_staged =
     (case staged of
        None \<Rightarrow> 0
      | Some out \<Rightarrow>
          if list_ex (\<lambda>f. case show_staged f of None \<Rightarrow> False | Some c \<Rightarrow> scanContent c \<noteq> []) (staged_files out)
          then 1 else 0)"

subsection \<open>format-check\<close>

definition badly_formatted :: "string \<Rightarrow> bool" where
  "badly_formatted content =
     (contains [CHR 0x09] content \<or> content \<noteq> [] \<and> \<not> ends_with [nl] content)"

definition format_exit :: "string list \<Rightarrow> (string \<Rightarrow> string) \<Rightarrow> nat" where
  \<comment> \<open>the exit code for the files listed\<close>
  "format_exit files content_of = (if filter (\<lambda>f. badly_formatted (content_of f)) files \<noteq> [] then 1 else 0)"

subsection \<open>The cursor loop misses nothing\<close>

lemma index_from_Some:
  "index_from i p s = Some k \<Longrightarrow>
     i \<le> k \<and> starts_with p (drop (k - i) s) \<and> (\<forall>j < k - i. \<not> starts_with p (drop j s))"
proof (induction s arbitrary: i)
  case Nil
  then show ?case by (auto split: if_splits)
next
  case (Cons c cs)
  show ?case
  proof (cases "starts_with p (c # cs)")
    case True
    then show ?thesis using Cons.prems by simp
  next
    case False
    then have ih: "Suc i \<le> k \<and> starts_with p (drop (k - Suc i) cs) \<and> (\<forall>j < k - Suc i. \<not> starts_with p (drop j cs))"
      using Cons.IH [of "Suc i"] Cons.prems by simp
    then have "k - i = Suc (k - Suc i)" by linarith
    moreover have "\<not> starts_with p (drop j (c # cs))" if "j < Suc (k - Suc i)" for j
      using that False ih by (cases j) auto
    ultimately show ?thesis using ih by simp
  qed
qed

lemma index_at_Some:
  "index_at p s c = Some k \<Longrightarrow> c \<le> k \<and> starts_with p (drop k s) \<and> (\<forall>j. c \<le> j \<longrightarrow> j < k \<longrightarrow> \<not> starts_with p (drop j s))"
proof -
  assume "index_at p s c = Some k"
  then obtain m where m: "index_from 0 p (drop c s) = Some m" "k = c + m"
    by (auto simp: index_at_def index_of_def)
  from index_from_Some [OF m(1)] have f: "starts_with p (drop m (drop c s))" "\<forall>j < m. \<not> starts_with p (drop j (drop c s))"
    by simp_all
  have "\<not> starts_with p (drop j s)" if "c \<le> j" "j < k" for j
    using f(2) [rule_format, of "j - c"] that m(2) by simp
  then show ?thesis using f(1) m(2) by (simp add: add.commute)
qed

lemma index_at_None: "index_at p s c = None \<Longrightarrow> c \<le> j \<Longrightarrow> \<not> starts_with p (drop j s)"
proof
  assume n: "index_at p s c = None" and c: "c \<le> j" and p: "starts_with p (drop j s)"
  then obtain t where "drop j s = p @ t"
    by (auto simp: starts_with_iff)
  then have "drop (j - c) (drop c s) = p @ t"
    using c by simp
  then have "drop c s = take (j - c) (drop c s) @ p @ t"
    by (metis append_take_drop_id)
  then have "contains p (drop c s)"
    unfolding includes_iff by blast
  then show False
    using n by (simp add: index_at_def index_of_def index_from_None)
qed

definition hit :: "string \<Rightarrow> string \<Rightarrow> nat \<Rightarrow> bool" where
  "hit needle lower idx = (starts_with needle (drop idx lower) \<and> isWordBoundary lower idx (length needle))"

lemma no_hit_inside:
  assumes "starts_with needle (drop idx lower)" "\<forall>c \<in> set needle. is_word_char c" "idx < j" "j < idx + length needle"
  shows "\<not> hit needle lower j"
proof -
  obtain t where t: "drop idx lower = needle @ t"
    using assms(1) by (auto simp: starts_with_iff)
  then have "idx < length lower"
    using assms(3,4) by (cases "idx < length lower") auto
  then have "lower ! (j - 1) = (needle @ t) ! (j - 1 - idx)"
    using assms(3) by (simp add: t [symmetric])
  also have "\<dots> = needle ! (j - 1 - idx)"
  proof -
    have "j - 1 - idx < length needle" using assms(3,4) by linarith
    then show ?thesis by (simp only: nth_append if_True)
  qed
  finally have "is_word_char (lower ! (j - 1))"
    using assms(2-4) by simp
  then show ?thesis
    using assms(3) by (simp add: hit_def isWordBoundary_def)
qed

lemma word_violations_Nil:
  fixes content rule
  defines "lower \<equiv> to_lower content" and "needle \<equiv> to_lower (cr_phrase rule)"
  assumes "needle \<noteq> []" and "\<forall>c \<in> set needle. is_word_char c"
  shows "length lower \<le> cursor + n \<Longrightarrow> word_violations n content rule cursor = [] \<longleftrightarrow>
     (\<forall>j \<ge> cursor. hit needle lower j \<longrightarrow> rule_allows rule lower j)"
proof (induction n arbitrary: cursor)
  case 0
  have "\<not> hit needle lower j" if "cursor \<le> j" for j
    using 0 that assms(3) by (auto simp: hit_def starts_with_iff)
  then show ?case by simp
next
  case (Suc n)
  show ?case
  proof (cases "index_at needle lower cursor")
    case None
    then have "\<not> hit needle lower j" if "cursor \<le> j" for j
      using index_at_None that by (simp add: hit_def)
    then show ?thesis
      using None by (simp add: Let_def flip: lower_def needle_def)
  next
    case (Some idx)
    note first = index_at_Some [OF Some]
    have "idx < length lower"
      using first assms(3) by (cases "idx < length lower") (auto simp: starts_with_iff)
    then have "length lower \<le> idx + length needle + n" and c: "cursor < length lower"
      using Suc.prems first assms(3) by (cases needle; simp)+
    note ih = Suc.IH [OF this(1)]
    have "(\<forall>j \<ge> cursor. hit needle lower j \<longrightarrow> rule_allows rule lower j) \<longleftrightarrow>
        (hit needle lower idx \<longrightarrow> rule_allows rule lower idx) \<and>
        (\<forall>j \<ge> idx + length needle. hit needle lower j \<longrightarrow> rule_allows rule lower j)" (is "?L \<longleftrightarrow> ?R")
    proof
      assume ?L
      then show ?R using first by auto
    next
      assume r: ?R
      show ?L
      proof (intro allI impI)
        fix j
        assume j: "cursor \<le> j" "hit needle lower j"
        consider "j < idx" | "j = idx" | "idx < j" "j < idx + length needle" | "idx + length needle \<le> j"
          by linarith
        then show "rule_allows rule lower j"
          using r j first no_hit_inside [OF _ assms(4), of idx lower j] by cases (auto simp: hit_def)
      qed
    qed
    then show ?thesis
      using Some c ih first by (auto simp: Let_def hit_def simp flip: lower_def needle_def)
  qed
qed

subsection \<open>Property\<close>

definition whole_word :: "string \<Rightarrow> string \<Rightarrow> bool" where
  \<comment> \<open>the text before and the text after a word do not continue it\<close>
  "whole_word a b = ((a = [] \<or> \<not> is_word_char (last a)) \<and> (b = [] \<or> \<not> is_word_char (hd b)))"

definition excused :: "context_rule \<Rightarrow> string \<Rightarrow> bool" where
  \<comment> \<open>one of the allowed phrases stands in the last 80 characters before the word\<close>
  "excused rule a = list_ex (\<lambda>p. contains p (drop (length a - 80) a)) (cr_allowed rule)"

lemma rules_lower:
  "rule \<in> set CONTEXTUAL_RULES \<Longrightarrow> to_lower (cr_phrase rule) = cr_phrase rule \<and> cr_phrase rule \<noteq> []
    \<and> list_all is_word_char (cr_phrase rule) \<and> list_all (\<lambda>p. to_lower p = p) (cr_allowed rule)"
proof -
  have "list_all (\<lambda>rule. to_lower (cr_phrase rule) = cr_phrase rule \<and> cr_phrase rule \<noteq> []
    \<and> list_all is_word_char (cr_phrase rule) \<and> list_all (\<lambda>p. to_lower p = p) (cr_allowed rule)) CONTEXTUAL_RULES"
    by code_simp
  then show "rule \<in> set CONTEXTUAL_RULES \<Longrightarrow> ?thesis" by (simp add: list_all_iff)
qed

lemma phrases_lower: "phrase \<in> set FORBIDDEN_PHRASES \<Longrightarrow> to_lower phrase = phrase"
proof -
  have "list_all (\<lambda>phrase. to_lower phrase = phrase) FORBIDDEN_PHRASES"
    by code_simp
  then show "phrase \<in> set FORBIDDEN_PHRASES \<Longrightarrow> ?thesis" by (simp add: list_all_iff)
qed

lemma index_from_contains: "index_from i p s = Some k \<Longrightarrow> contains p s"
  using index_from_None [of i p s] by auto

lemma line_violations_Nil:
  "line_violations i ls = [] \<longleftrightarrow> (\<forall>l \<in> set ls. \<forall>p \<in> set FORBIDDEN_PHRASES. \<not> contains p (to_lower l))"
proof (induction ls arbitrary: i)
  case (Cons l ls)
  have "List.map_filter (\<lambda>phrase. map_option (f phrase) (index_of (to_lower phrase) (to_lower l))) ps = []
      \<longleftrightarrow> (\<forall>p \<in> set ps. \<not> contains (to_lower p) (to_lower l))" for ps and f :: "string \<Rightarrow> nat \<Rightarrow> violation"
    by (induction ps) (auto simp: List.map_filter_simps index_of_def index_from_None dest: index_from_contains split: option.splits)
  then show ?case
    using Cons phrases_lower by simp
qed simp

lemma boundary_split:
  assumes "needle \<noteq> []"
  shows "isWordBoundary (a @ needle @ b) (length a) (length needle) = whole_word a b"
proof -
  have "a \<noteq> [] \<Longrightarrow> (a @ needle @ b) ! (length a - 1) = last a"
    by (simp add: nth_append last_conv_nth)
  moreover have "b \<noteq> [] \<Longrightarrow> (a @ needle @ b) ! (length a + length needle) = hd b"
    by (simp add: nth_append hd_conv_nth)
  ultimately show ?thesis
    by (cases "a = []"; cases "b = []") (simp_all add: isWordBoundary_def whole_word_def)
qed

lemma hit_iff:
  assumes n: "needle \<noteq> []"
  shows "hit needle lower idx \<longleftrightarrow> (\<exists>a b. lower = a @ needle @ b \<and> length a = idx \<and> whole_word a b)"
proof
  assume h: "hit needle lower idx"
  then obtain b where b: "drop idx lower = needle @ b"
    unfolding hit_def starts_with_iff by blast
  have l: "length (take idx lower) = idx"
    using arg_cong [OF b, of length] n by (cases needle) auto
  have s: "lower = take idx lower @ needle @ b"
    using append_take_drop_id [of idx lower] unfolding b by (rule sym)
  have "isWordBoundary (take idx lower @ needle @ b) (length (take idx lower)) (length needle)"
    using h unfolding hit_def l s [symmetric] by (rule conjunct2)
  then have "whole_word (take idx lower) b"
    unfolding boundary_split [OF n] .
  then show "\<exists>a b. lower = a @ needle @ b \<and> length a = idx \<and> whole_word a b"
    using s l by blast
next
  assume "\<exists>a b. lower = a @ needle @ b \<and> length a = idx \<and> whole_word a b"
  then obtain a b where ab: "lower = a @ needle @ b" "length a = idx" "whole_word a b"
    by blast
  have "isWordBoundary lower idx (length needle)"
    unfolding ab(1) ab(2) [symmetric] boundary_split [OF n] by (rule ab(3))
  moreover have "drop idx lower = needle @ b"
    unfolding ab(1) ab(2) [symmetric] by simp
  ultimately show "hit needle lower idx"
    by (simp add: hit_def)
qed

lemma allows_iff:
  assumes "rule \<in> set CONTEXTUAL_RULES" "lower = a @ rest"
  shows "rule_allows rule lower (length a) = excused rule a"
proof -
  have "before_window lower (length a) = drop (length a - 80) a"
    using assms(2) by (simp add: before_window_def)
  moreover have "list_all (\<lambda>p. to_lower p = p) ps \<Longrightarrow> list_ex (\<lambda>p. P (to_lower p)) ps = list_ex P ps" for P ps
    by (induction ps) auto
  from this [of "cr_allowed rule" "\<lambda>p. contains p (drop (length a - 80) a)"]
  have "list_ex (\<lambda>p. contains (to_lower p) (drop (length a - 80) a)) (cr_allowed rule) = excused rule a"
    using rules_lower [OF assms(1)] by (simp add: excused_def)
  ultimately show ?thesis
    by (simp add: rule_allows_def)
qed

text \<open>C20: The forbidden-language scan reports nothing exactly when the text keeps the documented
  rules: no line contains a forbidden phrase, in whatever case, and every whole-word occurrence
  of a contextual word has one of its allowed phrases among the 80 characters before it. The
  loop that jumps from match to match misses no occurrence.\<close>

theorem scan_clean_iff:
  "scanContent content = [] \<longleftrightarrow>
     (\<forall>l \<in> set (split_on nl content). \<forall>p \<in> set FORBIDDEN_PHRASES. \<not> contains p (to_lower l)) \<and>
     (\<forall>rule \<in> set CONTEXTUAL_RULES. \<forall>a b. to_lower content = a @ cr_phrase rule @ b \<and> whole_word a b \<longrightarrow> excused rule a)"
proof -
  have "word_violations (length content) content rule 0 = [] \<longleftrightarrow>
      (\<forall>a b. to_lower content = a @ cr_phrase rule @ b \<and> whole_word a b \<longrightarrow> excused rule a)"
    if r: "rule \<in> set CONTEXTUAL_RULES" for rule
  proof -
    note low = rules_lower [OF r]
    have "word_violations (length content) content rule 0 = [] \<longleftrightarrow>
        (\<forall>j. hit (cr_phrase rule) (to_lower content) j \<longrightarrow> rule_allows rule (to_lower content) j)"
    proof -
      have "length (to_lower content) \<le> 0 + length content" by (simp add: to_lower_def)
      from word_violations_Nil [OF _ _ this, of rule] show ?thesis
        using low by (simp add: list_all_iff)
    qed
    also have "\<dots> \<longleftrightarrow> (\<forall>a b. to_lower content = a @ cr_phrase rule @ b \<and> whole_word a b \<longrightarrow> excused rule a)"
      using hit_iff [of "cr_phrase rule" "to_lower content"] low allows_iff [OF r] by metis
    finally show ?thesis .
  qed
  then show ?thesis
    by (simp add: scanContent_def line_violations_Nil)
qed

theorem scan_clean_iff_witness:
  "scanContent ''may be unused'' = [] \<and> excused (hd CONTEXTUAL_RULES) ''may be ''"
proof -
  have c: "scanContent ''may be unused'' = []"
    by code_simp
  have "hd CONTEXTUAL_RULES \<in> set CONTEXTUAL_RULES"
    by (simp add: CONTEXTUAL_RULES_def)
  moreover have "to_lower ''may be unused'' = ''may be '' @ cr_phrase (hd CONTEXTUAL_RULES) @ []"
    "whole_word ''may be '' []"
    by code_simp+
  ultimately show ?thesis
    using c scan_clean_iff [of "''may be unused''"] by blast
qed

lemma scan_examples:
  "scanContent ''an unused plugin'' \<noteq> []" "scanContent ''a candidate for unused'' = []" "scanContent ''Trash'' \<noteq> []"
  by code_simp+

end
