(* ===== verification/Cli_Args.thy ===== *)
theory Cli_Args
  imports Audit_Core Harden "HOL-Library.List_Lexorder" "HOL-Library.Char_ord"
begin

text \<open>
  The command line of the program (scripts/claude-housekeeper.mjs): the conversion Number() of
  an option value, parseArgs with its loop over the arguments and its checks after the loop,
  resolveClaudeHome and pickMode. A parse error is the message of the error thrown. Numbers are
  exact decimals: a numeral outside the range of a double is not rounded.
\<close>

subsection \<open>Number()\<close>

datatype js_num = NaN | Infinite | Fin int int   \<comment> \<open>Fin m e is m times ten to the e\<close>

definition radix_digit :: "nat \<Rightarrow> char \<Rightarrow> nat option" where
  "radix_digit b c =
     (let n = of_char (lower_char c) :: nat;
          v = (if is_digit c then n - 48 else if 97 \<le> n \<and> n \<le> 102 then n - 87 else 99)
      in if v < b then Some v else None)"

fun radix_value :: "nat \<Rightarrow> int \<Rightarrow> string \<Rightarrow> js_num" where
  "radix_value b acc [] = Fin acc 0"
| "radix_value b acc (c # cs) =
     (case radix_digit b c of None \<Rightarrow> NaN | Some d \<Rightarrow> radix_value b (int b * acc + int d) cs)"

definition radix_number :: "nat \<Rightarrow> string \<Rightarrow> js_num" where
  "radix_number b ds = (if ds = [] then NaN else radix_value b 0 ds)"

definition exponent_part :: "string \<Rightarrow> int option" where
  "exponent_part t =
     (case t of
        [] \<Rightarrow> Some 0
      | c # r \<Rightarrow>
          if lower_char c \<noteq> CHR ''e'' then None
          else (let ds = (if starts_with ''-'' r \<or> starts_with ''+'' r then drop 1 r else r)
                in if ds = [] \<or> \<not> list_all is_digit ds then None
                   else Some (if starts_with ''-'' r then - int (read_nat ds) else int (read_nat ds))))"

definition decimal_number :: "int \<Rightarrow> string \<Rightarrow> js_num" where
  "decimal_number sg t =
     (if t = ''Infinity'' then Infinite
      else let ip = takeWhile is_digit t; r = dropWhile is_digit t;
               fp = (if starts_with ''.'' r then takeWhile is_digit (drop 1 r) else []);
               r2 = (if starts_with ''.'' r then dropWhile is_digit (drop 1 r) else r)
           in if ip = [] \<and> fp = [] then NaN
              else (case exponent_part r2 of
                      None \<Rightarrow> NaN
                    | Some e \<Rightarrow> Fin (sg * int (read_nat (ip @ fp))) (e - int (length fp))))"

definition js_number :: "string \<Rightarrow> js_num" where
  "js_number raw =
     (let t = trim raw; p = to_lower (take 2 t)
      in if t = [] then Fin 0 0
         else if p = ''0x'' then radix_number 16 (drop 2 t)
         else if p = ''0o'' then radix_number 8 (drop 2 t)
         else if p = ''0b'' then radix_number 2 (drop 2 t)
         else if starts_with ''-'' t then decimal_number (- 1) (drop 1 t)
         else if starts_with ''+'' t then decimal_number 1 (drop 1 t)
         else decimal_number 1 t)"

fun positive_num :: "js_num \<Rightarrow> bool" where
  "positive_num (Fin m e) = (0 < m)"
| "positive_num _ = False"

fun integer_num :: "js_num \<Rightarrow> int option" where
  \<comment> \<open>Number.isInteger, with the integer\<close>
  "integer_num (Fin m e) =
     (if 0 \<le> e then Some (m * 10 ^ nat e)
      else if m mod 10 ^ nat (- e) = 0 then Some (m div 10 ^ nat (- e)) else None)"
| "integer_num _ = None"

definition positive_integer :: "string \<Rightarrow> int option" where
  "positive_integer raw =
     (case integer_num (js_number raw) of Some n \<Rightarrow> if 0 < n then Some n else None | None \<Rightarrow> None)"

fun limit_of :: "js_num \<Rightarrow> int option" where
  \<comment> \<open>the walk compares a counter with the limit, so a fraction acts as its ceiling; the
      default replaces what is not finite\<close>
  "limit_of (Fin m e) = Some (if 0 \<le> e then m * 10 ^ nat e else - ((- m) div 10 ^ nat (- e)))"
| "limit_of _ = None"

subsection \<open>The options\<close>

record cli_opts =
  op_command :: string
  op_json :: bool
  op_confirm :: bool
  op_yes :: bool
  op_safe :: bool
  op_redact :: bool
  op_dryRun :: bool
  op_scope :: string
  op_home :: string
  op_configPath :: "string option"
  op_rollbackId :: string                 \<comment> \<open>null and the empty string are both falsy\<close>
  op_rollbackStreamId :: string
  op_scanLimits :: "js_num option"
  op_targets :: "string list"
  op_paths :: "string list"
  op_batchCap :: "int option"
  op_stream :: bool
  op_resumeStreamId :: string
  op_abort :: bool
  op_timeoutSeconds :: js_num
  op_prune :: bool
  op_olderThan :: "int option"
  op_markFalsePositive :: string
  op_rewrite :: "(string \<times> string) option"

definition VALID_COMMANDS :: "string list" where
  "VALID_COMMANDS = [''diagnose'', ''plan'', ''clean'', ''verify'', ''harden'', ''rollback'', ''learn'', ''prune'']"

definition PENDING :: string where
  "PENDING = ''__PENDING__''"

definition default_options :: "string \<Rightarrow> string \<Rightarrow> cli_opts" where
  "default_options command home =
     \<lparr>op_command = command, op_json = False, op_confirm = False, op_yes = False, op_safe = False,
      op_redact = False, op_dryRun = False, op_scope = ''all'', op_home = home, op_configPath = None,
      op_rollbackId = [], op_rollbackStreamId = [], op_scanLimits = None, op_targets = [],
      op_paths = [], op_batchCap = None, op_stream = False, op_resumeStreamId = [], op_abort = False,
      op_timeoutSeconds = Fin 0 0, op_prune = False, op_olderThan = None, op_markFalsePositive = [],
      op_rewrite = None\<rparr>"

definition flag_value :: "string \<Rightarrow> string \<Rightarrow> string option" where
  \<comment> \<open>arg.startsWith(flag), then arg.slice(flag.length)\<close>
  "flag_value flag arg = (if starts_with flag arg then Some (drop (length flag) arg) else None)"

definition plain_flag :: "string \<Rightarrow> cli_opts \<Rightarrow> cli_opts option" where
  "plain_flag arg op =
     (if arg = ''--json'' then Some (op\<lparr>op_json := True\<rparr>)
      else if arg = ''--confirm'' then Some (op\<lparr>op_confirm := True\<rparr>)
      else if arg = ''--yes'' then Some (op\<lparr>op_yes := True\<rparr>)
      else if arg = ''--dry-run'' then Some (op\<lparr>op_dryRun := True\<rparr>)
      else if arg = ''--abort'' then Some (op\<lparr>op_abort := True\<rparr>)
      else if arg = ''--safe'' then Some (op\<lparr>op_safe := True\<rparr>)
      else if arg = ''--redact'' then Some (op\<lparr>op_redact := True\<rparr>)
      else if arg = ''--stream'' then Some (op\<lparr>op_stream := True\<rparr>)
      else None)"

definition text_flag :: "string \<Rightarrow> cli_opts \<Rightarrow> cli_opts option" where
  "text_flag arg op =
     (case flag_value ''--scope='' arg of Some v \<Rightarrow> Some (op\<lparr>op_scope := v\<rparr>) | None \<Rightarrow>
     (case flag_value ''--home='' arg of Some v \<Rightarrow> Some (op\<lparr>op_home := v\<rparr>) | None \<Rightarrow>
     (case flag_value ''--config='' arg of Some v \<Rightarrow> Some (op\<lparr>op_configPath := Some v\<rparr>) | None \<Rightarrow>
     (case flag_value ''--max-files='' arg of Some v \<Rightarrow> Some (op\<lparr>op_scanLimits := Some (js_number v)\<rparr>) | None \<Rightarrow>
     (case flag_value ''--target='' arg of Some v \<Rightarrow> Some (op\<lparr>op_targets := op_targets op @ [v]\<rparr>) | None \<Rightarrow>
     (case flag_value ''--path='' arg of Some v \<Rightarrow> Some (op\<lparr>op_paths := op_paths op @ [v]\<rparr>) | None \<Rightarrow>
     (case flag_value ''--resume='' arg of Some v \<Rightarrow> Some (op\<lparr>op_resumeStreamId := v\<rparr>) | None \<Rightarrow>
      None)))))))"

definition number_flag :: "string \<Rightarrow> cli_opts \<Rightarrow> (string + cli_opts) option" where
  "number_flag arg op =
     (case flag_value ''--batch='' arg of
        Some v \<Rightarrow> Some (case positive_integer v of
            None \<Rightarrow> Inl (''Invalid --batch value: '' @ v @ '' '' @ em_dash @ '' must be a positive integer.'')
          | Some n \<Rightarrow> Inr (op\<lparr>op_batchCap := Some n\<rparr>))
      | None \<Rightarrow>
     (case flag_value ''--timeout='' arg of
        Some v \<Rightarrow> Some (if positive_num (js_number v) then Inr (op\<lparr>op_timeoutSeconds := js_number v\<rparr>)
            else Inl (''Invalid --timeout value: '' @ v @ '' '' @ em_dash @ '' must be a positive number of seconds.''))
      | None \<Rightarrow> None))"

definition late_flag :: "string \<Rightarrow> cli_opts \<Rightarrow> string + cli_opts" where
  "late_flag arg op =
     (if arg = ''--prune'' then Inr (op\<lparr>op_prune := True\<rparr>)
      else case flag_value ''--older-than='' arg of
        Some v \<Rightarrow> (case positive_integer v of
            None \<Rightarrow> Inl (''Invalid --older-than value: '' @ v @ '' '' @ em_dash @ '' must be a positive integer number of days.'')
          | Some n \<Rightarrow> Inr (op\<lparr>op_olderThan := Some n\<rparr>))
      | None \<Rightarrow>
          if arg = ''--mark-false-positive'' then Inr (op\<lparr>op_markFalsePositive := PENDING\<rparr>)
          else if op_command op = ''learn'' \<and> op_markFalsePositive op = PENDING
          then Inr (op\<lparr>op_markFalsePositive := arg\<rparr>)
          else (case flag_value ''--mcp-command-rewrite='' arg of
              Some v \<Rightarrow> (case parseMcpCommandRewrite v of
                           Inl x \<Rightarrow> Inl x | Inr r \<Rightarrow> Inr (op\<lparr>op_rewrite := Some r\<rparr>))
            | None \<Rightarrow> Inl (''Unknown argument: '' @ arg @ '' '' @ em_dash @ '' run `claude-housekeeper --help` for usage.'')))"

definition parse_arg :: "string \<Rightarrow> cli_opts \<Rightarrow> string + cli_opts" where
  \<comment> \<open>one turn of the loop, the branches in the order of the code\<close>
  "parse_arg arg op =
     (case plain_flag arg op of Some op' \<Rightarrow> Inr op' | None \<Rightarrow>
     (case text_flag arg op of Some op' \<Rightarrow> Inr op' | None \<Rightarrow>
     (case number_flag arg op of Some r \<Rightarrow> r | None \<Rightarrow>
        if op_command op = ''rollback'' \<and> starts_with ''--stream='' arg
        then Inr (op\<lparr>op_rollbackStreamId := drop (length ''--stream='') arg\<rparr>)
        else if op_command op = ''rollback'' \<and> op_rollbackId op = [] then Inr (op\<lparr>op_rollbackId := arg\<rparr>)
        else late_flag arg op)))"

fun parse_loop :: "string list \<Rightarrow> cli_opts \<Rightarrow> string + cli_opts" where
  "parse_loop [] op = Inr op"
| "parse_loop (a # as) op = (case parse_arg a op of Inl x \<Rightarrow> Inl x | Inr op' \<Rightarrow> parse_loop as op')"

definition op_pairs :: "cli_opts \<Rightarrow> (string \<times> string) list" where
  "op_pairs op = zip (op_targets op) (op_paths op)"

definition op_single :: "(cli_opts \<Rightarrow> string list) \<Rightarrow> cli_opts \<Rightarrow> string" where
  \<comment> \<open>options.target and options.path: the one given, otherwise null\<close>
  "op_single sel op = (if length (op_targets op) = 1 then hd (sel op) else [])"

definition op_isBatch :: "cli_opts \<Rightarrow> bool" where
  "op_isBatch op = (1 < length (op_pairs op) \<or> op_batchCap op \<noteq> None)"

definition le_sign :: string where
  \<comment> \<open>the bytes of U+2264\<close>
  "le_sign = [CHR 0xE2, CHR 0x89, CHR 0xA4]"

definition batch_message :: "int option \<Rightarrow> string" where
  "batch_message cap =
     ''Invalid --batch value: '' @ (case cap of Some n \<Rightarrow> show_int n | None \<Rightarrow> ''null'') @ '' '' @ em_dash
     @ '' must be a positive integer '' @ le_sign @ '' '' @ show_int BATCH_MAX_PAIRS @ ''. Use --stream for larger batches.''"

definition chunk_cap_message :: "int option \<Rightarrow> string" where
  "chunk_cap_message cap =
     (let n = (case cap of Some n \<Rightarrow> show_int n | None \<Rightarrow> ''null'')
      in ''stream-chunk-budget-exceeded: --stream requires --batch=N where N > '' @ show_nat STREAM_CHUNK_SIZE
         @ ''. For '' @ n @ '' or fewer pairs, omit --stream and use the standard batch path.'')"

definition chunk_pairs_message :: "nat \<Rightarrow> string" where
  "chunk_pairs_message n =
     ''stream-chunk-budget-exceeded: --stream is only useful when processing more than '' @ show_nat STREAM_CHUNK_SIZE
     @ '' pairs. You have '' @ show_nat n @ ''. Omit --stream for this batch.''"

definition resume_message :: string where
  "resume_message = ''stream-resume-not-supported: Resuming a halted stream is not supported in v0.4. Roll back completed chunks with `claude-housekeeper rollback --stream=<streamId>` and restart.''"

definition check_options :: "cli_opts \<Rightarrow> string option" where
  \<comment> \<open>the checks after the loop; Some is the message of the error thrown\<close>
  "check_options op =
     (if length (op_targets op) \<noteq> length (op_paths op)
      then Some (''--target and --path must be paired (got '' @ show_nat (length (op_targets op)) @ '' target(s) and ''
                 @ show_nat (length (op_paths op)) @ '' path(s)).'')
      else case find (\<lambda>t. t \<notin> set KNOWN_DETECTORS) (op_targets op) of
        Some t \<Rightarrow> Some (''Unknown --target='' @ t @ ''. Valid detector ids: '' @ join_with '', '' (sort (remdups KNOWN_DETECTORS)) @ ''.'')
      | None \<Rightarrow>
          let cap = op_batchCap op; chunk = int STREAM_CHUNK_SIZE
          in if \<not> op_stream op \<and> (case cap of Some n \<Rightarrow> BATCH_MAX_PAIRS < n | None \<Rightarrow> False)
             then Some (batch_message cap)
             else if op_stream op \<and> (case cap of Some n \<Rightarrow> n \<le> chunk | None \<Rightarrow> False)
             then Some (chunk_cap_message cap)
             else if op_stream op \<and> op_pairs op \<noteq> [] \<and> int (length (op_pairs op)) \<le> chunk \<and> cap = None
             then Some (chunk_pairs_message (length (op_pairs op)))
             else if op_resumeStreamId op \<noteq> [] then Some resume_message
             else None)"

datatype parsed = Help | Version | Run cli_opts

definition parseArgs :: "string \<Rightarrow> string list \<Rightarrow> string + parsed" where
  \<comment> \<open>home: CLAUDE_HOME, or the home directory of the user\<close>
  "parseArgs home argv =
     (case find (\<lambda>a. a \<in> {''--help'', ''-h'', ''--version'', ''-v''}) argv of
        Some a \<Rightarrow> Inr (if a = ''--help'' \<or> a = ''-h'' then Help else Version)
      | None \<Rightarrow>
          let known = (argv \<noteq> [] \<and> hd argv \<in> set VALID_COMMANDS)
          in (case parse_loop (if known then tl argv else argv)
                     (default_options (if known then hd argv else ''diagnose'') home) of
                Inl x \<Rightarrow> Inl x
              | Inr op \<Rightarrow> (case check_options op of Some x \<Rightarrow> Inl x | None \<Rightarrow> Inr (Run op))))"

definition resolveClaudeHome :: "string \<Rightarrow> string" where
  "resolveClaudeHome input =
     (let n = normalize input
      in if basename n = ''.claude'' then n else path_join [n, ''.claude''])"

definition pickMode :: "cli_opts \<Rightarrow> mode" where
  "pickMode op =
     (if op_safe op then Safe else if op_command op = ''plan'' then Plan else Diagnose)"

end
