(* ===== verification/Cli.thy ===== *)
theory Cli
  imports Cli_Args Report Rollback Regex Clean_Exec
begin

text \<open>
  The commands of the program (scripts/claude-housekeeper.mjs): every run function as an action
  on the file system with the exit code as its result, and the dispatcher with its flag gates.
  The text printed is not modelled, nor is the deadline timer of --timeout; an error that
  reaches the dispatcher is exit code 2. An exit code that a branch leaves unset is 0. The
  external claude binary of verify is a parameter: the status and the output of a run.
\<close>

record cli_env =
  ce_harden :: harden_env
  ce_claudeHome :: string                        \<comment> \<open>CLAUDE_HOME, empty when unset\<close>
  ce_homedir :: string
  ce_rbHex :: string                             \<comment> \<open>the suffix of the write of a rollback manifest\<close>
  ce_learnHex :: "nat \<Rightarrow> string"
  ce_spawn :: "string list \<Rightarrow> int option \<times> string"  \<comment> \<open>status and trimmed output of spawnSync\<close>

abbreviation cexec :: "cli_env \<Rightarrow> exec_env" where
  "cexec ce \<equiv> he_exec (ce_harden ce)"

abbreviation cenv :: "cli_env \<Rightarrow> env" where
  "cenv ce \<equiv> xenv (cexec ce)"

abbreviation caudit :: "cli_env \<Rightarrow> audit_env" where
  "caudit ce \<equiv> xe_audit (cexec ce)"

definition catchI :: "'a io \<Rightarrow> (err \<Rightarrow> 'a io) \<Rightarrow> 'a io" where
  "catchI m h s = (case m s of (Inl x, s') \<Rightarrow> h x s' | r \<Rightarrow> r)"

subsection \<open>diagnose and plan\<close>

definition report_options :: "cli_opts \<Rightarrow> audit_opts" where
  "report_options op =
     \<lparr>ao_scope = op_scope op, ao_mode = pickMode op, ao_configPath = op_configPath op,
      ao_maxFiles = (case op_scanLimits op of None \<Rightarrow> None | Some n \<Rightarrow> limit_of n),
      ao_maxBytes = None, ao_maxWallMs = None, ao_historyFile = []\<rparr>"

definition report_of_options :: "cli_env \<Rightarrow> cli_opts \<Rightarrow> report io" where
  "report_of_options ce op = liftI (assembleReport (caudit ce) (op_home op) (report_options op))"

definition runDiagnose :: "cli_env \<Rightarrow> cli_opts \<Rightarrow> nat io" where
  "runDiagnose ce op =
     bindI (report_of_options ce op) (\<lambda>rep. returnI (if 0 < r_stanceSummary rep Block then 1 else 0))"

definition runPlan :: "cli_env \<Rightarrow> cli_opts \<Rightarrow> nat io" where
  "runPlan ce op = bindI (report_of_options ce op) (\<lambda>_. returnI 0)"

subsection \<open>clean\<close>

definition status_code :: "json \<Rightarrow> nat" where
  "status_code m = (if manifest_status m = Some ''verified'' then 0 else 1)"

definition known_error :: "bool \<Rightarrow> (err \<Rightarrow> bool) \<Rightarrow> err \<Rightarrow> nat io" where
  \<comment> \<open>the catch blocks: a known error is printed, as JSON without setting the exit code\<close>
  "known_error js known x = (if known x then returnI (if js then 0 else 2) else failI x)"

fun clean_error :: "err \<Rightarrow> bool" where
  "clean_error (LockHeldError m) = True"
| "clean_error (ReportDriftError a b) = True"
| "clean_error (NotImplementedError k) = True"
| "clean_error _ = False"

definition clean_opts_of :: "cli_opts \<Rightarrow> clean_opts" where
  "clean_opts_of op =
     \<lparr>cl_target = op_single op_targets op, cl_path = op_single op_paths op, cl_mode = None, cl_allowed = None\<rparr>"

definition clean_flow :: "cli_env \<Rightarrow> cli_opts \<Rightarrow> nat io" where
  \<comment> \<open>branch 4: compose, refuse, validate, execute\<close>
  "clean_flow ce op =
     bindI (composeCleanPlan (cexec ce) (op_home op) (clean_opts_of op)) (\<lambda>plan.
       if cp_refused plan \<noteq> [] then returnI 2
       else bindI (liftI (validateCleanPlan (cexec ce) plan (op_home op))) (\<lambda>validated.
            bindI (executeCleanPlan (cexec ce) validated (op_home op)) (\<lambda>m.
              case m of None \<Rightarrow> failI (TypeError ''manifest is undefined'') | Some j \<Rightarrow> returnI (status_code j))))"

fun stream_lock :: "err \<Rightarrow> bool" where
  "stream_lock (LockHeldError m) = True"
| "stream_lock _ = False"

definition runCleanStream :: "cli_env \<Rightarrow> cli_opts \<Rightarrow> nat io" where
  "runCleanStream ce op =
     (if \<not> op_yes op then returnI 2
      else catchI
        (bindI (executeStreamCleanPlan (cexec ce) (op_home op) None (op_pairs op)) (\<lambda>r.
           returnI (if sr_partial r then 1 else 0)))
        (known_error (op_json op) stream_lock))"

definition batch_opts_of :: "cli_opts \<Rightarrow> batch_opts" where
  "batch_opts_of op =
     \<lparr>bo_pairs = op_pairs op, bo_cap = op_batchCap op, bo_allowed = None, bo_skipBudget = False\<rparr>"

definition runCleanBatch :: "cli_env \<Rightarrow> cli_opts \<Rightarrow> nat io" where
  "runCleanBatch ce op =
     (if op_stream op then runCleanStream ce op
      else catchI
        (bindI (composeBatchCleanPlan (cexec ce) (op_home op) (batch_opts_of op)) (\<lambda>plan.
           if \<not> op_yes op \<or> bp_operations plan = [] then returnI 2
           else bindI (executeBatchCleanPlan (cexec ce) plan (op_home op)) (\<lambda>m. returnI (status_code m))))
        (known_error (op_json op) clean_error))"

definition runClean :: "cli_env \<Rightarrow> cli_opts \<Rightarrow> nat io" where
  "runClean ce op =
     (if \<not> op_confirm op then bindI (report_of_options ce op) (\<lambda>_. returnI 0)
      else if op_pairs op = [] then returnI 2
      else if op_isBatch op then runCleanBatch ce op
      else if \<not> op_yes op
      then bindI (composeCleanPlan (cexec ce) (op_home op) (clean_opts_of op)) (\<lambda>_. returnI 2)
      else catchI (clean_flow ce op) (known_error (op_json op) clean_error))"

subsection \<open>harden\<close>

fun harden_error :: "err \<Rightarrow> bool" where
  "harden_error (HardenLockHeldError m) = True"
| "harden_error (HardenPlanDriftError a b) = True"
| "harden_error _ = False"

definition harden_opts_of :: "cli_opts \<Rightarrow> harden_opts" where
  "harden_opts_of op =
     \<lparr>ho_target = op_single op_targets op, ho_path = op_single op_paths op, ho_mode = None,
      ho_allowed = None, ho_forceNetworkFs = False, ho_override = [], ho_rewrite = op_rewrite op\<rparr>"

definition harden_flow :: "cli_env \<Rightarrow> cli_opts \<Rightarrow> nat io" where
  "harden_flow ce op =
     bindI (composeHardenPlan (ce_harden ce) (op_home op) (harden_opts_of op)) (\<lambda>plan.
       if hq_refused plan \<noteq> [] then returnI 2
       else bindI (liftI (validateHardenPlan (ce_harden ce) plan (op_home op))) (\<lambda>validated.
            bindI (executeHardenPlan (ce_harden ce) validated (op_home op)) (\<lambda>m.
              case m of None \<Rightarrow> failI (TypeError ''manifest is undefined'') | Some j \<Rightarrow> returnI (status_code j))))"

definition runHarden :: "cli_env \<Rightarrow> cli_opts \<Rightarrow> nat io" where
  "runHarden ce op =
     (if \<not> op_confirm op then bindI (report_of_options ce op) (\<lambda>_. returnI 0)
      else if op_single op_targets op = [] \<or> op_single op_paths op = [] then returnI 2
      else if \<not> op_yes op
      then bindI (composeHardenPlan (ce_harden ce) (op_home op) (harden_opts_of op)) (\<lambda>_. returnI 2)
      else catchI (harden_flow ce op) (known_error (op_json op) harden_error))"

subsection \<open>rollback\<close>

fun rollback_error :: "err \<Rightarrow> bool" where
  "rollback_error (LockHeldError m) = True"
| "rollback_error (PlanDriftError a b c d) = True"
| "rollback_error (SnapshotIntegrityError a b c) = True"
| "rollback_error (RollbackNotImplementedError k) = True"
| "rollback_error (AbortNotAllowedError a b) = True"
| "rollback_error _ = False"

definition rolled_code :: "string \<Rightarrow> json \<Rightarrow> nat" where
  "rolled_code status m = (if manifest_status m = Some status then 0 else 1)"

definition as_single_plan :: "cli_env \<Rightarrow> stream_plan \<Rightarrow> string \<Rightarrow> rb_plan" where
  \<comment> \<open>what validateRollbackPlan reads of a stream plan: its opId member is undefined, which the
      template literal of the manifest path spells undefined\<close>
  "as_single_plan ce p home = emptyPlan (cenv ce) home ''undefined'' [] []"

definition run_stream_rollback :: "cli_env \<Rightarrow> cli_opts \<Rightarrow> nat io" where
  "run_stream_rollback ce op =
     catchI
       (bindI (liftI (composeStreamRollbackPlan (cenv ce) (op_home op) (op_rollbackStreamId op))) (\<lambda>plan.
          if sp_refused plan \<noteq> [] then returnI 2
          else if op_dryRun op \<or> \<not> op_confirm op \<or> \<not> op_yes op
          then (if op_json op then returnI (if op_dryRun op then 0 else 2)
                else failI (TypeError ''plan.operations is undefined''))
          else bindI (liftI (validateRollbackPlan (cenv ce) (as_single_plan ce plan (op_home op)) (op_home op))) (\<lambda>validated.
               bindI (executeRollbackPlan (cenv ce) (ce_rbHex ce) validated (op_home op)) (\<lambda>m.
                 returnI (rolled_code ''rolled_back'' m)))))
       (known_error (op_json op) stream_lock)"

definition run_abort :: "cli_env \<Rightarrow> cli_opts \<Rightarrow> nat io" where
  "run_abort ce op =
     (if \<not> op_confirm op \<or> \<not> op_yes op then returnI 2
      else bindI (abortRollbackOperation (cenv ce) (ce_rbHex ce) (op_rollbackId op) (op_home op)) (\<lambda>m.
           returnI (rolled_code ''aborted'' m)))"

definition rollback_flow :: "cli_env \<Rightarrow> cli_opts \<Rightarrow> nat io" where
  "rollback_flow ce op =
     bindI (liftI (composeRollbackPlan (cenv ce) (op_home op) (op_rollbackId op))) (\<lambda>plan.
       if rp_refused plan \<noteq> [] then returnI 2
       else if op_dryRun op then returnI 0
       else if \<not> op_confirm op \<or> \<not> op_yes op then returnI 2
       else bindI (liftI (validateRollbackPlan (cenv ce) plan (op_home op))) (\<lambda>validated.
            bindI (executeRollbackPlan (cenv ce) (ce_rbHex ce) validated (op_home op)) (\<lambda>m.
              returnI (rolled_code ''rolled_back'' m))))"

definition runRollback :: "cli_env \<Rightarrow> cli_opts \<Rightarrow> nat io" where
  "runRollback ce op =
     (if op_rollbackId op = [] \<and> op_rollbackStreamId op = [] then returnI 2
      else if op_rollbackStreamId op \<noteq> [] then run_stream_rollback ce op
      else catchI (if op_abort op then run_abort ce op else rollback_flow ce op)
             (known_error (op_json op) rollback_error))"

subsection \<open>verify\<close>

record probe =
  pr_label :: string
  pr_args :: "string list"
  pr_expect :: "string \<Rightarrow> bool"

definition as_word :: "(string \<Rightarrow> re) \<Rightarrow> string \<Rightarrow> string \<Rightarrow> bool" where
  "as_word l w output = re_test [Seq Bound (Seq (l w) Bound)] output"

definition any_output :: "string \<Rightarrow> bool" where
  "any_output output = True"

definition names_claude :: "string \<Rightarrow> bool" where
  "names_claude output = re_test [lit_i ''claude''] output"

definition probe_of :: "string \<Rightarrow> string list \<Rightarrow> (string \<Rightarrow> bool) \<Rightarrow> probe" where
  "probe_of label args expect = \<lparr>pr_label = label, pr_args = args, pr_expect = expect\<rparr>"

definition PROBES :: "probe list" where
  "PROBES =
     [probe_of ''binary'' [''--version''] names_claude,
      probe_of ''plugin list'' [''plugin'', ''list''] any_output,
      probe_of ''bare session'' [''-p'', ''echo X'', ''--bare''] (as_word lit ''X''),
      probe_of ''full registry session'' [''-p'', ''reply ok'', ''--model'', ''haiku''] (as_word lit_i ''ok''),
      probe_of ''tool use'' [''-p'', ''use Bash to echo Y'', ''--allowedTools'', ''Bash(echo:*)''] (as_word lit ''Y''),
      probe_of ''subagent dispatch''
        [''-p'', ''Use the Task tool to run a subagent that prints the word READY'', ''--allowedTools'', ''Task'']
        (as_word lit ''READY'')]"

definition probe_ok :: "cli_env \<Rightarrow> probe \<Rightarrow> bool" where
  "probe_ok ce p =
     (let (status, output) = ce_spawn ce (pr_args p) in status = Some 0 \<and> pr_expect p output)"

fun run_probes :: "cli_env \<Rightarrow> probe list \<Rightarrow> (string \<times> bool) list" where
  \<comment> \<open>the results pushed: the first failing probe is the last one run\<close>
  "run_probes ce [] = []"
| "run_probes ce (p # ps) =
     (if probe_ok ce p then (pr_label p, True) # run_probes ce ps else [(pr_label p, False)])"

definition printVerify :: "(string \<times> bool) list \<Rightarrow> nat" where
  "printVerify results = (if list_all snd results then 0 else 1)"

definition runVerify :: "cli_env \<Rightarrow> nat io" where
  "runVerify ce = returnI (printVerify (run_probes ce PROBES))"

subsection \<open>learn and prune\<close>

definition is_op_id :: "string \<Rightarrow> bool" where
  \<comment> \<open>OPERATION_ID_PATTERN and LEARN_OP_ID_PATTERN\<close>
  "is_op_id s =
     (length s = 26 \<and> take 3 s = ''op_'' \<and> list_all is_digit (take 14 (drop 3 s)) \<and> s ! 17 = CHR ''_'' \<and>
      list_all (\<lambda>c. is_digit c \<or> c \<in> set ''abcdef'') (drop 18 s))"

definition runLearn :: "cli_env \<Rightarrow> cli_opts \<Rightarrow> nat io" where
  "runLearn ce op =
     (let home = dirname (op_home op); mark = op_markFalsePositive op
      in if mark \<noteq> [] \<and> mark \<noteq> PENDING \<and> op_prune op then returnI 2
         else if op_prune op
         then (case op_olderThan op of
                 None \<Rightarrow> returnI 2
               | Some days \<Rightarrow> bindI (pruneLearningFiles (cenv ce) (ce_learnHex ce) home days) (\<lambda>_. returnI 0))
         else if mark \<noteq> []
         then (if mark = PENDING \<or> \<not> is_op_id mark then returnI 2
               else bindI (markFalsePositive (cenv ce) (ce_learnHex ce 0) home mark [] []) (\<lambda>_. returnI 0))
         else bindI (liftI (readSummary (cenv ce) home (Some 30))) (\<lambda>_. returnI 0))"

definition runPrune :: "cli_env \<Rightarrow> cli_opts \<Rightarrow> nat io" where
  "runPrune ce op =
     (if op_confirm op \<or> op_yes op then returnI 2
      else bindI (liftI (assembleReport (caudit ce) (op_home op) ((report_options op)\<lparr>ao_scope := ''plugins''\<rparr>)))
             (\<lambda>_. returnI 0))"

subsection \<open>The dispatcher\<close>

definition run_command :: "cli_env \<Rightarrow> cli_opts \<Rightarrow> nat io" where
  "run_command ce op =
     (let c = op_command op
      in if c = ''learn'' then runLearn ce op
         else if c = ''prune'' then runPrune ce op
         else if c = ''diagnose'' then runDiagnose ce op
         else if c = ''plan'' then runPlan ce op
         else if c = ''clean'' then runClean ce op
         else if c = ''verify'' then runVerify ce
         else if c = ''harden'' then runHarden ce op
         else if c = ''rollback'' then runRollback ce op
         else returnI 0)"

definition dispatch :: "cli_env \<Rightarrow> cli_opts \<Rightarrow> nat io" where
  "dispatch ce op =
     (if op_command op = ''clean'' \<and> \<not> op_confirm op then returnI 0
      else if op_command op = ''clean'' \<and> op_confirm op \<and> \<not> op_yes op \<and> \<not> op_isBatch op then returnI 2
      else if op_command op = ''rollback'' \<and> op_rollbackId op \<noteq> [] \<and> \<not> is_op_id (op_rollbackId op) then returnI 2
      else (let o' = op\<lparr>op_home := resolveClaudeHome (op_home op)\<rparr>
            in (\<lambda>s. if \<not> existsSync s (op_home o') then (Inr 2, s) else run_command ce o' s)))"

definition main :: "cli_env \<Rightarrow> string list \<Rightarrow> fs \<Rightarrow> nat \<times> fs" where
  \<comment> \<open>the exit code and the file system; the catch of the module turns an error into code 2\<close>
  "main ce argv s =
     (case parseArgs (str_or (ce_claudeHome ce) (ce_homedir ce)) argv of
        Inl x \<Rightarrow> (2, s)
      | Inr Help \<Rightarrow> (0, s)
      | Inr Version \<Rightarrow> (0, s)
      | Inr (Run op) \<Rightarrow> (case dispatch ce op s of (Inl x, s') \<Rightarrow> (2, s') | (Inr c, s') \<Rightarrow> (c, s')))"

end
