(* ===== verification/Cli_Facts.thy ===== *)
theory Cli_Facts
  imports Cli Harden_Facts
begin

text \<open>
  What the command line guarantees: a parsed command is well formed and its flags come from the
  arguments; without both consent flags no command but learn writes anything except the refusal
  log; the exit code of clean; and the commands that cannot work as written.
\<close>

subsection \<open>Parsing\<close>

lemma plain_flag_fields:
  assumes "plain_flag a op = Some op'"
  shows "op_command op' = op_command op \<and> (op_confirm op' \<longrightarrow> op_confirm op \<or> a = ''--confirm'')
    \<and> (op_yes op' \<longrightarrow> op_yes op \<or> a = ''--yes'') \<and> op_batchCap op' = op_batchCap op
    \<and> op_olderThan op' = op_olderThan op"
  using assms by (auto simp: plain_flag_def split: if_splits)

lemma text_flag_fields:
  assumes "text_flag a op = Some op'"
  shows "op_command op' = op_command op \<and> op_confirm op' = op_confirm op
    \<and> op_yes op' = op_yes op \<and> op_batchCap op' = op_batchCap op \<and> op_olderThan op' = op_olderThan op"
  using assms by (auto simp: text_flag_def split: option.splits)

lemma positive_integer_pos: "positive_integer v = Some n \<Longrightarrow> 0 < n"
  by (auto simp: positive_integer_def split: option.splits if_splits)

lemma number_flag_fields:
  assumes "number_flag a op = Some (Inr op')"
  shows "op_command op' = op_command op \<and> op_confirm op' = op_confirm op
    \<and> op_yes op' = op_yes op \<and> (op_batchCap op' = op_batchCap op \<or> (\<exists>n > 0. op_batchCap op' = Some n))
    \<and> op_olderThan op' = op_olderThan op"
  using assms by (auto simp: number_flag_def split: option.splits if_splits dest: positive_integer_pos)

lemma late_flag_fields:
  assumes "late_flag a op = Inr op'"
  shows "op_command op' = op_command op \<and> op_confirm op' = op_confirm op
    \<and> op_yes op' = op_yes op \<and> op_batchCap op' = op_batchCap op
    \<and> (op_olderThan op' = op_olderThan op \<or> (\<exists>n > 0. op_olderThan op' = Some n))"
  using assms by (auto simp: late_flag_def split: option.splits if_splits sum.splits dest: positive_integer_pos)

definition grows_from :: "string set \<Rightarrow> cli_opts \<Rightarrow> cli_opts \<Rightarrow> bool" where
  "grows_from as op op' =
     (op_command op' = op_command op \<and> (op_confirm op' \<longrightarrow> op_confirm op \<or> ''--confirm'' \<in> as)
      \<and> (op_yes op' \<longrightarrow> op_yes op \<or> ''--yes'' \<in> as)
      \<and> (op_batchCap op' = op_batchCap op \<or> (\<exists>n > 0. op_batchCap op' = Some n))
      \<and> (op_olderThan op' = op_olderThan op \<or> (\<exists>n > 0. op_olderThan op' = Some n)))"

lemma parse_arg_grows: "parse_arg a op = Inr op' \<Longrightarrow> grows_from {a} op op'"
  by (auto simp: parse_arg_def grows_from_def split: option.splits if_splits
      dest: plain_flag_fields text_flag_fields number_flag_fields late_flag_fields)

lemma grows_trans: "grows_from A a b \<Longrightarrow> grows_from B b c \<Longrightarrow> grows_from (A \<union> B) a c"
  unfolding grows_from_def by (elim conjE, intro conjI) (metis UnCI)+

lemma parse_loop_grows: "parse_loop as op = Inr op' \<Longrightarrow> grows_from (set as) op op'"
proof (induction as arbitrary: op)
  case Nil
  then show ?case by (simp add: grows_from_def)
next
  case (Cons a as)
  then obtain o1 where "parse_arg a op = Inr o1" "parse_loop as o1 = Inr op'"
    by (auto split: sum.splits)
  then have "grows_from ({a} \<union> set as) op op'"
    using Cons.IH parse_arg_grows grows_trans by blast
  then show ?case by simp
qed

lemma parseArgs_run:
  assumes "parseArgs home argv = Inr (Run op)"
  obtains as command where "set as \<subseteq> set argv" "grows_from (set as) (default_options command home) op"
    "command \<in> set VALID_COMMANDS" "check_options op = None"
    "command = (if argv \<noteq> [] \<and> hd argv \<in> set VALID_COMMANDS then hd argv else ''diagnose'')"
proof -
  let ?known = "argv \<noteq> [] \<and> hd argv \<in> set VALID_COMMANDS"
  let ?as = "if ?known then tl argv else argv"
  let ?c = "if ?known then hd argv else ''diagnose''"
  have p: "parse_loop ?as (default_options ?c home) = Inr op" and c: "check_options op = None"
    using assms by (auto simp: parseArgs_def Let_def split: option.splits sum.splits if_splits)
  have "set ?as \<subseteq> set argv"
    by (cases argv) auto
  moreover have "?c \<in> set VALID_COMMANDS"
    by (simp add: VALID_COMMANDS_def)
  ultimately show thesis
    by (rule that [OF _ parse_loop_grows [OF p] _ c refl])
qed

lemma check_options_None:
  assumes "check_options op = None"
  shows "length (op_targets op) = length (op_paths op)" "set (op_targets op) \<subseteq> set KNOWN_DETECTORS"
    "op_stream op \<or> (case op_batchCap op of Some n \<Rightarrow> n \<le> BATCH_MAX_PAIRS | None \<Rightarrow> True)"
    "op_resumeStreamId op = []"
  using assms
  by (auto simp: check_options_def Let_def find_None_iff2 find_None_iff split: if_splits option.splits)

subsection \<open>Actions that only log\<close>

definition logs_only :: "string \<Rightarrow> 'a io \<Rightarrow> bool" where
  "logs_only home m = (\<forall>s. only_log (refusal_log home) s (snd (m s)))"

lemma logs_bind: "logs_only home m \<Longrightarrow> (\<And>x. logs_only home (f x)) \<Longrightarrow> logs_only home (bindI m f)"
  unfolding logs_only_def by (blast intro: bindI_only)

lemma logs_pure: "logs_only home (returnI x)" "logs_only home (failI e)" "logs_only home (liftI g)"
  by (auto simp: logs_only_def returnI_def failI_def liftI_def)

lemma logs_catch: "logs_only home m \<Longrightarrow> (\<And>x. logs_only home (h x)) \<Longrightarrow> logs_only home (catchI m h)"
  unfolding logs_only_def
proof
  fix s
  assume m: "\<forall>s. only_log (refusal_log home) s (snd (m s))"
    and h: "\<And>x. \<forall>s. only_log (refusal_log home) s (snd (h x s))"
  show "only_log (refusal_log home) s (snd (catchI m h s))"
  proof (cases "m s")
    case (Pair r t)
    then have "only_log (refusal_log home) s t" using m by (metis snd_conv)
    then show ?thesis
      using Pair h only_log_trans by (cases r) (auto simp: catchI_def)
  qed
qed

lemma logs_known: "logs_only home (known_error js k x)"
  by (simp add: known_error_def logs_pure)

lemma logs_compose: "logs_only home (composeCleanPlan x home opts)"
  unfolding logs_only_def
proof
  fix s
  have p: "logs_only home (plan_candidates (xenv x) home cc cands)" for cc cands
    unfolding logs_only_def using plan_candidates_run by (metis snd_conv)
  have k: "logs_only home (keep_one (xenv x) home planned)" for planned
    unfolding logs_only_def using keep_one_run by (metis snd_conv surj_pair)
  have b: "logs_only home (bindI (plan_candidates (xenv x) home cc cands) (\<lambda>planned.
      bindI (keep_one (xenv x) home planned) (\<lambda>(ops, refused). returnI (g ops refused))))"
    for cc cands and g :: "clean_op list \<Rightarrow> clean_refusal list \<Rightarrow> clean_plan"
    by (auto intro!: logs_bind p k simp: logs_pure split: prod.split)
  show "only_log (refusal_log home) s (snd (composeCleanPlan x home opts s))"
    unfolding composeCleanPlan_def Let_def using b
    by (auto simp: logs_only_def split: sum.split)
qed

lemma logs_refusal: "logs_only home (log_refusal e home t r p)"
  unfolding logs_only_def using log_refusal_run by (metis snd_conv)

lemma logs_pairs: "logs_only home (compose_pairs x home allowed hash ps)"
proof (induction ps arbitrary: hash)
  case Nil
  then show ?case by (simp add: logs_pure)
next
  case (Cons p ps)
  then show ?case
    by (cases p) (auto intro!: logs_bind logs_compose simp: logs_pure split: prod.split)
qed

lemma logs_batch: "logs_only home (composeBatchCleanPlan x home opts)"
  unfolding composeBatchCleanPlan_def Let_def
  by (auto intro!: logs_bind logs_refusal logs_pairs simp: logs_pure split: prod.split)

lemma logs_log_refusals: "logs_only home (log_refusals e home rs)"
  unfolding logs_only_def using log_refusals_run by (metis snd_conv)

lemma logs_harden_candidates: "logs_only home (harden_candidates h home opts registry fs)"
proof (induction fs)
  case Nil
  then show ?case by (simp add: logs_pure)
next
  case (Cons f fs)
  then show ?case
    by (auto intro!: logs_bind logs_log_refusals simp: logs_pure Let_def simp del: log_refusals.simps split: prod.split sum.split)
qed

lemma logs_keep_harden: "logs_only home (keep_one_harden e home p)"
  by (auto intro!: logs_bind logs_log_refusals simp: keep_one_harden_def logs_pure Let_def simp del: log_refusals.simps split: prod.split)

lemma logs_harden_checks: "logs_only home (harden_checks h home opts cands)"
  by (auto intro!: logs_bind logs_log_refusals logs_compose logs_harden_candidates logs_keep_harden
      simp: harden_checks_def logs_pure Let_def simp del: log_refusals.simps)

lemma logs_harden: "logs_only home (composeHardenPlan h home opts)"
  unfolding logs_only_def
proof
  fix s
  have b: "logs_only home (bindI (harden_checks h home opts cands) (\<lambda>(ops, refused). returnI (g ops refused)))"
    for cands and g :: "harden_op list \<Rightarrow> clean_refusal list \<Rightarrow> harden_plan"
    by (auto intro!: logs_bind logs_harden_checks simp: logs_pure split: prod.split)
  show "only_log (refusal_log home) s (snd (composeHardenPlan h home opts s))"
    unfolding composeHardenPlan_def Let_def using b
    by (auto simp: logs_only_def split: sum.split)
qed

lemmas logs_rules = logs_bind logs_catch logs_known logs_compose logs_batch logs_harden

subsection \<open>Consent\<close>

definition consented :: "cli_opts \<Rightarrow> bool" where
  "consented op = (op_confirm op \<and> op_yes op)"

lemma logs_report: "logs_only home (report_of_options ce op)"
  by (simp add: report_of_options_def logs_pure)

lemma logs_clean: "\<not> consented op \<Longrightarrow> logs_only (op_home op) (runClean ce op)"
  by (auto intro!: logs_rules logs_report
      simp: runClean_def runCleanBatch_def runCleanStream_def consented_def logs_pure)

lemma logs_hardening: "\<not> consented op \<Longrightarrow> logs_only (op_home op) (runHarden ce op)"
  by (auto intro!: logs_rules logs_report simp: runHarden_def consented_def logs_pure)

lemma logs_rollback: "\<not> consented op \<Longrightarrow> logs_only (op_home op) (runRollback ce op)"
  by (auto intro!: logs_rules simp: runRollback_def run_stream_rollback_def run_abort_def rollback_flow_def
      consented_def logs_pure)

lemma logs_command:
  assumes "\<not> consented op" and "op_command op \<noteq> ''learn''"
  shows "logs_only (op_home op) (run_command ce op)"
  using assms logs_clean logs_hardening logs_rollback
  by (auto intro!: logs_bind logs_report
      simp: run_command_def Let_def runPrune_def runDiagnose_def runPlan_def runVerify_def logs_pure)

lemma logs_dispatch:
  assumes "\<not> consented op" and "op_command op \<noteq> ''learn''"
  shows "only_log (refusal_log (resolveClaudeHome (op_home op))) s (snd (dispatch ce op s))"
proof -
  let ?o = "op\<lparr>op_home := resolveClaudeHome (op_home op)\<rparr>"
  have "logs_only (op_home ?o) (run_command ce ?o)"
    using assms by (intro logs_command) (auto simp: consented_def)
  then show ?thesis
    by (auto simp: dispatch_def Let_def logs_only_def returnI_def)
qed

lemma main_run:
  "parseArgs (str_or (ce_claudeHome ce) (ce_homedir ce)) argv = Inr (Run op)
    \<Longrightarrow> snd (main ce argv s) = snd (dispatch ce op s)"
  by (auto simp: main_def split: prod.split sum.split)

definition cli_home :: "cli_env \<Rightarrow> string list \<Rightarrow> string" where
  \<comment> \<open>the home directory the command line selects\<close>
  "cli_home ce argv =
     (case parseArgs (str_or (ce_claudeHome ce) (ce_homedir ce)) argv of
        Inr (Run op) \<Rightarrow> resolveClaudeHome (op_home op) | _ \<Rightarrow> [])"

text \<open>C9: Nothing is written without consent. Unless both --confirm and --yes are on the command
  line, every command but learn leaves every file as it was, whatever else is on the command line
  and whatever the disk holds: only the refusal log of the selected home may grow, and directories
  leading to it may appear.\<close>

theorem consent_required:
  assumes "''--confirm'' \<notin> set argv \<or> ''--yes'' \<notin> set argv" and "argv = [] \<or> hd argv \<noteq> ''learn''"
    and "no_link s (refusal_log (cli_home ce argv))" and "q \<noteq> refusal_log (cli_home ce argv)"
  shows "fget q (snd (main ce argv s)) = fget q s \<or>
    fget q s = None \<and> fget q (snd (main ce argv s)) = Some Dir"
proof (cases "parseArgs (str_or (ce_claudeHome ce) (ce_homedir ce)) argv")
  case (Inr p)
  show ?thesis
  proof (cases p)
    case (Run op)
    let ?h = "str_or (ce_claudeHome ce) (ce_homedir ce)"
    have run: "parseArgs ?h argv = Inr (Run op)"
      using Inr Run by simp
    obtain as command where p: "set as \<subseteq> set argv" "grows_from (set as) (default_options command ?h) op"
      "command = (if argv \<noteq> [] \<and> hd argv \<in> set VALID_COMMANDS then hd argv else ''diagnose'')"
      by (rule parseArgs_run [OF run])
    have "\<not> consented op"
      using p(1,2) assms(1) by (auto simp: grows_from_def default_options_def consented_def)
    moreover have "op_command op \<noteq> ''learn''"
      using p(2,3) assms(2) by (auto simp: grows_from_def default_options_def split: if_splits)
    ultimately have "only_log (refusal_log (cli_home ce argv)) s (snd (main ce argv s))"
      using logs_dispatch [of op s ce] main_run [OF run, of s] run by (simp add: cli_home_def)
    then show ?thesis
      using assms(3,4) by (auto simp: only_log_def)
  qed (use Inr in \<open>simp_all add: main_def\<close>)
qed (simp add: main_def)

definition cli_demo :: cli_env where
  "cli_demo = \<lparr>ce_harden = live_harden, ce_claudeHome = [], ce_homedir = ''/u'', ce_rbHex = ''aa'',
     ce_learnHex = (\<lambda>k. ''bb''), ce_spawn = (\<lambda>as. (Some 0, ''claude''))\<rparr>"

definition cli_disk :: fs where
  "cli_disk = [(''/u'', Dir), (''/u/.claude'', Dir), (''/u/.claude/settings.json'', File ''{}'' 420)]"

theorem consent_required_witness:
  "fget ''/u/.claude/settings.json''
     (snd (main cli_demo [''harden'', ''--confirm'', ''--target=settings.hook_path_dangling'', ''--path=/u/.claude/settings.json''] cli_disk))
   = Some (File ''{}'' 420)"
proof -
  let ?argv = "[''harden'', ''--confirm'', ''--target=settings.hook_path_dangling'', ''--path=/u/.claude/settings.json'']"
  have h: "cli_home cli_demo ?argv = ''/u/.claude''"
    by code_simp
  have "fget ''/u/.claude/settings.json'' cli_disk = Some (File ''{}'' 420)"
    by code_simp
  moreover have "fget (refusal_log ''/u/.claude'') cli_disk = None"
    by code_simp
  moreover have "''/u/.claude/settings.json'' \<noteq> refusal_log ''/u/.claude''"
    by code_simp
  ultimately show ?thesis
    using consent_required [of ?argv cli_disk cli_demo "''/u/.claude/settings.json''"] h
    by (simp add: no_link_def)
qed

definition valid_options :: "string list \<Rightarrow> cli_opts \<Rightarrow> bool" where
  "valid_options argv op =
     (op_command op \<in> set VALID_COMMANDS \<and>
      length (op_targets op) = length (op_paths op) \<and> set (op_targets op) \<subseteq> set KNOWN_DETECTORS \<and>
      (case op_batchCap op of None \<Rightarrow> True | Some n \<Rightarrow> 0 < n \<and> (op_stream op \<or> n \<le> BATCH_MAX_PAIRS)) \<and>
      (case op_olderThan op of None \<Rightarrow> True | Some n \<Rightarrow> 0 < n) \<and>
      op_resumeStreamId op = [] \<and>
      (op_confirm op \<longrightarrow> ''--confirm'' \<in> set argv) \<and> (op_yes op \<longrightarrow> ''--yes'' \<in> set argv))"

text \<open>C22: Whatever parseArgs accepts is a well-formed command: a valid command, as many targets as
  paths, every target a known detector, a positive batch cap that is at most 50 without --stream,
  a positive age, no resume, and the consent flags only when they stand on the command line.\<close>

theorem parsed_options_valid:
  assumes "parseArgs home argv = Inr (Run op)"
  shows "valid_options argv op"
proof -
  obtain as command where p: "set as \<subseteq> set argv" "grows_from (set as) (default_options command home) op"
    "command \<in> set VALID_COMMANDS" "check_options op = None"
    by (rule parseArgs_run [OF assms])
  have "(case op_batchCap op of None \<Rightarrow> True | Some n \<Rightarrow> 0 < n)" "(case op_olderThan op of None \<Rightarrow> True | Some n \<Rightarrow> 0 < n)"
    "op_command op = command" "op_confirm op \<longrightarrow> ''--confirm'' \<in> set argv" "op_yes op \<longrightarrow> ''--yes'' \<in> set argv"
    using p(1,2) by (auto simp: grows_from_def default_options_def)
  then show ?thesis
    using check_options_None [OF p(4)] p(3) by (auto simp: valid_options_def split: option.splits)
qed

theorem parsed_options_valid_witness:
  "\<exists>op. parseArgs ''/u'' [''clean'', ''--batch=2e1'', ''--target=plugin.cache_unreferenced'', ''--path=/u/x''] = Inr (Run op)
    \<and> op_batchCap op = Some 20
    \<and> valid_options [''clean'', ''--batch=2e1'', ''--target=plugin.cache_unreferenced'', ''--path=/u/x''] op"
proof -
  let ?argv = "[''clean'', ''--batch=2e1'', ''--target=plugin.cache_unreferenced'', ''--path=/u/x'']"
  let ?op = "(default_options ''clean'' ''/u'')\<lparr>op_batchCap := Some 20, op_targets := [''plugin.cache_unreferenced''],
    op_paths := [''/u/x'']\<rparr>"
  have "parseArgs ''/u'' ?argv = Inr (Run ?op)"
    by code_simp
  then show ?thesis
    using parsed_options_valid [of "''/u''" ?argv ?op] by (intro exI [of _ ?op]) simp
qed

subsection \<open>Rolling back a stream\<close>

definition undefined_manifest :: "string \<Rightarrow> string" where
  \<comment> \<open>the manifest validateRollbackPlan reads for a stream plan\<close>
  "undefined_manifest home = rb_manifest_path home ''undefined''"

lemma known_error_state: "known_error js k x s = (r, s') \<Longrightarrow> s' = s"
  by (auto simp: known_error_def returnI_def failI_def split: if_splits)

lemma read_file_error: "read_file s p = Inl x \<Longrightarrow> \<not> stream_lock x"
  by (auto simp: read_file_def split: option.splits node.splits)

lemma read_json_error: "read_json s p = Inl x \<Longrightarrow> \<not> stream_lock x"
  by (auto simp: read_json_def dest: read_file_error split: sum.splits option.splits)

lemma drift_error: "detectDrift e s en st = Inl x \<Longrightarrow> \<not> stream_lock x"
  by (auto simp: detectDrift_def Let_def entry_hash_def hashFile_def
      split: if_splits sum.splits option.splits node.splits)

lemma first_drift_error: "first_drift e s st ens = Inl x \<Longrightarrow> \<not> stream_lock x"
  by (induction ens) (auto dest: drift_error split: sum.splits option.splits)

lemma compose_rollback_error: "composeRollbackPlan e home i s = Inl x \<Longrightarrow> \<not> stream_lock x"
  by (auto simp: composeRollbackPlan_def Let_def dest: first_drift_error
      split: if_splits sum.splits option.splits)

lemma sub_plans_error: "sub_plans e home s cs = Inl x \<Longrightarrow> \<not> stream_lock x"
  by (induction cs) (auto dest: compose_rollback_error split: sum.splits)

lemma chunk_refs_error: "chunk_refs s d ns = Inl x \<Longrightarrow> \<not> stream_lock x"
  by (induction ns arbitrary: x) (auto split: sum.splits if_splits option.splits)

lemma compose_stream_error: "composeStreamRollbackPlan e home i s = Inl x \<Longrightarrow> \<not> stream_lock x"
  by (auto simp: composeStreamRollbackPlan_def Let_def dest: sub_plans_error chunk_refs_error
      split: if_splits sum.splits)

lemma stream_rollback_stuck:
  assumes "read_json s (undefined_manifest (op_home op)) = Inl x" and "\<not> stream_lock x"
  shows "\<exists>r. run_stream_rollback ce op s = (r, s) \<and> (r = Inr 0 \<longrightarrow> op_json op \<and> op_dryRun op)"
proof -
  have v: "validateRollbackPlan (cenv ce) (as_single_plan ce p (op_home op)) (op_home op) s = Inl x" for p
    using assms(1) by (simp add: validateRollbackPlan_def as_single_plan_def emptyPlan_def undefined_manifest_def Let_def)
  show ?thesis
    using v assms(2) compose_stream_error
    by (fastforce simp: run_stream_rollback_def catchI_def bindI_def liftI_def returnI_def failI_def known_error_def
        split: sum.split)
qed

text \<open>C23: The command rollback --stream=<id> never restores anything: it validates the stream plan
  as if it were the plan of one operation, so it looks for the manifest operations/undefined.json.
  As long as no such manifest can be read, the command leaves the disk as it was whatever its
  flags, and its exit code is 0 only for a dry run printed as JSON.\<close>

theorem stream_rollback_never_runs:
  assumes "parseArgs (str_or (ce_claudeHome ce) (ce_homedir ce)) argv = Inr (Run op)"
    and "op_command op = ''rollback''" and "op_rollbackStreamId op \<noteq> []"
    and "read_json s (undefined_manifest (resolveClaudeHome (op_home op))) = Inl x"
  shows "snd (main ce argv s) = s \<and> (fst (main ce argv s) = 0 \<longrightarrow> op_json op \<and> op_dryRun op)"
proof -
  let ?o = "op\<lparr>op_home := resolveClaudeHome (op_home op)\<rparr>"
  obtain r where r: "run_stream_rollback ce ?o s = (r, s)" "r = Inr 0 \<longrightarrow> op_json op \<and> op_dryRun op"
    using stream_rollback_stuck [of s ?o x ce] assms(4) read_json_error by auto
  have run: "run_command ce ?o s = (r, s)"
    using assms(2,3) r(1) by (simp add: run_command_def runRollback_def)
  show ?thesis
  proof (cases "dispatch ce op s")
    case (Pair q t)
    then have "t = s \<and> (q = Inr 0 \<longrightarrow> op_json op \<and> op_dryRun op)"
      using run r(2) assms(2) by (auto simp: dispatch_def Let_def returnI_def split: if_splits)
    then show ?thesis
      using assms(1) Pair by (cases q) (auto simp: main_def)
  qed
qed

theorem stream_rollback_never_runs_witness:
  "snd (main cli_demo [''rollback'', ''--stream=stream_1'', ''--confirm'', ''--yes''] cli_disk) = cli_disk \<and>
   fst (main cli_demo [''rollback'', ''--stream=stream_1'', ''--confirm'', ''--yes''] cli_disk) \<noteq> 0"
proof -
  let ?op = "(default_options ''rollback'' ''/u'')\<lparr>op_rollbackStreamId := ''stream_1'', op_confirm := True, op_yes := True\<rparr>"
  have "parseArgs (str_or (ce_claudeHome cli_demo) (ce_homedir cli_demo))
      [''rollback'', ''--stream=stream_1'', ''--confirm'', ''--yes''] = Inr (Run ?op)"
    by code_simp
  moreover have "read_json cli_disk (undefined_manifest (resolveClaudeHome (op_home ?op)))
      = Inl (ENOENT ''/u/.claude/housekeeper/operations/undefined.json'')"
    by code_simp
  ultimately show ?thesis
    using stream_rollback_never_runs [of cli_demo "[''rollback'', ''--stream=stream_1'', ''--confirm'', ''--yes'']"
        ?op cli_disk "ENOENT ''/u/.claude/housekeeper/operations/undefined.json''"]
    by (simp add: default_options_def)
qed

subsection \<open>Errors printed as JSON\<close>

lemma known_error_code:
  assumes "m s = (Inl x, s')" and "known x"
  shows "catchI m (known_error js known) s = (Inr (if js then 0 else 2), s')"
  using assms by (simp add: catchI_def known_error_def returnI_def)

lemma clean_error_exit_code:
  assumes "op_confirm op" "op_yes op" "length (op_pairs op) = 1" "op_batchCap op = None"
    and "clean_flow ce op s = (Inl x, s')" and "clean_error x"
  shows "runClean ce op s = (Inr (if op_json op then 0 else 2), s')"
  using assms known_error_code [of "clean_flow ce op" s x s' clean_error "op_json op"]
  by (auto simp: runClean_def op_isBatch_def)

lemma abort_error_exit_code:
  assumes "op_rollbackId op \<noteq> []" "op_rollbackStreamId op = []" "op_abort op"
    and "run_abort ce op s = (Inl x, s')" and "rollback_error x"
  shows "runRollback ce op s = (Inr (if op_json op then 0 else 2), s')"
  using assms known_error_code [of "run_abort ce op" s x s' rollback_error "op_json op"]
  by (simp add: runRollback_def)

end
